(* ===== verification/Sat1_Prelude.thy ===== *)
theory Sat1_Prelude
  imports Main "HOL-Library.Word" "HOL-Library.State_Monad" "HOL-Library.More_List"
begin

text \<open>
  The vocabulary the component theories share.

  \<^item> Names for the fixed-width integers of the C++ sources (\<open>uint8_t\<close> is \<open>u8\<close>, and so on);
    arithmetic on them wraps as the unsigned arithmetic of the sources does.
  \<^item> Little-endian packing of words into bytes (the targets are little-endian, and the sources read
    and write words through \<open>uint8_t *\<close>).
  \<^item> The state of a running component is a pair of the object (a record) and the world, an
    arbitrary type: hardware, RTOS and libraries are only reached through operations that are
    parameters of the definitions. \<open>obj_get\<close>, \<open>obj_mod\<close>, \<open>ext\<close> and \<open>ext0\<close> are the four primitive
    steps: read a member, assign members, call an outside function with a result, call one without.
  \<^item> A small Hoare calculus for the state monad; \<open>hoare_rules\<close> collects its rules.
\<close>

unbundle bit_operations_syntax

type_synonym u8 = "8 word"
type_synonym u16 = "16 word"
type_synonym u32 = "32 word"
type_synonym u64 = "64 word"

named_theorems mask_simps "bit masks of the sources as take_bit"
named_theorems hoare_rules "rules of the Hoare calculus on state-monad programs"
named_theorems prim_defs "the primitive steps on (object, world) pairs"

section \<open>Little-endian bytes\<close>

definition le16_bytes :: "u16 \<Rightarrow> u8 list" where
  "le16_bytes h = [ucast (h AND 0xFF), ucast (drop_bit 8 h AND 0xFF)]"

definition le32_bytes :: "u32 \<Rightarrow> u8 list" where
  "le32_bytes d =
     [ucast (d AND 0xFF), ucast (drop_bit 8 d AND 0xFF), ucast (drop_bit 16 d AND 0xFF),
      ucast (drop_bit 24 d AND 0xFF)]"

fun le16_of :: "u8 list \<Rightarrow> u16" where
  "le16_of (a # b # _) = ucast a OR push_bit 8 (ucast b)"
| "le16_of [a] = ucast a"
| "le16_of [] = 0"

fun le32_list_of :: "u8 list \<Rightarrow> u32 list" where
  "le32_list_of (a # b # c # d # bs) =
     (ucast a OR push_bit 8 (ucast b) OR push_bit 16 (ucast c) OR push_bit 24 (ucast d))
     # le32_list_of bs"
| "le32_list_of _ = []"

section \<open>Decimal output\<close>

text \<open>What \<open>std::to_string\<close> and \<open>%d\<close> print for a non-negative number.\<close>

fun dec_str :: "nat \<Rightarrow> string" where
  "dec_str n = (if n < 10 then [char_of (48 + n)] else dec_str (n div 10) @ [char_of (48 + n mod 10)])"

declare dec_str.simps [simp del]

text \<open>\<open>a / b\<close> rounded to the nearest integer, ties to even (the rounding mode of IEEE arithmetic and
  of the digits \<open>printf\<close> prints).\<close>

definition round_half_even :: "int \<Rightarrow> int \<Rightarrow> int" where
  "round_half_even a b =
     (let q = a div b; r = a mod b
      in if 2 * r < b then q else if b < 2 * r then q + 1 else if even q then q else q + 1)"

section \<open>Programs on an object and the world\<close>

definition obj_get :: "('s \<Rightarrow> 'a) \<Rightarrow> ('s \<times> 'w, 'a) state" where
  [prim_defs]: "obj_get f = State (\<lambda>(s, w). (f s, (s, w)))"

definition obj_mod :: "('s \<Rightarrow> 's) \<Rightarrow> ('s \<times> 'w, unit) state" where
  [prim_defs]: "obj_mod f = State (\<lambda>(s, w). ((), (f s, w)))"

definition ext :: "('w \<Rightarrow> 'a \<times> 'w) \<Rightarrow> ('s \<times> 'w, 'a) state" where
  [prim_defs]: "ext g = State (\<lambda>(s, w). case g w of (r, w') \<Rightarrow> (r, (s, w')))"

definition ext0 :: "('w \<Rightarrow> 'w) \<Rightarrow> ('s \<times> 'w, unit) state" where
  [prim_defs]: "ext0 g = State (\<lambda>(s, w). ((), (s, g w)))"

abbreviation ret :: "'a \<Rightarrow> ('s, 'a) state" where
  "ret \<equiv> State_Monad.return"

definition hoare :: "('s \<Rightarrow> bool) \<Rightarrow> ('s, 'a) state \<Rightarrow> ('a \<Rightarrow> 's \<Rightarrow> bool) \<Rightarrow> bool" where
  "hoare P m Q \<longleftrightarrow> (\<forall>s r s'. P s \<longrightarrow> run_state m s = (r, s') \<longrightarrow> Q r s')"

section \<open>Masks, shifts and bytes\<close>

lemma and_masks [mask_simps]:
  fixes x :: "'a::len word"
  shows "x AND 0x3 = take_bit 2 x" and "x AND 0x7 = take_bit 3 x"
    and "x AND 0x1F = take_bit 5 x" and "x AND 0x7F = take_bit 7 x"
    and "x AND 0xFF = take_bit 8 x" and "x AND 0x3FF = take_bit 10 x"
  by (simp_all add: take_bit_eq_mask mask_numeral)

lemma and_one_bit [simp]:
  fixes x :: "'a::len word"
  shows "drop_bit n x AND 1 = 0 \<longleftrightarrow> \<not> bit x n"
  by (simp add: bit_iff_odd_drop_bit and_one_eq even_iff_mod_2_eq_zero)

lemma take_bit_2_cases:
  fixes x :: "'a::len word"
  shows "take_bit 2 x = 0 \<or> take_bit 2 x = 1 \<or> take_bit 2 x = 2 \<or> take_bit 2 x = 3"
proof -
  have "take_bit 2 x = of_bool (bit x 0) + 2 * of_bool (bit x 1)"
    by (simp add: take_bit_rec numeral_2_eq_2 bit_0 bit_Suc mod_2_eq_odd)
  then show ?thesis by auto
qed

lemma less_exp_bit:
  fixes x :: "'a::len word"
  shows "x < 2 ^ k \<Longrightarrow> bit x n \<Longrightarrow> n < k"
  by (metis bit_take_bit_iff less_mask_eq take_bit_eq_mask)

text \<open>Two 16-bit words are equal when their sixteen bits are; each goal is then closed by evaluation.\<close>

lemma u16_eqI:
  fixes a b :: u16
  assumes "bit a 0 = bit b 0" "bit a 1 = bit b 1" "bit a 2 = bit b 2" "bit a 3 = bit b 3"
    "bit a 4 = bit b 4" "bit a 5 = bit b 5" "bit a 6 = bit b 6" "bit a 7 = bit b 7"
    "bit a 8 = bit b 8" "bit a 9 = bit b 9" "bit a 10 = bit b 10" "bit a 11 = bit b 11"
    "bit a 12 = bit b 12" "bit a 13 = bit b 13" "bit a 14 = bit b 14" "bit a 15 = bit b 15"
  shows "a = b"
proof (rule bit_word_eqI)
  fix n assume "n < LENGTH(16)"
  then have "n \<in> {0, 1, 2, 3, 4, 5, 6, 7} \<or> n \<in> {8, 9, 10, 11, 12, 13, 14, 15}"
    by simp presburger
  with assms show "bit a n = bit b n" by (elim disjE insertE) simp_all
qed

lemma ucast_ucast_small:
  "LENGTH('b) \<le> LENGTH('a) \<Longrightarrow> (ucast (ucast (x :: 'b::len word) :: 'a::len word) :: 'b word) = x"
  by (rule bit_word_eqI) (auto simp: bit_simps)

lemma unat_ucast_u8: "unat (ucast (x :: u8) :: u32) = unat x"
proof -
  have "unat x < 2 ^ 8" using unsigned_less [of x, where ?'a = nat] by simp
  then show ?thesis by (simp add: unsigned_ucast_eq take_bit_nat_eq_self_iff)
qed

lemma le16_of_bytes [simp]: "le16_of (le16_bytes h @ bs) = h"
  by (rule bit_word_eqI) (auto simp: le16_bytes_def mask_simps bit_simps)

lemma le32_list_of_bytes [simp]: "le32_list_of (le32_bytes d @ bs) = d # le32_list_of bs"
proof -
  have "ucast (ucast (take_bit 8 d) :: u8) OR push_bit 8 (ucast (ucast (take_bit 8 (drop_bit 8 d)) :: u8))
        OR push_bit 16 (ucast (ucast (take_bit 8 (drop_bit 16 d)) :: u8))
        OR push_bit 24 (ucast (ucast (take_bit 8 (drop_bit 24 d)) :: u8)) = d" (is "?l = d")
  proof (rule bit_word_eqI)
    fix n assume "n < LENGTH(32)"
    consider "n < 8" | "8 \<le> n" "n < 16" | "16 \<le> n" "n < 24" | "24 \<le> n" by linarith
    then show "bit ?l n = bit d n"
      using \<open>n < LENGTH(32)\<close> by cases (auto simp: bit_simps)
  qed
  then show ?thesis
    by (simp add: le32_bytes_def mask_simps)
qed

lemma le32_list_of_concat [simp]: "le32_list_of (concat (map le32_bytes ds)) = ds"
  by (induction ds) simp_all

lemma length_le16_bytes [simp]: "length (le16_bytes h) = 2"
  by (simp add: le16_bytes_def)

lemma length_le32_bytes [simp]: "length (le32_bytes d) = 4"
  by (simp add: le32_bytes_def)

lemma length_concat_le32 [simp]: "length (concat (map le32_bytes ds)) = 4 * length ds"
  by (induction ds) simp_all

section \<open>Running the primitive steps\<close>

lemma run_prims [simp]:
  "run_state (obj_get f) sw = (f (fst sw), sw)"
  "run_state (obj_mod h) sw = ((), (h (fst sw), snd sw))"
  "run_state (ext g) sw = (fst (g (snd sw)), (fst sw, snd (g (snd sw))))"
  "run_state (ext0 k) sw = ((), (fst sw, k (snd sw)))"
  by (simp_all add: prim_defs case_prod_beta)

lemma run_if [simp]:
  "run_state (if b then m else n) s = (if b then run_state m s else run_state n s)"
  by simp

section \<open>The Hoare calculus\<close>

lemma hoareI: "(\<And>s r s'. P s \<Longrightarrow> run_state m s = (r, s') \<Longrightarrow> Q r s') \<Longrightarrow> hoare P m Q"
  by (auto simp: hoare_def)

lemma hoareD: "hoare P m Q \<Longrightarrow> P s \<Longrightarrow> run_state m s = (r, s') \<Longrightarrow> Q r s'"
  by (auto simp: hoare_def)

lemma hoare_ret [hoare_rules]: "hoare (Q x) (ret x) Q"
  by (simp add: hoare_def)

lemma hoare_bind:
  assumes "\<And>x. hoare (R x) (f x) Q" and "hoare P m R"
  shows "hoare P (State_Monad.bind m f) Q"
  using assms unfolding hoare_def by (fastforce split: prod.splits)

lemma hoare_inv_bind [hoare_rules]:
  assumes "hoare I m (\<lambda>_. I)" and "\<And>x. hoare I (f x) (\<lambda>_. I)"
  shows "hoare I (State_Monad.bind m f) (\<lambda>_. I)"
  using hoare_bind [where R = "\<lambda>_. I", OF assms(2,1)] .

lemma hoare_if [hoare_rules]:
  "(b \<Longrightarrow> hoare P m Q) \<Longrightarrow> (\<not> b \<Longrightarrow> hoare P n Q) \<Longrightarrow> hoare P (if b then m else n) Q"
  by simp

lemma hoare_obj_get [hoare_rules]: "hoare I (obj_get f) (\<lambda>_. I)"
  by (auto simp: hoare_def prim_defs)

lemma hoare_obj_mod:
  "(\<And>s w. P (s, w) \<Longrightarrow> Q () (f s, w)) \<Longrightarrow> hoare P (obj_mod f) Q"
  by (auto simp: hoare_def prim_defs)

lemma hoare_ext:
  "(\<And>s w. P (s, w) \<Longrightarrow> Q (fst (g w)) (s, snd (g w))) \<Longrightarrow> hoare P (ext g) Q"
  by (auto simp: hoare_def prim_defs case_prod_beta)

lemma hoare_ext0:
  "(\<And>s w. P (s, w) \<Longrightarrow> Q () (s, g w)) \<Longrightarrow> hoare P (ext0 g) Q"
  by (auto simp: hoare_def prim_defs)

lemma hoare_weaken:
  "hoare P' m Q' \<Longrightarrow> (\<And>s. P s \<Longrightarrow> P' s) \<Longrightarrow> (\<And>r s. Q' r s \<Longrightarrow> Q r s) \<Longrightarrow> hoare P m Q"
  unfolding hoare_def by blast

text \<open>Invariants of the object alone: outside calls keep them.\<close>

definition on_obj :: "('s \<Rightarrow> bool) \<Rightarrow> 's \<times> 'w \<Rightarrow> bool" where
  "on_obj P sw \<longleftrightarrow> P (fst sw)"

lemma on_obj_ext [hoare_rules]: "hoare (on_obj P) (ext g) (\<lambda>_. on_obj P)"
  by (rule hoare_ext) (simp add: on_obj_def)

lemma on_obj_ext0 [hoare_rules]: "hoare (on_obj P) (ext0 g) (\<lambda>_. on_obj P)"
  by (rule hoare_ext0) (simp add: on_obj_def)

lemma on_obj_mod: "(\<And>s. P s \<Longrightarrow> P (f s)) \<Longrightarrow> hoare (on_obj P) (obj_mod f) (\<lambda>_. on_obj P)"
  by (rule hoare_obj_mod) (simp add: on_obj_def)

lemma on_obj_run:
  "hoare (on_obj P) m (\<lambda>_. on_obj P) \<Longrightarrow> P (fst sw) \<Longrightarrow> P (fst (snd (run_state m sw)))"
  using hoareD [of "on_obj P" m "\<lambda>_. on_obj P" sw "fst (run_state m sw)" "snd (run_state m sw)"]
  by (simp add: on_obj_def)

lemma on_objI:
  "(\<And>s w. P s \<Longrightarrow> P (fst (snd (run_state m (s, w))))) \<Longrightarrow> hoare (on_obj P) m (\<lambda>_. on_obj P)"
  unfolding hoare_def on_obj_def by (metis fst_conv prod.collapse snd_conv)

lemma on_obj_get_bind:
  "(\<And>s. P s \<Longrightarrow> hoare (on_obj P) (g (f s)) Q) \<Longrightarrow> hoare (on_obj P) (State_Monad.bind (obj_get f) g) Q"
  unfolding hoare_def on_obj_def by fastforce

end
