(* ===== verification/Pd_Msg.thy ===== *)
theory Pd_Msg
  imports Sat1_Prelude
begin

text \<open>
  USB Power Delivery data of \<open>components/fusb302b/pd.h\<close> and \<open>pd.cpp\<close>: the message types, the
  16-bit message header (\<open>PDMsg::set_header\<close>, \<open>PDMsg::get_coded_header\<close>), the power data objects of
  a source (\<open>pd_parse_power_info\<close>) and the contract a sink asks for, with its text form.

  The theorems are the two header round trips, what a parsed power data object can contain, and
  how the request data object encodes position and current.
\<close>

section \<open>Message types and header\<close>

datatype PdSpecRevision = PD_SPEC_REV_1 | PD_SPEC_REV_2 | PD_SPEC_REV_3 | PD_SPEC_REV_RESERVED

text \<open>The enumerators' values; the two-bit field can also hold the reserved value 3.\<close>

fun spec_rev_code :: "PdSpecRevision \<Rightarrow> u16" where
  "spec_rev_code PD_SPEC_REV_1 = 0"
| "spec_rev_code PD_SPEC_REV_2 = 1"
| "spec_rev_code PD_SPEC_REV_3 = 2"
| "spec_rev_code PD_SPEC_REV_RESERVED = 3"

definition spec_rev_of :: "u16 \<Rightarrow> PdSpecRevision" where
  "spec_rev_of x =
     (if x = 0 then PD_SPEC_REV_1 else if x = 1 then PD_SPEC_REV_2
      else if x = 2 then PD_SPEC_REV_3 else PD_SPEC_REV_RESERVED)"

datatype PdDataMsgType =
    PD_DATA_SOURCE_CAP | PD_DATA_REQUEST | PD_DATA_BIST | PD_DATA_SINK_CAP
  | PD_DATA_BATTERY_STATUS | PD_DATA_ALERT | PD_DATA_GET_COUNTRY_INFO | PD_DATA_ENTER_USB
  | PD_DATA_EPR_REQUEST | PD_DATA_EPR_MODE | PD_DATA_SOURCE_INFO | PD_DATA_REVISION
  | PD_DATA_VENDOR_DEF

fun data_code :: "PdDataMsgType \<Rightarrow> u8" where
  "data_code PD_DATA_SOURCE_CAP = 0x01"
| "data_code PD_DATA_REQUEST = 0x02"
| "data_code PD_DATA_BIST = 0x03"
| "data_code PD_DATA_SINK_CAP = 0x04"
| "data_code PD_DATA_BATTERY_STATUS = 0x05"
| "data_code PD_DATA_ALERT = 0x06"
| "data_code PD_DATA_GET_COUNTRY_INFO = 0x07"
| "data_code PD_DATA_ENTER_USB = 0x08"
| "data_code PD_DATA_EPR_REQUEST = 0x09"
| "data_code PD_DATA_EPR_MODE = 0x0A"
| "data_code PD_DATA_SOURCE_INFO = 0x0B"
| "data_code PD_DATA_REVISION = 0x0C"
| "data_code PD_DATA_VENDOR_DEF = 0x0F"

datatype PdControlMsgType =
    PD_CNTRL_GOODCRC | PD_CNTRL_GOTOMIN | PD_CNTRL_ACCEPT | PD_CNTRL_REJECT | PD_CNTRL_PING
  | PD_CNTRL_PS_RDY | PD_CNTRL_GET_SOURCE_CAP | PD_CNTRL_GET_SINK_CAP | PD_CNTRL_DR_SWAP
  | PD_CNTRL_PR_SWAP | PD_CNTRL_VCONN_SWAP | PD_CNTRL_WAIT | PD_CNTRL_SOFT_RESET
  | PD_CNTRL_NOT_SUPPORTED | PD_CNTRL_GET_SOURCE_CAP_EXTENDED | PD_CNTRL_GET_STATUS
  | PD_CNTRL_FR_SWAP | PD_CNTRL_GET_PPS_STATUS | PD_CNTRL_GET_COUNTRY_CODES
  | PD_CNTRL_GET_SINK_CAP_EXTENDED | PD_CNTRL_GET_SOURCE_INFO | PD_CNTRL_GET_REVISION

fun cntrl_code :: "PdControlMsgType \<Rightarrow> u8" where
  "cntrl_code PD_CNTRL_GOODCRC = 0x01"
| "cntrl_code PD_CNTRL_GOTOMIN = 0x02"
| "cntrl_code PD_CNTRL_ACCEPT = 0x03"
| "cntrl_code PD_CNTRL_REJECT = 0x04"
| "cntrl_code PD_CNTRL_PING = 0x05"
| "cntrl_code PD_CNTRL_PS_RDY = 0x06"
| "cntrl_code PD_CNTRL_GET_SOURCE_CAP = 0x07"
| "cntrl_code PD_CNTRL_GET_SINK_CAP = 0x08"
| "cntrl_code PD_CNTRL_DR_SWAP = 0x09"
| "cntrl_code PD_CNTRL_PR_SWAP = 0x0A"
| "cntrl_code PD_CNTRL_VCONN_SWAP = 0x0B"
| "cntrl_code PD_CNTRL_WAIT = 0x0C"
| "cntrl_code PD_CNTRL_SOFT_RESET = 0x0D"
| "cntrl_code PD_CNTRL_NOT_SUPPORTED = 0x10"
| "cntrl_code PD_CNTRL_GET_SOURCE_CAP_EXTENDED = 0x11"
| "cntrl_code PD_CNTRL_GET_STATUS = 0x12"
| "cntrl_code PD_CNTRL_FR_SWAP = 0x13"
| "cntrl_code PD_CNTRL_GET_PPS_STATUS = 0x14"
| "cntrl_code PD_CNTRL_GET_COUNTRY_CODES = 0x15"
| "cntrl_code PD_CNTRL_GET_SINK_CAP_EXTENDED = 0x16"
| "cntrl_code PD_CNTRL_GET_SOURCE_INFO = 0x17"
| "cntrl_code PD_CNTRL_GET_REVISION = 0x18"

definition PD_MAX_NUM_DATA_OBJECTS :: nat where
  "PD_MAX_NUM_DATA_OBJECTS = 7"

text \<open>\<open>class PDMsg\<close>; \<open>pm_data_objects\<close> is the array of \<open>PD_MAX_NUM_DATA_OBJECTS\<close> words, of which
  the first \<open>pm_num_of_obj\<close> belong to the message.\<close>

record pd_msg =
  pm_type :: u8
  pm_spec_rev :: PdSpecRevision
  pm_id :: u8
  pm_num_of_obj :: u8
  pm_extended :: bool
  pm_data_objects :: "u32 list"

definition set_header :: "u16 \<Rightarrow> pd_msg \<Rightarrow> pd_msg" where
  "set_header header m =
     m\<lparr>pm_type := ucast (header AND 0x1F),
       pm_spec_rev := spec_rev_of (drop_bit 6 header AND 0x3),
       pm_id := ucast (drop_bit 9 header AND 0x7),
       pm_num_of_obj := ucast (drop_bit 12 header AND 0x7),
       pm_extended := (drop_bit 15 header AND 1 \<noteq> 0)\<rparr>"

text \<open>Data role (bit 5) and power role (bit 8) are always sent as 0: UFP and sink.\<close>

definition get_coded_header :: "pd_msg \<Rightarrow> u16" where
  "get_coded_header m =
     ucast (pm_type m) OR push_bit 5 0 OR push_bit 6 (spec_rev_code (pm_spec_rev m)) OR push_bit 8 0
     OR push_bit 9 (ucast (pm_id m)) OR push_bit 12 (ucast (pm_num_of_obj m))
     OR push_bit 15 (of_bool (pm_extended m))"

section \<open>Power data objects and contracts\<close>

datatype PdPowerDataObjType =
    PD_PDO_TYPE_FIXED_SUPPLY | PD_PDO_TYPE_BATTERY | PD_PDO_TYPE_VARIABLE_SUPPLY
  | PD_PDO_TYPE_AUGMENTED_PDO

text \<open>\<open>static_cast<PdPowerDataObjType>(pdo >> 30)\<close>: the top two bits.\<close>

definition pdo_type_of :: "u32 \<Rightarrow> PdPowerDataObjType" where
  "pdo_type_of pdo =
     (let t = drop_bit 30 pdo
      in if t = 0 then PD_PDO_TYPE_FIXED_SUPPLY else if t = 1 then PD_PDO_TYPE_BATTERY
         else if t = 2 then PD_PDO_TYPE_VARIABLE_SUPPLY else PD_PDO_TYPE_AUGMENTED_PDO)"

text \<open>\<open>struct PdContract\<close>: voltages in 50 mV, current in 10 mA, power in 250 mW units.\<close>

record pd_contract =
  pc_type :: PdPowerDataObjType
  min_v :: u16
  max_v :: u16
  max_i :: u16
  max_p :: u16

text \<open>\<open>operator==\<close> does not look at \<open>min_v\<close> and \<open>max_p\<close>.\<close>

definition contract_eq :: "pd_contract \<Rightarrow> pd_contract \<Rightarrow> bool" where
  "contract_eq a b \<longleftrightarrow> max_v a = max_v b \<and> max_i a = max_i b \<and> pc_type a = pc_type b"

definition pd_parse_power_info :: "u32 \<Rightarrow> pd_contract" where
  "pd_parse_power_info pdo =
     (case pdo_type_of pdo of
        PD_PDO_TYPE_FIXED_SUPPLY \<Rightarrow>
          \<lparr>pc_type = PD_PDO_TYPE_FIXED_SUPPLY, min_v = 0,
           max_v = ucast (drop_bit 10 pdo AND 0x3FF), max_i = ucast (pdo AND 0x3FF), max_p = 0\<rparr>
      | PD_PDO_TYPE_BATTERY \<Rightarrow>
          \<lparr>pc_type = PD_PDO_TYPE_BATTERY, min_v = ucast (drop_bit 10 pdo AND 0x3FF),
           max_v = ucast (drop_bit 20 pdo AND 0x3FF), max_i = 0, max_p = ucast (pdo AND 0x3FF)\<rparr>
      | PD_PDO_TYPE_VARIABLE_SUPPLY \<Rightarrow>
          \<lparr>pc_type = PD_PDO_TYPE_VARIABLE_SUPPLY, min_v = ucast (drop_bit 10 pdo AND 0x3FF),
           max_v = ucast (drop_bit 20 pdo AND 0x3FF), max_i = ucast (pdo AND 0x3FF), max_p = 0\<rparr>
      | PD_PDO_TYPE_AUGMENTED_PDO \<Rightarrow>
          \<lparr>pc_type = PD_PDO_TYPE_AUGMENTED_PDO, min_v = ucast ((drop_bit 8 pdo AND 0xFF) * 2),
           max_v = ucast ((drop_bit 17 pdo AND 0xFF) * 2), max_i = ucast ((pdo AND 0x7F) * 5),
           max_p = 0\<rparr>)"

text \<open>The request data object of \<open>build_source_cap_response\<close> (\<open>pos\<close> is the 1-based object position).\<close>

definition source_cap_rdo :: "pd_contract \<Rightarrow> u8 \<Rightarrow> u32" where
  "source_cap_rdo pwr_info pos =
     (let templ = push_bit 24 1 OR push_bit 25 1
      in if pc_type pwr_info \<noteq> PD_PDO_TYPE_AUGMENTED_PDO then
           (let req = (if max_i pwr_info \<noteq> 0 then ucast (max_i pwr_info) else ucast (max_p pwr_info))
            in templ OR (req OR push_bit 10 req OR push_bit 28 (ucast pos)))
         else templ)"

text \<open>The constant words of \<open>build_get_sink_cap_response\<close> and \<open>create_fallback_request_message\<close>.\<close>

definition sink_cap_pdo :: u32 where
  "sink_cap_pdo = 500 OR push_bit 10 100 OR push_bit 26 1 OR push_bit 30 0"

definition fallback_rdo :: u32 where
  "fallback_rdo = 30 OR push_bit 10 10 OR push_bit 24 1 OR push_bit 25 1 OR push_bit 28 1"

text \<open>
  The text of a contract, \<open>snprintf("%.1fA @ %.0fV", max_i / 100.0f, max_v * 5 / 100.0f)\<close>.
  \<open>f32_div100 n\<close> is the single-precision quotient \<open>n / 100.0f\<close> as a pair \<open>(m, e)\<close> standing for
  \<open>m / 2 ^ e\<close>: the exponent that puts the quotient into \<open>[2 ^ 23, 2 ^ 24)\<close>, and the mantissa
  rounded to nearest even. Forty halvings are enough for every \<open>n > 0\<close>.
\<close>

fun f32_exp :: "nat \<Rightarrow> int \<Rightarrow> nat \<Rightarrow> nat" where
  "f32_exp 0 n e = e"
| "f32_exp (Suc k) n e = (if 100 * 2 ^ 23 \<le> n * 2 ^ e then e else f32_exp k n (e + 1))"

definition f32_div100 :: "int \<Rightarrow> int \<times> nat" where
  "f32_div100 n = (let e = f32_exp 40 n 0 in (round_half_even (n * 2 ^ e) 100, e))"

definition get_contract_string :: "pd_contract \<Rightarrow> string" where
  "get_contract_string c =
     (let (mi, ei) = f32_div100 (uint (max_i c));
          (mv, ev) = f32_div100 (uint (max_v c) * 5);
          tenths = round_half_even (10 * mi) (2 ^ ei);
          volts = round_half_even mv (2 ^ ev)
      in take 31 (dec_str (nat (tenths div 10)) @ ''.'' @ dec_str (nat (tenths mod 10)) @ ''A @ ''
                  @ dec_str (nat volts) @ ''V''))"

section \<open>The header round trips\<close>

lemma spec_rev_code_of [simp]: "spec_rev_code (spec_rev_of (take_bit 2 x)) = take_bit 2 x"
  using take_bit_2_cases [of x] by (auto simp: spec_rev_of_def)

lemma spec_rev_of_code [simp]: "spec_rev_of (spec_rev_code r) = r"
  by (cases r) (simp_all add: spec_rev_of_def)

lemma spec_rev_code_take: "take_bit 2 (spec_rev_code r) = spec_rev_code r"
  by (cases r) simp_all

text \<open>A message whose fields fit the header's fields (as every message built by the firmware does).\<close>

definition header_fields_ok :: "pd_msg \<Rightarrow> bool" where
  "header_fields_ok m \<longleftrightarrow> pm_type m < 32 \<and> pm_id m < 8 \<and> pm_num_of_obj m < 8"

lemma header_fields_take:
  assumes "header_fields_ok m"
  shows "take_bit 5 (pm_type m) = pm_type m" and "take_bit 3 (pm_id m) = pm_id m"
    and "take_bit 3 (pm_num_of_obj m) = pm_num_of_obj m"
  using assms less_mask_eq [of "pm_type m" 5] less_mask_eq [of "pm_id m" 3]
    less_mask_eq [of "pm_num_of_obj m" 3]
  by (simp_all add: header_fields_ok_def take_bit_eq_mask)

text \<open>The fields of a header word read back, for any values cut to the width of their field.\<close>

lemma header_field_bits:
  fixes t i k :: u8 and r :: u16 and e :: bool
  defines "h \<equiv> ucast (take_bit 5 t) OR push_bit 6 (take_bit 2 r) OR push_bit 9 (ucast (take_bit 3 i))
     OR push_bit 12 (ucast (take_bit 3 k)) OR push_bit 15 (of_bool e)"
  shows "take_bit 5 h = ucast (take_bit 5 t)" and "take_bit 2 (drop_bit 6 h) = take_bit 2 r"
    and "take_bit 3 (drop_bit 9 h) = ucast (take_bit 3 i)"
    and "take_bit 3 (drop_bit 12 h) = ucast (take_bit 3 k)" and "bit h 15 = e"
  unfolding h_def
  by (rule u16_eqI; simp add: bit_simps)+ (simp add: bit_simps)

lemma set_header_fields_ok: "header_fields_ok (set_header h m)"
proof -
  have "(ucast (take_bit k x) :: u8) < 2 ^ k" if "k \<le> 5" for k and x :: u16
  proof -
    have "(ucast (take_bit k x) :: u8) = ucast (take_bit k x) AND mask k"
      by (rule bit_word_eqI) (auto simp: bit_simps)
    also have "\<dots> < 2 ^ k" using that by (intro and_mask_less') simp
    finally show ?thesis .
  qed
  from this [of 5] this [of 3] show ?thesis
    by (simp add: header_fields_ok_def set_header_def mask_simps)
qed

lemma header_round_trip:
  assumes "header_fields_ok m"
  shows "set_header (get_coded_header m) m' = m\<lparr>pm_data_objects := pm_data_objects m'\<rparr>"
proof -
  note cut = header_fields_take [OF assms] spec_rev_code_take
  have eq: "ucast (take_bit 5 (pm_type m))
      OR push_bit 6 (take_bit 2 (spec_rev_code (pm_spec_rev m)))
      OR push_bit 9 (ucast (take_bit 3 (pm_id m))) OR push_bit 12 (ucast (take_bit 3 (pm_num_of_obj m)))
      OR push_bit 15 (of_bool (pm_extended m)) = get_coded_header m"
    by (simp add: get_coded_header_def cut)
  note fields = header_field_bits [of "pm_type m" "spec_rev_code (pm_spec_rev m)" "pm_id m"
      "pm_num_of_obj m" "pm_extended m", unfolded eq]
  show ?thesis
    by (cases m; cases m') (use fields cut in \<open>simp add: set_header_def mask_simps ucast_ucast_small\<close>)
qed

text \<open>C28: encoding a header and decoding it again gives back every field of the message; the data
  objects are the receiver's, as the header does not carry them.\<close>

theorem set_header_get_coded_header:
  assumes "header_fields_ok m"
  shows "set_header (get_coded_header m) m' = m\<lparr>pm_data_objects := pm_data_objects m'\<rparr>"
  using assms by (rule header_round_trip)

theorem set_header_get_coded_header_witness:
  "set_header (get_coded_header
      \<lparr>pm_type = 2, pm_spec_rev = PD_SPEC_REV_2, pm_id = 5, pm_num_of_obj = 1, pm_extended = False,
       pm_data_objects = [7]\<rparr>)
     \<lparr>pm_type = 0, pm_spec_rev = PD_SPEC_REV_1, pm_id = 0, pm_num_of_obj = 0, pm_extended = True,
       pm_data_objects = []\<rparr>
   = \<lparr>pm_type = 2, pm_spec_rev = PD_SPEC_REV_2, pm_id = 5, pm_num_of_obj = 1, pm_extended = False,
       pm_data_objects = []\<rparr>"
  by (subst set_header_get_coded_header) (simp_all add: header_fields_ok_def)

text \<open>Decoding a received header and encoding it again keeps every bit but the two role bits
  (5 and 8), which the sink always sends as 0.\<close>

theorem get_coded_header_set_header: "get_coded_header (set_header h m) = h AND NOT 0x120"
  by (rule u16_eqI) (simp_all add: get_coded_header_def set_header_def mask_simps bit_simps)

section \<open>Power data objects and requests\<close>

lemma ucast_take_bit_less:
  fixes x :: u32
  assumes "k \<le> 10"
  shows "(ucast (take_bit k x) :: u16) < 2 ^ k"
proof -
  have "(ucast (take_bit k x) :: u16) = ucast (take_bit k x) AND mask k"
    by (rule bit_word_eqI) (auto simp: bit_simps)
  also have "\<dots> < 2 ^ k" using assms by (intro and_mask_less') simp
  finally show ?thesis .
qed

lemma parse_power_info_bounds:
  assumes "pc_type (pd_parse_power_info pdo) \<noteq> PD_PDO_TYPE_AUGMENTED_PDO"
  shows "max_v (pd_parse_power_info pdo) < 1024" and "max_i (pd_parse_power_info pdo) < 1024"
    and "max_p (pd_parse_power_info pdo) < 1024"
  using assms ucast_take_bit_less [of 10]
  by (auto simp: pd_parse_power_info_def mask_simps split: PdPowerDataObjType.splits)

text \<open>What a request asks for: the current (10 mA) or, where there is none, the power (250 mW).\<close>

definition req_amount :: "pd_contract \<Rightarrow> u16" where
  "req_amount c = (if max_i c \<noteq> 0 then max_i c else max_p c)"

lemma rdo_word_fields:
  fixes r :: u16 and p :: u8
  defines "d \<equiv> (push_bit 24 1 OR push_bit 25 1) OR
     (ucast (take_bit 10 r) OR push_bit 10 (ucast (take_bit 10 r)) OR push_bit 28 (ucast (take_bit 3 p))) :: u32"
  shows "take_bit 10 d = ucast (take_bit 10 r)" and "take_bit 10 (drop_bit 10 d) = ucast (take_bit 10 r)"
    and "take_bit 3 (drop_bit 28 d) = ucast (take_bit 3 p)"
  unfolding d_def by (rule bit_word_eqI; auto simp: bit_simps)+

lemma source_cap_rdo_word:
  assumes "pc_type c \<noteq> PD_PDO_TYPE_AUGMENTED_PDO" and "req_amount c < 1024" and "pos < 8"
  shows "source_cap_rdo c pos AND 0x3FF = ucast (req_amount c) \<and>
         drop_bit 10 (source_cap_rdo c pos) AND 0x3FF = ucast (req_amount c) \<and>
         drop_bit 28 (source_cap_rdo c pos) AND 0x7 = ucast pos"
proof -
  have cut: "take_bit 10 (req_amount c) = req_amount c" "take_bit 3 pos = pos"
    using assms less_mask_eq [of "req_amount c" 10] less_mask_eq [of pos 3]
    by (simp_all add: take_bit_eq_mask)
  have eq: "(push_bit 24 1 OR push_bit 25 1) OR (ucast (take_bit 10 (req_amount c))
      OR push_bit 10 (ucast (take_bit 10 (req_amount c))) OR push_bit 28 (ucast (take_bit 3 pos)))
    = source_cap_rdo c pos"
    using assms(1) unfolding cut by (simp add: source_cap_rdo_def req_amount_def Let_def)
  show ?thesis
    using rdo_word_fields [of "req_amount c" pos, unfolded eq] by (simp add: mask_simps cut)
qed

text \<open>The request data object built for an object of a source carries the object's position in
  bits 30..28, and the object's own maximum as both the maximum and the operating amount: the three
  bit fields of the word do not run into each other.\<close>

theorem source_cap_rdo_fields:
  assumes "pc_type c \<noteq> PD_PDO_TYPE_AUGMENTED_PDO" and "req_amount c < 1024" and "pos < 8"
  shows "source_cap_rdo c pos AND 0x3FF = ucast (req_amount c) \<and>
         drop_bit 10 (source_cap_rdo c pos) AND 0x3FF = ucast (req_amount c) \<and>
         drop_bit 28 (source_cap_rdo c pos) AND 0x7 = ucast pos"
  using assms by (rule source_cap_rdo_word)

theorem source_cap_rdo_fields_witness:
  "drop_bit 28 (source_cap_rdo (pd_parse_power_info 0x0002D12C) 2) AND 0x7 = 2 \<and>
   source_cap_rdo (pd_parse_power_info 0x0002D12C) 2 AND 0x3FF = 300"
  using source_cap_rdo_fields [of "pd_parse_power_info 0x0002D12C" 2]
  by (simp add: pd_parse_power_info_def pdo_type_of_def req_amount_def)

end
