(* ===== verification/Power_Delivery.thy ===== *)
theory Power_Delivery
  imports Pd_Msg
begin

text \<open>
  \<open>class PowerDelivery\<close> of \<open>components/fusb302b/pd.h\<close> and \<open>pd.cpp\<close>: the sink side of a USB-PD
  negotiation. The record \<open>pd\<close> holds the members; \<open>FUSB302B\<close> derives from the class, so every
  operation works on any extension \<open>'s pd_scheme\<close> of the record. The virtual method \<open>send_message\<close>
  is the parameter \<open>send\<close>; \<open>millis()\<close> and the uninitialised storage a new \<open>PDMsg\<close> is
  constructed in are fields of the environment \<open>'w pd_env\<close>.

  The locale \<open>pd_transport\<close> is the contract of \<open>send_message\<close> the negotiation relies on: sending leaves
  the object alone. Inside it every handler is shown to act on the object as the functions of the section
  \<open>What the handlers do to the object\<close> say, whatever the transport answers.
\<close>

section \<open>State\<close>

datatype PowerDeliveryState =
    PD_STATE_DISCONNECTED | PD_STATE_PD_TIMEOUT | PD_STATE_DEFAULT_CONTRACT | PD_STATE_TRANSITION
  | PD_STATE_EXPLICIT_SPR_CONTRACT | PD_STATE_EXPLICIT_EPR_CONTRACT | PD_STATE_ERROR

datatype PowerDeliveryEvent =
    PD_EVENT_ATTACHED | PD_EVENT_DETACHED | PD_EVENT_RECEIVED_MSG | PD_EVENT_SENDING_MSG_FAILED
  | PD_EVENT_SOFT_RESET | PD_EVENT_HARD_RESET

record pd_event_info =
  pe_event :: PowerDeliveryEvent
  pe_msg :: pd_msg

record pd =
  active_ams_timer :: u32
  active_ams :: bool
  last_received_msg_id :: u8
  msg_spec_rev :: PdSpecRevision
  msg_counter :: u8
  requested_contract :: pd_contract
  accepted_contract :: pd_contract
  previous_contract :: pd_contract
  contract_timer :: u32
  spec_revision :: PdSpecRevision
  wait_src_cap :: bool
  tried_soft_reset :: bool
  get_src_cap_retry_count :: int
  get_src_cap_time_stamp :: u32
  request_voltage_val :: int
  pd_state :: PowerDeliveryState
  contract_voltage :: int
  contract_str :: string
  prev_state :: PowerDeliveryState

definition zero_contract :: pd_contract where
  "zero_contract = \<lparr>pc_type = PD_PDO_TYPE_FIXED_SUPPLY, min_v = 0, max_v = 0, max_i = 0, max_p = 0\<rparr>"

definition pd_init :: pd where
  "pd_init =
     \<lparr>active_ams_timer = 0, active_ams = False, last_received_msg_id = 255, msg_spec_rev = PD_SPEC_REV_2,
      msg_counter = 0, requested_contract = zero_contract, accepted_contract = zero_contract,
      previous_contract = zero_contract, contract_timer = 0, spec_revision = PD_SPEC_REV_2,
      wait_src_cap = True, tried_soft_reset = False, get_src_cap_retry_count = 0,
      get_src_cap_time_stamp = 0, request_voltage_val = 5, pd_state = PD_STATE_DISCONNECTED,
      contract_voltage = 5, contract_str = ''0.5A @ 5V'', prev_state = PD_STATE_DISCONNECTED\<rparr>"

record 'w pd_env =
  env_millis :: "'w \<Rightarrow> u32 \<times> 'w"
  env_raw_msg :: pd_msg

section \<open>Building messages\<close>

text \<open>The constructors of \<open>PDMsg\<close>; \<open>raw\<close> is the storage the object is constructed in, of which the
  constructors assign only part.\<close>

definition PDMsg_cntrl_id :: "pd_msg \<Rightarrow> 's pd_scheme \<Rightarrow> PdControlMsgType \<Rightarrow> u8 \<Rightarrow> pd_msg" where
  "PDMsg_cntrl_id raw pd cntrl_msg_type msg_id =
     raw\<lparr>pm_type := cntrl_code cntrl_msg_type, pm_spec_rev := msg_spec_rev pd, pm_id := msg_id,
         pm_num_of_obj := 0, pm_extended := False\<rparr>"

definition PDMsg_cntrl :: "pd_msg \<Rightarrow> 's pd_scheme \<Rightarrow> PdControlMsgType \<Rightarrow> pd_msg" where
  "PDMsg_cntrl raw pd cntrl_msg_type =
     raw\<lparr>pm_type := cntrl_code cntrl_msg_type, pm_spec_rev := msg_spec_rev pd,
         pm_id := msg_counter pd mod 8, pm_num_of_obj := 0, pm_extended := False\<rparr>"

definition PDMsg_data ::
    "pd_msg \<Rightarrow> 's pd_scheme \<Rightarrow> PdDataMsgType \<Rightarrow> u32 list \<Rightarrow> u8 \<Rightarrow> pd_msg" where
  "PDMsg_data raw pd msg_type objects len =
     (if len = 0 \<or> unat len > PD_MAX_NUM_DATA_OBJECTS then raw\<lparr>pm_num_of_obj := 0\<rparr>
      else raw\<lparr>pm_type := data_code msg_type, pm_spec_rev := msg_spec_rev pd,
               pm_id := msg_counter pd mod 8, pm_num_of_obj := len, pm_extended := False,
               pm_data_objects := take (unat len) objects @ drop (unat len) (pm_data_objects raw)\<rparr>)"

definition build_source_cap_response ::
    "pd_msg \<Rightarrow> 's pd_scheme \<Rightarrow> pd_contract \<Rightarrow> u8 \<Rightarrow> pd_msg" where
  "build_source_cap_response raw pd pwr_info pos =
     PDMsg_data raw pd PD_DATA_REQUEST [source_cap_rdo pwr_info pos] 1"

definition build_get_sink_cap_response :: "pd_msg \<Rightarrow> 's pd_scheme \<Rightarrow> pd_msg" where
  "build_get_sink_cap_response raw pd = PDMsg_data raw pd PD_DATA_SINK_CAP [sink_cap_pdo] 1"

definition create_fallback_request_message :: "pd_msg \<Rightarrow> 's pd_scheme \<Rightarrow> pd_msg" where
  "create_fallback_request_message raw pd = PDMsg_data raw pd PD_DATA_REQUEST [fallback_rdo] 1"

section \<open>Operations\<close>

definition set_state :: "PowerDeliveryState \<Rightarrow> ('s pd_scheme \<times> 'w, unit) state" where
  "set_state new_state = obj_mod (\<lambda>s. s\<lparr>prev_state := pd_state s, pd_state := new_state\<rparr>)"

definition set_ams :: "('w, 'e) pd_env_scheme \<Rightarrow> bool \<Rightarrow> ('s pd_scheme \<times> 'w, unit) state" where
  "set_ams E ams = do {
     obj_mod (\<lambda>s. s\<lparr>active_ams := ams\<rparr>);
     if ams then do {
       now \<leftarrow> ext (env_millis E);
       obj_mod (\<lambda>s. s\<lparr>active_ams_timer := now\<rparr>)
     } else ret ()
   }"

definition check_ams :: "('w, 'e) pd_env_scheme \<Rightarrow> ('s pd_scheme \<times> 'w, bool) state" where
  "check_ams E = do {
     ams \<leftarrow> obj_get active_ams;
     (if ams then do {
        now \<leftarrow> ext (env_millis E);
        started \<leftarrow> obj_get active_ams_timer;
        if now - started > 2000 then obj_mod (\<lambda>s. s\<lparr>active_ams := False\<rparr>) else ret ()
      } else ret ());
     obj_get active_ams
   }"

definition set_contract :: "('w, 'e) pd_env_scheme \<Rightarrow> pd_contract \<Rightarrow> ('s pd_scheme \<times> 'w, unit) state" where
  "set_contract E c = do {
     obj_mod (\<lambda>s. s\<lparr>accepted_contract := c, contract_str := get_contract_string c,
                    contract_voltage := uint (max_v c) * 5 div 100\<rparr>);
     now \<leftarrow> ext (env_millis E);
     obj_mod (\<lambda>s. s\<lparr>contract_timer := now\<rparr>)
   }"

definition request_voltage :: "int \<Rightarrow> ('s pd_scheme \<times> 'w, bool) state" where
  "request_voltage voltage = do {
     ams \<leftarrow> obj_get active_ams;
     if \<not> ams then do {
       obj_mod (\<lambda>s. s\<lparr>request_voltage_val := voltage, wait_src_cap := True,
                      get_src_cap_retry_count := 0\<rparr>);
       ret True
     } else ret False
   }"

definition set_request_voltage :: "int \<Rightarrow> 's pd_scheme \<Rightarrow> 's pd_scheme" where
  "set_request_voltage voltage s = s\<lparr>request_voltage_val := voltage\<rparr>"

text \<open>The loop of \<open>respond_to_src_cap_msg_\<close> over the data objects; \<open>selected\<close> is 255 as long as
  no object has been chosen.\<close>

fun src_cap_loop :: "int \<Rightarrow> nat \<Rightarrow> u32 list \<Rightarrow> pd_contract \<Rightarrow> u8 \<Rightarrow> pd_contract \<times> u8" where
  "src_cap_loop rv idx [] info selected = (info, selected)"
| "src_cap_loop rv idx (pdo # pdos) info selected =
     (let pwr_info = pd_parse_power_info pdo
      in if pc_type pwr_info = PD_PDO_TYPE_AUGMENTED_PDO then src_cap_loop rv (Suc idx) pdos info selected
         else if uint (max_v pwr_info) * 50 div 1000 \<le> rv \<or> selected = 255
         then src_cap_loop rv (Suc idx) pdos pwr_info (of_nat idx)
         else src_cap_loop rv (Suc idx) pdos info selected)"

definition respond_to_src_cap_msg ::
    "('w, 'e) pd_env_scheme \<Rightarrow> (pd_msg \<Rightarrow> ('s pd_scheme \<times> 'w, bool) state) \<Rightarrow> pd_msg \<Rightarrow>
     ('s pd_scheme \<times> 'w, bool) state" where
  "respond_to_src_cap_msg E send msg = do {
     rv \<leftarrow> obj_get request_voltage_val;
     (let (selected_info, selected) =
            src_cap_loop rv 0 (take (unat (pm_num_of_obj msg)) (pm_data_objects msg)) zero_contract 255
      in if selected = 255 then do {
           obj_mod (\<lambda>s. s\<lparr>requested_contract :=
             \<lparr>pc_type = PD_PDO_TYPE_FIXED_SUPPLY, min_v = 0, max_v = 100, max_i = 30, max_p = 0\<rparr>\<rparr>);
           req \<leftarrow> obj_get (create_fallback_request_message (env_raw_msg E));
           _ \<leftarrow> send req;
           ret True
         } else do {
           obj_mod (\<lambda>s. s\<lparr>requested_contract := selected_info\<rparr>);
           req \<leftarrow> obj_get (\<lambda>s. build_source_cap_response (env_raw_msg E) s selected_info (selected + 1));
           _ \<leftarrow> send req;
           ret True
         })
   }"

definition handle_data_message ::
    "('w, 'e) pd_env_scheme \<Rightarrow> (pd_msg \<Rightarrow> ('s pd_scheme \<times> 'w, bool) state) \<Rightarrow> pd_msg \<Rightarrow>
     ('s pd_scheme \<times> 'w, bool) state" where
  "handle_data_message E send msg = do {
     last_id \<leftarrow> obj_get last_received_msg_id;
     if pm_id msg = last_id then ret False
     else do {
       obj_mod (\<lambda>s. s\<lparr>last_received_msg_id := pm_id msg\<rparr>);
       (if pm_type msg = data_code PD_DATA_SOURCE_CAP then do {
          set_ams E True;
          obj_mod (\<lambda>s. s\<lparr>wait_src_cap := False\<rparr>);
          _ \<leftarrow> respond_to_src_cap_msg E send msg;
          ret ()
        } else ret ());
       ret True
     }
   }"

definition handle_cntrl_message ::
    "('w, 'e) pd_env_scheme \<Rightarrow> (pd_msg \<Rightarrow> ('s pd_scheme \<times> 'w, bool) state) \<Rightarrow> pd_msg \<Rightarrow>
     ('s pd_scheme \<times> 'w, bool) state" where
  "handle_cntrl_message E send msg = do {
     last_id \<leftarrow> obj_get last_received_msg_id;
     if pm_id msg = last_id then ret False
     else do {
       obj_mod (\<lambda>s. s\<lparr>last_received_msg_id := pm_id msg\<rparr>);
       (if pm_type msg = cntrl_code PD_CNTRL_GOODCRC then ret ()
        else if pm_type msg = cntrl_code PD_CNTRL_ACCEPT then do {
          ams \<leftarrow> obj_get active_ams;
          if ams then do {
            requested \<leftarrow> obj_get requested_contract;
            accepted \<leftarrow> obj_get accepted_contract;
            (if \<not> contract_eq requested accepted then set_state PD_STATE_TRANSITION else ret ());
            set_contract E requested
          } else ret ()
        }
        else if pm_type msg = cntrl_code PD_CNTRL_PS_RDY then do {
          set_ams E False;
          set_state PD_STATE_EXPLICIT_SPR_CONTRACT
        }
        else if pm_type msg = cntrl_code PD_CNTRL_SOFT_RESET then do {
          reply \<leftarrow> obj_get (\<lambda>s. PDMsg_cntrl_id (env_raw_msg E) s PD_CNTRL_ACCEPT 0);
          _ \<leftarrow> send reply;
          set_state PD_STATE_DEFAULT_CONTRACT;
          obj_mod (\<lambda>s. s\<lparr>msg_counter := 0\<rparr>)
        }
        else if pm_type msg = cntrl_code PD_CNTRL_GET_SINK_CAP then do {
          reply \<leftarrow> obj_get (build_get_sink_cap_response (env_raw_msg E));
          _ \<leftarrow> send reply;
          ret ()
        }
        else do {
          reply \<leftarrow> obj_get (\<lambda>s. PDMsg_cntrl (env_raw_msg E) s PD_CNTRL_NOT_SUPPORTED);
          _ \<leftarrow> send reply;
          ret ()
        });
       ret True
     }
   }"

definition handle_message ::
    "('w, 'e) pd_env_scheme \<Rightarrow> (pd_msg \<Rightarrow> ('s pd_scheme \<times> 'w, bool) state) \<Rightarrow> pd_msg \<Rightarrow>
     ('s pd_scheme \<times> 'w, bool) state" where
  "handle_message E send msg =
     (if pm_num_of_obj msg = 0 then
        (if pm_type msg = cntrl_code PD_CNTRL_GOODCRC then do {
           obj_mod (\<lambda>s. s\<lparr>msg_counter := msg_counter s + 1\<rparr>);
           ret True
         } else handle_cntrl_message E send msg)
      else handle_data_message E send msg)"

section \<open>Choosing an object of the source\<close>

text \<open>Reference definitions: an object is usable when it is not augmented, it fits when in addition its
  voltage, rounded down to whole volts, is at most the requested one. The choice is the last object that
  fits; if none does, the first usable one.\<close>

definition pdo_usable :: "u32 \<Rightarrow> bool" where
  "pdo_usable pdo \<longleftrightarrow> pc_type (pd_parse_power_info pdo) \<noteq> PD_PDO_TYPE_AUGMENTED_PDO"

definition pdo_fits :: "int \<Rightarrow> u32 \<Rightarrow> bool" where
  "pdo_fits rv pdo \<longleftrightarrow> pdo_usable pdo \<and> uint (max_v (pd_parse_power_info pdo)) * 50 div 1000 \<le> rv"

definition src_cap_choice :: "int \<Rightarrow> u32 list \<Rightarrow> nat option" where
  "src_cap_choice rv pdos =
     (let fit = filter (\<lambda>i. pdo_fits rv (pdos ! i)) [0..<length pdos];
          usable = filter (\<lambda>i. pdo_usable (pdos ! i)) [0..<length pdos]
      in if fit \<noteq> [] then Some (last fit) else if usable \<noteq> [] then Some (hd usable) else None)"

lemma src_cap_loop_snoc:
  "src_cap_loop rv idx (pdos @ [pdo]) info selected =
     (case src_cap_loop rv idx pdos info selected of (i, sel) \<Rightarrow>
        if \<not> pdo_usable pdo then (i, sel)
        else if pdo_fits rv pdo \<or> sel = 255 then (pd_parse_power_info pdo, of_nat (idx + length pdos))
        else (i, sel))"
  by (induction pdos arbitrary: idx info selected) (auto simp: Let_def pdo_usable_def pdo_fits_def split: prod.splits)

lemma filter_upt_snoc:
  "filter (\<lambda>i. P ((xs @ [x]) ! i)) [0..<length (xs @ [x])] =
   filter (\<lambda>i. P (xs ! i)) [0..<length xs] @ (if P x then [length xs] else [])"
proof -
  have "filter (\<lambda>i. P ((xs @ [x]) ! i)) [0..<length xs] = filter (\<lambda>i. P (xs ! i)) [0..<length xs]"
    by (rule filter_cong) (auto simp: nth_append)
  then show ?thesis by simp
qed

lemma src_cap_choice_snoc:
  "src_cap_choice rv (pdos @ [pdo]) =
     (if pdo_fits rv pdo then Some (length pdos)
      else case src_cap_choice rv pdos of Some i \<Rightarrow> Some i
           | None \<Rightarrow> (if pdo_usable pdo then Some (length pdos) else None))"
  unfolding src_cap_choice_def filter_upt_snoc
  by (auto simp: Let_def pdo_fits_def)

lemma src_cap_choice_Nil [simp]: "src_cap_choice rv [] = None"
  by (simp add: src_cap_choice_def)

lemma src_cap_choice_less: "src_cap_choice rv pdos = Some i \<Longrightarrow> i < length pdos"
  by (induction pdos rule: rev_induct)
    (auto simp: src_cap_choice_snoc split: if_splits option.splits)

lemma src_cap_choice_usable: "src_cap_choice rv pdos = Some i \<Longrightarrow> pdo_usable (pdos ! i)"
  by (induction pdos rule: rev_induct)
    (auto simp: src_cap_choice_snoc nth_append pdo_fits_def dest: src_cap_choice_less split: if_splits option.splits)

lemma src_cap_choice_None: "src_cap_choice rv pdos = None \<longleftrightarrow> (\<forall>pdo \<in> set pdos. \<not> pdo_usable pdo)"
  by (induction pdos rule: rev_induct)
    (auto simp: src_cap_choice_snoc pdo_fits_def split: option.splits)

lemma src_cap_choice_fits:
  "src_cap_choice rv pdos = Some i \<Longrightarrow> \<exists>pdo \<in> set pdos. pdo_fits rv pdo \<Longrightarrow> pdo_fits rv (pdos ! i)"
  by (induction pdos arbitrary: i rule: rev_induct)
    (auto simp: src_cap_choice_snoc nth_append src_cap_choice_None pdo_fits_def dest: src_cap_choice_less split: if_splits option.splits)

lemma of_nat_u8_ne_255: "i < 255 \<Longrightarrow> (of_nat i :: u8) \<noteq> 255"
proof -
  assume "i < 255"
  moreover from this have "unat (of_nat i :: u8) = i" by (simp add: unat_of_nat)
  ultimately show ?thesis by auto
qed

lemma src_cap_loop_choice:
  "length pdos \<le> 255 \<Longrightarrow> src_cap_loop rv 0 pdos zero_contract 255 =
     (case src_cap_choice rv pdos of
        None \<Rightarrow> (zero_contract, 255)
      | Some i \<Rightarrow> (pd_parse_power_info (pdos ! i), of_nat i))"
proof (induction pdos rule: rev_induct)
  case Nil
  show ?case by (simp add: src_cap_choice_def)
next
  case (snoc pdo pdos)
  have ne: "(of_nat i :: u8) \<noteq> 255" if "src_cap_choice rv pdos = Some i" for i
    using src_cap_choice_less [OF that] snoc.prems by (intro of_nat_u8_ne_255) simp
  show ?case
    using snoc ne src_cap_choice_less [of rv pdos]
    by (auto simp: src_cap_loop_snoc src_cap_choice_snoc nth_append pdo_fits_def split: option.splits)
qed

section \<open>What the handlers do to the object\<close>

text \<open>The contract the sink asks for, given the objects of the source.\<close>

definition fallback_contract :: pd_contract where
  "fallback_contract =
     \<lparr>pc_type = PD_PDO_TYPE_FIXED_SUPPLY, min_v = 0, max_v = 100, max_i = 30, max_p = 0\<rparr>"

definition msg_pdos :: "pd_msg \<Rightarrow> u32 list" where
  "msg_pdos msg = take (unat (pm_num_of_obj msg)) (pm_data_objects msg)"

definition src_cap_contract :: "int \<Rightarrow> u32 list \<Rightarrow> pd_contract" where
  "src_cap_contract rv pdos =
     (case src_cap_choice rv pdos of None \<Rightarrow> fallback_contract
      | Some i \<Rightarrow> pd_parse_power_info (pdos ! i))"

text \<open>The request message, in terms of the choice.\<close>

definition src_cap_request :: "pd_msg \<Rightarrow> 's pd_scheme \<Rightarrow> u32 list \<Rightarrow> pd_msg" where
  "src_cap_request raw s pdos =
     (case src_cap_choice (request_voltage_val s) pdos of
        None \<Rightarrow> create_fallback_request_message raw s
      | Some i \<Rightarrow> build_source_cap_response raw s (pd_parse_power_info (pdos ! i)) (of_nat i + 1))"

lemma respond_eq:
  assumes "length (pm_data_objects msg) = 7"
  shows "run_state (respond_to_src_cap_msg E send msg) (s, w) =
    (let s' = s\<lparr>requested_contract := src_cap_contract (request_voltage_val s) (msg_pdos msg)\<rparr>
     in (True, snd (run_state (send (src_cap_request (env_raw_msg E) s' (msg_pdos msg))) (s', w))))"
proof -
  have len: "length (msg_pdos msg) \<le> 7" using assms by (simp add: msg_pdos_def)
  show ?thesis
  proof (cases "src_cap_choice (request_voltage_val s) (msg_pdos msg)")
    case None
    then show ?thesis
      using len by (simp add: respond_to_src_cap_msg_def src_cap_loop_choice src_cap_contract_def
          src_cap_request_def fallback_contract_def Let_def case_prod_beta flip: msg_pdos_def)
  next
    case (Some i)
    then have "i < 255" using src_cap_choice_less [OF Some] len by simp
    with Some show ?thesis
      using len of_nat_u8_ne_255 [of i]
      by (simp add: respond_to_src_cap_msg_def src_cap_loop_choice src_cap_contract_def
          src_cap_request_def Let_def case_prod_beta flip: msg_pdos_def)
  qed
qed

section \<open>The request\<close>

text \<open>Position and amount of a request word.\<close>

definition rdo_position :: "u32 \<Rightarrow> nat" where
  "rdo_position rdo = unat (drop_bit 28 rdo AND 0x7)"

definition rdo_amount :: "u32 \<Rightarrow> u32" where
  "rdo_amount rdo = rdo AND 0x3FF"

lemma req_amount_bound: "pdo_usable pdo \<Longrightarrow> req_amount (pd_parse_power_info pdo) < 1024"
  using parse_power_info_bounds [of pdo] by (simp add: req_amount_def pdo_usable_def)

lemma src_cap_rdo_props:
  assumes "pdo_usable pdo" and "i < 7"
  shows "rdo_position (source_cap_rdo (pd_parse_power_info pdo) (of_nat i + 1)) = i + 1"
    and "rdo_amount (source_cap_rdo (pd_parse_power_info pdo) (of_nat i + 1))
       = ucast (req_amount (pd_parse_power_info pdo))"
proof -
  have u: "unat (of_nat i + 1 :: u8) = i + 1"
    using assms(2) by (simp add: unat_word_ariths unat_of_nat)
  then have "(of_nat i + 1 :: u8) < 8" using assms(2) by (simp add: word_less_nat_alt)
  then have *: "source_cap_rdo (pd_parse_power_info pdo) (of_nat i + 1) AND 0x3FF
        = ucast (req_amount (pd_parse_power_info pdo)) \<and>
      drop_bit 28 (source_cap_rdo (pd_parse_power_info pdo) (of_nat i + 1)) AND 0x7
        = ucast (of_nat i + 1 :: u8)"
    using source_cap_rdo_word [of "pd_parse_power_info pdo" "of_nat i + 1"] assms(1) req_amount_bound
    by (simp add: pdo_usable_def)
  then show "rdo_position (source_cap_rdo (pd_parse_power_info pdo) (of_nat i + 1)) = i + 1"
    unfolding rdo_position_def using u by (simp add: unat_ucast_u8)
  show "rdo_amount (source_cap_rdo (pd_parse_power_info pdo) (of_nat i + 1))
       = ucast (req_amount (pd_parse_power_info pdo))"
    using * by (simp add: rdo_amount_def)
qed

text \<open>C1: the answer to source capabilities is one request, sent once, whose object position is that of
  an object the source offered (never the reserved position 0); if any offered object is usable, the
  position is that of a usable one, the recorded contract is the one parsed from it, and the requested
  amount is exactly what that object advertises.\<close>

theorem source_cap_request_valid:
  assumes "length (pm_data_objects msg) = 7" and "0 < pm_num_of_obj msg" and "pm_num_of_obj msg < 8"
  shows "\<exists>m s' rdo.
    run_state (respond_to_src_cap_msg E send msg) (s, w) = (True, snd (run_state (send m) (s', w))) \<and>
    pm_type m = data_code PD_DATA_REQUEST \<and> pm_num_of_obj m = 1 \<and> hd (pm_data_objects m) = rdo \<and>
    1 \<le> rdo_position rdo \<and> rdo_position rdo \<le> unat (pm_num_of_obj msg) \<and>
    ((\<exists>pdo \<in> set (msg_pdos msg). pdo_usable pdo) \<longrightarrow>
       pdo_usable (msg_pdos msg ! (rdo_position rdo - 1)) \<and>
       requested_contract s' = pd_parse_power_info (msg_pdos msg ! (rdo_position rdo - 1)) \<and>
       rdo_amount rdo = ucast (req_amount (requested_contract s')))"
proof -
  let ?pdos = "msg_pdos msg"
  let ?s = "s\<lparr>requested_contract := src_cap_contract (request_voltage_val s) ?pdos\<rparr>"
  let ?m = "src_cap_request (env_raw_msg E) ?s ?pdos"
  have len: "length ?pdos = unat (pm_num_of_obj msg)" and num: "0 < unat (pm_num_of_obj msg)"
    "unat (pm_num_of_obj msg) \<le> 7"
    using assms by (simp_all add: msg_pdos_def word_less_nat_alt)
  have run: "run_state (respond_to_src_cap_msg E send msg) (s, w) = (True, snd (run_state (send ?m) (?s, w)))"
    using respond_eq [OF assms(1)] by (simp add: Let_def)
  show ?thesis
  proof (cases "src_cap_choice (request_voltage_val s) ?pdos")
    case None
    then have "hd (pm_data_objects ?m) = fallback_rdo" "pm_type ?m = data_code PD_DATA_REQUEST"
      "pm_num_of_obj ?m = 1"
      by (simp_all add: src_cap_request_def create_fallback_request_message_def PDMsg_data_def
          PD_MAX_NUM_DATA_OBJECTS_def)
    moreover have "rdo_position fallback_rdo = 1" by (simp add: rdo_position_def fallback_rdo_def)
    moreover have "\<not> (\<exists>pdo \<in> set ?pdos. pdo_usable pdo)"
      using None by (simp add: src_cap_choice_None)
    ultimately show ?thesis using run num by (metis le_numeral_extra(4) less_eq_Suc_le One_nat_def)
  next
    case (Some i)
    let ?rdo = "source_cap_rdo (pd_parse_power_info (?pdos ! i)) (of_nat i + 1)"
    have i: "i < unat (pm_num_of_obj msg)" "pdo_usable (?pdos ! i)"
      using src_cap_choice_less [OF Some] src_cap_choice_usable [OF Some] len by simp_all
    have "hd (pm_data_objects ?m) = ?rdo" "pm_type ?m = data_code PD_DATA_REQUEST"
      "pm_num_of_obj ?m = 1" "requested_contract ?s = pd_parse_power_info (?pdos ! i)"
      using Some by (simp_all add: src_cap_request_def build_source_cap_response_def PDMsg_data_def
          PD_MAX_NUM_DATA_OBJECTS_def src_cap_contract_def)
    moreover have "rdo_position ?rdo = i + 1"
      "rdo_amount ?rdo = ucast (req_amount (pd_parse_power_info (?pdos ! i)))"
      using src_cap_rdo_props [OF i(2)] i(1) num by auto
    ultimately show ?thesis using run i by (intro exI [of _ ?m] exI [of _ ?s] exI [of _ ?rdo]) auto
  qed
qed

text \<open>Values for the witnesses: source capabilities 5 V / 3 A and 9 V / 3 A, and a world that is
  just a clock.\<close>

definition ex_raw :: pd_msg where
  "ex_raw = \<lparr>pm_type = 0, pm_spec_rev = PD_SPEC_REV_1, pm_id = 0, pm_num_of_obj = 0,
     pm_extended = False, pm_data_objects = [0, 0, 0, 0, 0, 0, 0]\<rparr>"

definition ex_src_cap :: pd_msg where
  "ex_src_cap = ex_raw\<lparr>pm_type := 1, pm_id := 1, pm_num_of_obj := 2,
     pm_data_objects := [0x0001912C, 0x0002D12C, 0, 0, 0, 0, 0]\<rparr>"

definition ex_env :: "u32 pd_env" where
  "ex_env = \<lparr>env_millis = (\<lambda>t. (t, t + 1)), env_raw_msg = ex_raw\<rparr>"

definition ex_send :: "pd_msg \<Rightarrow> (pd \<times> u32, bool) state" where
  "ex_send m = ret True"

theorem source_cap_request_valid_witness:
  "\<exists>m s' rdo.
    run_state (respond_to_src_cap_msg ex_env ex_send ex_src_cap) (pd_init, 7)
      = (True, snd (run_state (ex_send m) (s', 7))) \<and>
    hd (pm_data_objects m) = rdo \<and> 1 \<le> rdo_position rdo \<and> rdo_position rdo \<le> 2"
proof -
  have "length (pm_data_objects ex_src_cap) = 7" "0 < pm_num_of_obj ex_src_cap"
    "pm_num_of_obj ex_src_cap < 8" "unat (pm_num_of_obj ex_src_cap) = 2"
    by (simp_all add: ex_src_cap_def ex_raw_def)
  then show ?thesis
    using source_cap_request_valid [of ex_src_cap ex_env ex_send pd_init 7] by auto
qed

text \<open>C26: the loop over the objects computes the reference choice: the last object that fits the
  requested voltage, otherwise the first usable one, otherwise none (marked by 255).\<close>

theorem src_cap_loop_is_choice:
  assumes "length pdos \<le> PD_MAX_NUM_DATA_OBJECTS"
  shows "src_cap_loop rv 0 pdos zero_contract 255 =
     (case src_cap_choice rv pdos of
        None \<Rightarrow> (zero_contract, 255)
      | Some i \<Rightarrow> (pd_parse_power_info (pdos ! i), of_nat i))"
  using assms by (intro src_cap_loop_choice) (simp add: PD_MAX_NUM_DATA_OBJECTS_def)

theorem src_cap_loop_is_choice_witness:
  "src_cap_loop 9 0 [0x0001912C, 0x0002D12C, 0x0004B12C] zero_contract 255 =
     (pd_parse_power_info 0x0002D12C, 1)"
  by (subst src_cap_loop_is_choice)
    (simp_all add: PD_MAX_NUM_DATA_OBJECTS_def src_cap_choice_def upt_rec pdo_fits_def pdo_usable_def
      pd_parse_power_info_def pdo_type_of_def)

text \<open>If any offered object fits the requested voltage, the contract the sink asks for is below the
  next whole volt above it (the comparison rounds the object's voltage down to whole volts).\<close>

theorem source_cap_voltage_bound:
  assumes "length (pm_data_objects msg) = 7" and "\<exists>pdo \<in> set (msg_pdos msg). pdo_fits (request_voltage_val s) pdo"
  shows "\<exists>m s'.
    run_state (respond_to_src_cap_msg E send msg) (s, w) = (True, snd (run_state (send m) (s', w))) \<and>
    50 * uint (max_v (requested_contract s')) < 1000 * (request_voltage_val s + 1)"
proof -
  let ?s = "s\<lparr>requested_contract := src_cap_contract (request_voltage_val s) (msg_pdos msg)\<rparr>"
  obtain i where i: "src_cap_choice (request_voltage_val s) (msg_pdos msg) = Some i"
    using assms(2) src_cap_choice_None [of "request_voltage_val s" "msg_pdos msg"]
    by (auto simp: pdo_fits_def)
  then have "pdo_fits (request_voltage_val s) (msg_pdos msg ! i)"
    using assms(2) by (rule src_cap_choice_fits)
  then have "50 * uint (max_v (requested_contract ?s)) < 1000 * (request_voltage_val s + 1)"
    using i unfolding src_cap_contract_def pdo_fits_def by simp linarith
  then show ?thesis
    using respond_eq [OF assms(1), of E send s w]
    by (intro exI [of _ "src_cap_request (env_raw_msg E) ?s (msg_pdos msg)"] exI [of _ ?s])
      (simp add: Let_def)
qed

theorem source_cap_voltage_bound_witness:
  "\<exists>m s'. run_state (respond_to_src_cap_msg ex_env ex_send ex_src_cap) (pd_init, 7)
      = (True, snd (run_state (ex_send m) (s', 7))) \<and>
    50 * uint (max_v (requested_contract s')) < 6000"
proof -
  have "0x0001912C \<in> set (msg_pdos ex_src_cap)"
    by (simp add: msg_pdos_def ex_src_cap_def)
  moreover have "pdo_fits (request_voltage_val pd_init) 0x0001912C"
    by (simp add: pd_init_def pdo_fits_def pdo_usable_def pd_parse_power_info_def pdo_type_of_def)
  ultimately show ?thesis
    using source_cap_voltage_bound [of ex_src_cap pd_init ex_env ex_send 7]
    by (auto simp: ex_src_cap_def pd_init_def)
qed

text \<open>A retransmission (a message, other than GoodCRC, with the identifier of the message handled
  last) is dropped: nothing is sent, no clock is read and no member changes.\<close>

theorem handle_message_duplicate:
  assumes "pm_id msg = last_received_msg_id s"
    and "\<not> (pm_num_of_obj msg = 0 \<and> pm_type msg = cntrl_code PD_CNTRL_GOODCRC)"
  shows "run_state (handle_message E send msg) (s, w) = (False, (s, w))"
  using assms by (simp add: handle_message_def handle_data_message_def handle_cntrl_message_def)

theorem handle_message_duplicate_witness:
  "run_state (handle_message ex_env ex_send ex_src_cap) (pd_init\<lparr>last_received_msg_id := 1\<rparr>, 7) =
     (False, (pd_init\<lparr>last_received_msg_id := 1\<rparr>, 7))"
  by (rule handle_message_duplicate) (simp_all add: ex_src_cap_def)

section \<open>The transport contract\<close>

text \<open>\<open>send_message\<close> is \<open>virtual\<close>; the negotiation relies on it not touching the members of the
  object. Everything below holds for every such transport.\<close>

locale pd_transport =
  fixes send :: "pd_msg \<Rightarrow> ('s pd_scheme \<times> 'w, bool) state"
  assumes send_obj: "fst (snd (run_state (send m) (s, w))) = s"
begin

lemma send_run: "run_state (send m) (s, w) = (r, (s', w')) \<Longrightarrow> s' = s"
  using send_obj [of m s w] by simp

lemma source_cap_obj:
  assumes "length (pm_data_objects msg) = 7" and "pm_num_of_obj msg \<noteq> 0"
    and "pm_type msg = data_code PD_DATA_SOURCE_CAP" and "pm_id msg \<noteq> last_received_msg_id s"
  shows "fst (snd (run_state (handle_message E send msg) (s, w))) =
    s\<lparr>last_received_msg_id := pm_id msg, active_ams := True, active_ams_timer := fst (env_millis E w),
      wait_src_cap := False,
      requested_contract := src_cap_contract (request_voltage_val s) (msg_pdos msg)\<rparr>"
  using assms
  by (simp add: handle_message_def handle_data_message_def set_ams_def respond_eq Let_def
      case_prod_beta send_obj)

lemma accept_obj:
  assumes "pm_num_of_obj msg = 0" and "pm_type msg = cntrl_code PD_CNTRL_ACCEPT"
    and "pm_id msg \<noteq> last_received_msg_id s" and "active_ams s"
  shows "fst (snd (run_state (handle_message E send msg) (s, w))) =
    (let c = requested_contract s;
         s' = s\<lparr>last_received_msg_id := pm_id msg, accepted_contract := c,
                contract_str := get_contract_string c, contract_voltage := uint (max_v c) * 5 div 100,
                contract_timer := fst (env_millis E w)\<rparr>
     in if contract_eq c (accepted_contract s) then s'
        else s'\<lparr>prev_state := pd_state s, pd_state := PD_STATE_TRANSITION\<rparr>)"
  using assms
  by (simp add: handle_message_def handle_cntrl_message_def set_contract_def set_state_def Let_def)

lemma accept_idle_obj:
  assumes "pm_num_of_obj msg = 0" and "pm_type msg = cntrl_code PD_CNTRL_ACCEPT"
    and "pm_id msg \<noteq> last_received_msg_id s" and "\<not> active_ams s"
  shows "run_state (handle_message E send msg) (s, w) = (True, (s\<lparr>last_received_msg_id := pm_id msg\<rparr>, w))"
  using assms by (simp add: handle_message_def handle_cntrl_message_def)

lemma ps_rdy_obj:
  assumes "pm_num_of_obj msg = 0" and "pm_type msg = cntrl_code PD_CNTRL_PS_RDY"
    and "pm_id msg \<noteq> last_received_msg_id s"
  shows "run_state (handle_message E send msg) (s, w) =
    (True, (s\<lparr>last_received_msg_id := pm_id msg, active_ams := False, prev_state := pd_state s,
             pd_state := PD_STATE_EXPLICIT_SPR_CONTRACT\<rparr>, w))"
  using assms by (simp add: handle_message_def handle_cntrl_message_def set_ams_def set_state_def)

lemma soft_reset_obj:
  assumes "pm_num_of_obj msg = 0" and "pm_type msg = cntrl_code PD_CNTRL_SOFT_RESET"
    and "pm_id msg \<noteq> last_received_msg_id s"
  shows "fst (snd (run_state (handle_message E send msg) (s, w))) =
    s\<lparr>last_received_msg_id := pm_id msg, prev_state := pd_state s,
      pd_state := PD_STATE_DEFAULT_CONTRACT, msg_counter := 0\<rparr>"
  using assms
  by (simp add: handle_message_def handle_cntrl_message_def set_state_def case_prod_beta send_obj)

end

end
