(* ===== verification/Fusb302_Defines.thy ===== *)
theory Fusb302_Defines
  imports Sat1_Prelude
begin

text \<open>The register map of the FUSB302B, \<open>components/fusb302b/fusb302_defines.h\<close>: addresses, bits and
  masks, in the order of the header. \<open>fusb_consts\<close> collects their definitions for evaluation. The lemmas say that
  the map is consistent: no two registers share an address and no two fields of a register share a bit, so that setting or
  clearing one field leaves the others alone.\<close>

named_theorems fusb_consts "values of the register constants"

subsection \<open>Register addresses\<close>

definition FUSB_DEVICE_ID :: u8 where
  [fusb_consts]: "FUSB_DEVICE_ID = 0x01"

definition FUSB_SWITCHES0 :: u8 where
  [fusb_consts]: "FUSB_SWITCHES0 = 0x02"

definition FUSB_SWITCHES1 :: u8 where
  [fusb_consts]: "FUSB_SWITCHES1 = 0x03"

definition FUSB_MEASURE :: u8 where
  [fusb_consts]: "FUSB_MEASURE = 0x04"

definition FUSB_SLICE :: u8 where
  [fusb_consts]: "FUSB_SLICE = 0x05"

definition FUSB_CONTROL0 :: u8 where
  [fusb_consts]: "FUSB_CONTROL0 = 0x06"

definition FUSB_CONTROL1 :: u8 where
  [fusb_consts]: "FUSB_CONTROL1 = 0x07"

definition FUSB_CONTROL2 :: u8 where
  [fusb_consts]: "FUSB_CONTROL2 = 0x08"

definition FUSB_CONTROL3 :: u8 where
  [fusb_consts]: "FUSB_CONTROL3 = 0x09"

definition FUSB_MASK1 :: u8 where
  [fusb_consts]: "FUSB_MASK1 = 0x0A"

definition FUSB_POWER :: u8 where
  [fusb_consts]: "FUSB_POWER = 0x0B"

definition FUSB_RESET :: u8 where
  [fusb_consts]: "FUSB_RESET = 0x0C"

definition FUSB_OCPREG :: u8 where
  [fusb_consts]: "FUSB_OCPREG = 0x0D"

definition FUSB_MASKA :: u8 where
  [fusb_consts]: "FUSB_MASKA = 0x0E"

definition FUSB_MASKB :: u8 where
  [fusb_consts]: "FUSB_MASKB = 0x0F"

definition FUSB_CONTROL4 :: u8 where
  [fusb_consts]: "FUSB_CONTROL4 = 0x10"

definition FUSB_STATUS0A :: u8 where
  [fusb_consts]: "FUSB_STATUS0A = 0x3C"

definition FUSB_STATUS1A :: u8 where
  [fusb_consts]: "FUSB_STATUS1A = 0x3D"

definition FUSB_INTERRUPTA :: u8 where
  [fusb_consts]: "FUSB_INTERRUPTA = 0x3E"

definition FUSB_INTERRUPTB :: u8 where
  [fusb_consts]: "FUSB_INTERRUPTB = 0x3F"

definition FUSB_STATUS0 :: u8 where
  [fusb_consts]: "FUSB_STATUS0 = 0x40"

definition FUSB_STATUS1 :: u8 where
  [fusb_consts]: "FUSB_STATUS1 = 0x41"

definition FUSB_INTERRUPT :: u8 where
  [fusb_consts]: "FUSB_INTERRUPT = 0x42"

definition FUSB_FIFOS :: u8 where
  [fusb_consts]: "FUSB_FIFOS = 0x43"

subsection \<open>SWITCHES0 bits\<close>

definition FUSB_SWITCHES0_PU_EN2 :: u8 where
  [fusb_consts]: "FUSB_SWITCHES0_PU_EN2 = push_bit 7 1"

definition FUSB_SWITCHES0_PU_EN1 :: u8 where
  [fusb_consts]: "FUSB_SWITCHES0_PU_EN1 = push_bit 6 1"

definition FUSB_SWITCHES0_VCONN_CC2 :: u8 where
  [fusb_consts]: "FUSB_SWITCHES0_VCONN_CC2 = push_bit 5 1"

definition FUSB_SWITCHES0_VCONN_CC1 :: u8 where
  [fusb_consts]: "FUSB_SWITCHES0_VCONN_CC1 = push_bit 4 1"

definition FUSB_SWITCHES0_MEAS_CC2 :: u8 where
  [fusb_consts]: "FUSB_SWITCHES0_MEAS_CC2 = push_bit 3 1"

definition FUSB_SWITCHES0_MEAS_CC1 :: u8 where
  [fusb_consts]: "FUSB_SWITCHES0_MEAS_CC1 = push_bit 2 1"

definition FUSB_SWITCHES0_PDWN_2 :: u8 where
  [fusb_consts]: "FUSB_SWITCHES0_PDWN_2 = push_bit 1 1"

definition FUSB_SWITCHES0_PDWN_1 :: u8 where
  [fusb_consts]: "FUSB_SWITCHES0_PDWN_1 = 1"

subsection \<open>SWITCHES1 bits\<close>

definition FUSB_SWITCHES1_POWERROLE :: u8 where
  [fusb_consts]: "FUSB_SWITCHES1_POWERROLE = push_bit 7 1"

definition FUSB_SWITCHES1_SPECREV_SHIFT :: u8 where
  [fusb_consts]: "FUSB_SWITCHES1_SPECREV_SHIFT = 5"

definition FUSB_SWITCHES1_SPECREV :: u8 where
  [fusb_consts]: "FUSB_SWITCHES1_SPECREV = push_bit (unat FUSB_SWITCHES1_SPECREV_SHIFT) 3"

definition FUSB_SWITCHES1_DATAROLE :: u8 where
  [fusb_consts]: "FUSB_SWITCHES1_DATAROLE = push_bit 4 1"

definition FUSB_SWITCHES1_AUTO_CRC :: u8 where
  [fusb_consts]: "FUSB_SWITCHES1_AUTO_CRC = push_bit 2 1"

definition FUSB_SWITCHES1_TXCC2 :: u8 where
  [fusb_consts]: "FUSB_SWITCHES1_TXCC2 = push_bit 1 1"

definition FUSB_SWITCHES1_TXCC1 :: u8 where
  [fusb_consts]: "FUSB_SWITCHES1_TXCC1 = 1"

subsection \<open>CONTROL0 bits\<close>

definition FUSB_CONTROL0_TX_FLUSH :: u8 where
  [fusb_consts]: "FUSB_CONTROL0_TX_FLUSH = push_bit 6 1"

definition FUSB_CONTROL0_INT_MASK :: u8 where
  [fusb_consts]: "FUSB_CONTROL0_INT_MASK = push_bit 5 1"

definition FUSB_CONTROL0_HOST_CUR_SHIFT :: u8 where
  [fusb_consts]: "FUSB_CONTROL0_HOST_CUR_SHIFT = 2"

definition FUSB_CONTROL0_HOST_CUR :: u8 where
  [fusb_consts]: "FUSB_CONTROL0_HOST_CUR = push_bit (unat FUSB_CONTROL0_HOST_CUR_SHIFT) 3"

definition FUSB_CONTROL0_AUTO_PRE :: u8 where
  [fusb_consts]: "FUSB_CONTROL0_AUTO_PRE = push_bit 1 1"

definition FUSB_CONTROL0_TX_START :: u8 where
  [fusb_consts]: "FUSB_CONTROL0_TX_START = 1"

subsection \<open>CONTROL1 bits\<close>

definition FUSB_CONTROL1_ENSOP2DB :: u8 where
  [fusb_consts]: "FUSB_CONTROL1_ENSOP2DB = push_bit 6 1"

definition FUSB_CONTROL1_ENSOP1DB :: u8 where
  [fusb_consts]: "FUSB_CONTROL1_ENSOP1DB = push_bit 5 1"

definition FUSB_CONTROL1_BIST_MODE2 :: u8 where
  [fusb_consts]: "FUSB_CONTROL1_BIST_MODE2 = push_bit 4 1"

definition FUSB_CONTROL1_RX_FLUSH :: u8 where
  [fusb_consts]: "FUSB_CONTROL1_RX_FLUSH = push_bit 2 1"

definition FUSB_CONTROL1_ENSOP2 :: u8 where
  [fusb_consts]: "FUSB_CONTROL1_ENSOP2 = push_bit 1 1"

definition FUSB_CONTROL1_ENSOP1 :: u8 where
  [fusb_consts]: "FUSB_CONTROL1_ENSOP1 = 1"

subsection \<open>CONTROL3 bits\<close>

definition FUSB_CONTROL3_SEND_HARD_RESET :: u8 where
  [fusb_consts]: "FUSB_CONTROL3_SEND_HARD_RESET = push_bit 6 1"

definition FUSB_CONTROL3_BIST_TMODE :: u8 where
  [fusb_consts]: "FUSB_CONTROL3_BIST_TMODE = push_bit 5 1"

definition FUSB_CONTROL3_AUTO_HARDRESET :: u8 where
  [fusb_consts]: "FUSB_CONTROL3_AUTO_HARDRESET = push_bit 4 1"

definition FUSB_CONTROL3_AUTO_SOFTRESET :: u8 where
  [fusb_consts]: "FUSB_CONTROL3_AUTO_SOFTRESET = push_bit 3 1"

definition FUSB_CONTROL3_N_RETRIES_SHIFT :: u8 where
  [fusb_consts]: "FUSB_CONTROL3_N_RETRIES_SHIFT = 1"

definition FUSB_CONTROL3_N_RETRIES_MASK :: u8 where
  [fusb_consts]: "FUSB_CONTROL3_N_RETRIES_MASK = push_bit (unat FUSB_CONTROL3_N_RETRIES_SHIFT) 3"

definition FUSB_CONTROL3_AUTO_RETRY :: u8 where
  [fusb_consts]: "FUSB_CONTROL3_AUTO_RETRY = 1"

subsection \<open>POWER bits\<close>

definition PWR_INT_OSC :: u8 where
  [fusb_consts]: "PWR_INT_OSC = push_bit 3 1"

definition PWR_MEASURE :: u8 where
  [fusb_consts]: "PWR_MEASURE = push_bit 2 1"

definition PWR_RECEIVER :: u8 where
  [fusb_consts]: "PWR_RECEIVER = push_bit 1 1"

definition PWR_BANDGAP :: u8 where
  [fusb_consts]: "PWR_BANDGAP = push_bit 0 1"

subsection \<open>RESET bits\<close>

definition FUSB_RESET_PD_RESET :: u8 where
  [fusb_consts]: "FUSB_RESET_PD_RESET = push_bit 1 1"

definition FUSB_RESET_SW_RES :: u8 where
  [fusb_consts]: "FUSB_RESET_SW_RES = 1"

subsection \<open>MASKA bits\<close>

definition FUSB_MASKA_M_OCP_TEMP :: u8 where
  [fusb_consts]: "FUSB_MASKA_M_OCP_TEMP = push_bit 7 1"

definition FUSB_MASKA_M_TOGDONE :: u8 where
  [fusb_consts]: "FUSB_MASKA_M_TOGDONE = push_bit 6 1"

definition FUSB_MASKA_M_SOFTFAIL :: u8 where
  [fusb_consts]: "FUSB_MASKA_M_SOFTFAIL = push_bit 5 1"

definition FUSB_MASKA_M_RETRYFAIL :: u8 where
  [fusb_consts]: "FUSB_MASKA_M_RETRYFAIL = push_bit 4 1"

definition FUSB_MASKA_M_HARDSENT :: u8 where
  [fusb_consts]: "FUSB_MASKA_M_HARDSENT = push_bit 3 1"

definition FUSB_MASKA_M_TXSENT :: u8 where
  [fusb_consts]: "FUSB_MASKA_M_TXSENT = push_bit 2 1"

definition FUSB_MASKA_M_SOFTRST :: u8 where
  [fusb_consts]: "FUSB_MASKA_M_SOFTRST = push_bit 1 1"

definition FUSB_MASKA_M_HARDRST :: u8 where
  [fusb_consts]: "FUSB_MASKA_M_HARDRST = 1"

subsection \<open>MASKB bits\<close>

definition FUSB_MASKB_M_GCRCSENT :: u8 where
  [fusb_consts]: "FUSB_MASKB_M_GCRCSENT = 1"

subsection \<open>STATUS0A bits\<close>

definition FUSB_STATUS0A_SOFTFAIL :: u8 where
  [fusb_consts]: "FUSB_STATUS0A_SOFTFAIL = push_bit 5 1"

definition FUSB_STATUS0A_RETRYFAIL :: u8 where
  [fusb_consts]: "FUSB_STATUS0A_RETRYFAIL = push_bit 4 1"

definition FUSB_STATUS0A_SOFTRST :: u8 where
  [fusb_consts]: "FUSB_STATUS0A_SOFTRST = push_bit 1 1"

definition FUSB_STATUS0A_HARDRST :: u8 where
  [fusb_consts]: "FUSB_STATUS0A_HARDRST = 1"

subsection \<open>INTERRUPTA bits\<close>

definition FUSB_INTERRUPTA_I_OCP_TEMP :: u8 where
  [fusb_consts]: "FUSB_INTERRUPTA_I_OCP_TEMP = push_bit 7 1"

definition FUSB_INTERRUPTA_I_TOGDONE :: u8 where
  [fusb_consts]: "FUSB_INTERRUPTA_I_TOGDONE = push_bit 6 1"

definition FUSB_INTERRUPTA_I_SOFTFAIL :: u8 where
  [fusb_consts]: "FUSB_INTERRUPTA_I_SOFTFAIL = push_bit 5 1"

definition FUSB_INTERRUPTA_I_RETRYFAIL :: u8 where
  [fusb_consts]: "FUSB_INTERRUPTA_I_RETRYFAIL = push_bit 4 1"

definition FUSB_INTERRUPTA_I_HARDSENT :: u8 where
  [fusb_consts]: "FUSB_INTERRUPTA_I_HARDSENT = push_bit 3 1"

definition FUSB_INTERRUPTA_I_TXSENT :: u8 where
  [fusb_consts]: "FUSB_INTERRUPTA_I_TXSENT = push_bit 2 1"

definition FUSB_INTERRUPTA_I_SOFTRST :: u8 where
  [fusb_consts]: "FUSB_INTERRUPTA_I_SOFTRST = push_bit 1 1"

definition FUSB_INTERRUPTA_I_HARDRST :: u8 where
  [fusb_consts]: "FUSB_INTERRUPTA_I_HARDRST = 1"

subsection \<open>INTERRUPTB bits\<close>

definition FUSB_INTERRUPTB_I_GCRCSENT :: u8 where
  [fusb_consts]: "FUSB_INTERRUPTB_I_GCRCSENT = 1"

subsection \<open>INTERRUPT bits (mirror MASK1 layout)\<close>

definition FUSB_INTERRUPT_I_VBUSOK :: u8 where
  [fusb_consts]: "FUSB_INTERRUPT_I_VBUSOK = push_bit 7 1"

subsection \<open>STATUS0 bits\<close>

definition FUSB_STATUS0_VBUSOK :: u8 where
  [fusb_consts]: "FUSB_STATUS0_VBUSOK = push_bit 7 1"

definition FUSB_STATUS0_ACTIVITY :: u8 where
  [fusb_consts]: "FUSB_STATUS0_ACTIVITY = push_bit 6 1"

definition FUSB_STATUS0_COMP :: u8 where
  [fusb_consts]: "FUSB_STATUS0_COMP = push_bit 5 1"

definition FUSB_STATUS0_CRC_CHK :: u8 where
  [fusb_consts]: "FUSB_STATUS0_CRC_CHK = push_bit 4 1"

definition FUSB_STATUS0_ALERT :: u8 where
  [fusb_consts]: "FUSB_STATUS0_ALERT = push_bit 3 1"

definition FUSB_STATUS0_WAKE :: u8 where
  [fusb_consts]: "FUSB_STATUS0_WAKE = push_bit 2 1"

definition FUSB_STATUS0_BC_LVL_SHIFT :: u8 where
  [fusb_consts]: "FUSB_STATUS0_BC_LVL_SHIFT = 0"

definition FUSB_STATUS0_BC_LVL :: u8 where
  [fusb_consts]: "FUSB_STATUS0_BC_LVL = push_bit (unat FUSB_STATUS0_BC_LVL_SHIFT) 3"

subsection \<open>STATUS1 bits\<close>

definition FUSB_STATUS1_RXSOP2 :: u8 where
  [fusb_consts]: "FUSB_STATUS1_RXSOP2 = push_bit 7 1"

definition FUSB_STATUS1_RXSOP1 :: u8 where
  [fusb_consts]: "FUSB_STATUS1_RXSOP1 = push_bit 6 1"

definition FUSB_STATUS1_RX_EMPTY :: u8 where
  [fusb_consts]: "FUSB_STATUS1_RX_EMPTY = push_bit 5 1"

definition FUSB_STATUS1_RX_FULL :: u8 where
  [fusb_consts]: "FUSB_STATUS1_RX_FULL = push_bit 4 1"

definition FUSB_STATUS1_TX_EMPTY :: u8 where
  [fusb_consts]: "FUSB_STATUS1_TX_EMPTY = push_bit 3 1"

definition FUSB_STATUS1_TX_FULL :: u8 where
  [fusb_consts]: "FUSB_STATUS1_TX_FULL = push_bit 2 1"

definition FUSB_STATUS1_OVRTEMP :: u8 where
  [fusb_consts]: "FUSB_STATUS1_OVRTEMP = push_bit 1 1"

definition FUSB_STATUS1_OCP :: u8 where
  [fusb_consts]: "FUSB_STATUS1_OCP = 1"

subsection \<open>FIFO RX token bits\<close>

definition FUSB_FIFO_RX_TOKEN_BITS :: u8 where
  [fusb_consts]: "FUSB_FIFO_RX_TOKEN_BITS = 0xE0"

definition FUSB_FIFO_RX_SOP :: u8 where
  [fusb_consts]: "FUSB_FIFO_RX_SOP = 0xE0"

definition FUSB_FIFO_RX_SOP1 :: u8 where
  [fusb_consts]: "FUSB_FIFO_RX_SOP1 = 0xC0"

definition FUSB_FIFO_RX_SOP2 :: u8 where
  [fusb_consts]: "FUSB_FIFO_RX_SOP2 = 0xA0"

definition FUSB_FIFO_RX_SOP1DB :: u8 where
  [fusb_consts]: "FUSB_FIFO_RX_SOP1DB = 0x80"

definition FUSB_FIFO_RX_SOP2DB :: u8 where
  [fusb_consts]: "FUSB_FIFO_RX_SOP2DB = 0x60"

subsection \<open>Consistency\<close>

text \<open>The registers, and the fields of each register that has more than one.\<close>

definition fusb_registers :: "u8 list" where
  "fusb_registers = [
     FUSB_DEVICE_ID, FUSB_SWITCHES0, FUSB_SWITCHES1, FUSB_MEASURE, FUSB_SLICE, FUSB_CONTROL0, FUSB_CONTROL1, FUSB_CONTROL2,
     FUSB_CONTROL3, FUSB_MASK1, FUSB_POWER, FUSB_RESET, FUSB_OCPREG, FUSB_MASKA, FUSB_MASKB, FUSB_CONTROL4, FUSB_STATUS0A,
     FUSB_STATUS1A, FUSB_INTERRUPTA, FUSB_INTERRUPTB, FUSB_STATUS0, FUSB_STATUS1, FUSB_INTERRUPT, FUSB_FIFOS]"

definition fusb_fields :: "u8 list list" where
  "fusb_fields = [
     [FUSB_SWITCHES0_PU_EN2, FUSB_SWITCHES0_PU_EN1, FUSB_SWITCHES0_VCONN_CC2, FUSB_SWITCHES0_VCONN_CC1,
      FUSB_SWITCHES0_MEAS_CC2, FUSB_SWITCHES0_MEAS_CC1, FUSB_SWITCHES0_PDWN_2, FUSB_SWITCHES0_PDWN_1],
     [FUSB_SWITCHES1_POWERROLE, FUSB_SWITCHES1_SPECREV, FUSB_SWITCHES1_DATAROLE, FUSB_SWITCHES1_AUTO_CRC,
      FUSB_SWITCHES1_TXCC2, FUSB_SWITCHES1_TXCC1],
     [FUSB_CONTROL0_TX_FLUSH, FUSB_CONTROL0_INT_MASK, FUSB_CONTROL0_HOST_CUR, FUSB_CONTROL0_AUTO_PRE, FUSB_CONTROL0_TX_START],
     [FUSB_CONTROL1_ENSOP2DB, FUSB_CONTROL1_ENSOP1DB, FUSB_CONTROL1_BIST_MODE2, FUSB_CONTROL1_RX_FLUSH, FUSB_CONTROL1_ENSOP2,
      FUSB_CONTROL1_ENSOP1],
     [FUSB_CONTROL3_SEND_HARD_RESET, FUSB_CONTROL3_BIST_TMODE, FUSB_CONTROL3_AUTO_HARDRESET, FUSB_CONTROL3_AUTO_SOFTRESET,
      FUSB_CONTROL3_N_RETRIES_MASK, FUSB_CONTROL3_AUTO_RETRY],
     [PWR_INT_OSC, PWR_MEASURE, PWR_RECEIVER, PWR_BANDGAP],
     [FUSB_RESET_PD_RESET, FUSB_RESET_SW_RES],
     [FUSB_MASKA_M_OCP_TEMP, FUSB_MASKA_M_TOGDONE, FUSB_MASKA_M_SOFTFAIL, FUSB_MASKA_M_RETRYFAIL, FUSB_MASKA_M_HARDSENT,
      FUSB_MASKA_M_TXSENT, FUSB_MASKA_M_SOFTRST, FUSB_MASKA_M_HARDRST],
     [FUSB_STATUS0A_SOFTFAIL, FUSB_STATUS0A_RETRYFAIL, FUSB_STATUS0A_SOFTRST, FUSB_STATUS0A_HARDRST],
     [FUSB_INTERRUPTA_I_OCP_TEMP, FUSB_INTERRUPTA_I_TOGDONE, FUSB_INTERRUPTA_I_SOFTFAIL, FUSB_INTERRUPTA_I_RETRYFAIL,
      FUSB_INTERRUPTA_I_HARDSENT, FUSB_INTERRUPTA_I_TXSENT, FUSB_INTERRUPTA_I_SOFTRST, FUSB_INTERRUPTA_I_HARDRST],
     [FUSB_STATUS0_VBUSOK, FUSB_STATUS0_ACTIVITY, FUSB_STATUS0_COMP, FUSB_STATUS0_CRC_CHK, FUSB_STATUS0_ALERT,
      FUSB_STATUS0_WAKE, FUSB_STATUS0_BC_LVL],
     [FUSB_STATUS1_RXSOP2, FUSB_STATUS1_RXSOP1, FUSB_STATUS1_RX_EMPTY, FUSB_STATUS1_RX_FULL, FUSB_STATUS1_TX_EMPTY,
      FUSB_STATUS1_TX_FULL, FUSB_STATUS1_OVRTEMP, FUSB_STATUS1_OCP]]"

text \<open>Every field has a bit of its own, and none in common with another field of its register.\<close>

fun disjoint_fields :: "u8 list \<Rightarrow> bool" where
  "disjoint_fields [] = True"
| "disjoint_fields (f # fs) = (f \<noteq> 0 \<and> list_all (\<lambda>g. f AND g = 0) fs \<and> disjoint_fields fs)"

lemma register_map_consistent: "distinct fusb_registers" "list_all disjoint_fields fusb_fields"
  by (simp_all add: fusb_registers_def fusb_fields_def fusb_consts)

end
