(* ===== verification/Fusb302b_Correct.thy ===== *)
theory Fusb302b_Correct
  imports Fusb302b
begin

text \<open>
  Properties of the driver of \<open>components/fusb302b/fusb302b.cpp\<close>: the transmit frame and its agreement
  with the receive path, the discipline of the bus mutex, a whole negotiation, attach and
  detach, the retry ladder of \<open>check_status_\<close>, and the receive loop of the reader task.

  Named hypotheses about code outside the repository: \<open>bus_mutex\<close> (an RTOS mutex is held after a
  successful take and free after a give, and nothing else changes that).
\<close>

section \<open>The transport contract holds for the driver\<close>

lemma with_i2c_lock_obj:
  assumes "\<And>s w. fst (snd (run_state body (s, w))) = s"
  shows "fst (snd (run_state (with_i2c_lock E ms d body) (s, w))) = s"
  using assms by (simp add: with_i2c_lock_def case_prod_beta)

interpretation fusb_tx: pd_transport "send_message E" for E :: "'w fusb_env"
  by unfold_locales (simp add: send_message_def with_i2c_lock_obj)

section \<open>Frames\<close>

lemma length_tx_frame:
  "unat (pm_num_of_obj m) \<le> length (pm_data_objects m) \<Longrightarrow>
   length (tx_frame m) = 11 + 4 * unat (pm_num_of_obj m)"
  by (simp add: tx_frame_def Let_def)

text \<open>A message the driver can put on the line: every field fits its place in the header, the words it counts are there, it is not
  extended, and its frame fits the 40-byte buffer of \<open>send_message\<close>.\<close>

definition sendable :: "pd_msg \<Rightarrow> bool" where
  "sendable m \<longleftrightarrow> header_fields_ok m \<and> length (pm_data_objects m) = PD_MAX_NUM_DATA_OBJECTS \<and> \<not> pm_extended m \<and>
     length (tx_frame m) \<le> 40"

lemma sendableI:
  assumes "header_fields_ok m" "length (pm_data_objects m) = 7" "\<not> pm_extended m"
  shows "sendable m"
proof -
  have "unat (pm_num_of_obj m) < 8" using assms(1) by (simp add: header_fields_ok_def word_less_nat_alt)
  then show ?thesis using assms by (simp add: sendable_def PD_MAX_NUM_DATA_OBJECTS_def length_tx_frame)
qed

lemma message_code_bounds: "cntrl_code c < 32" "data_code d < 32"
  by (cases c; simp)+ (cases d; simp)

lemma mod8_less: "(x :: u8) mod 8 < 8"
  by (simp add: word_less_nat_alt unat_mod)

text \<open>Every constructor the handlers use gives a sendable message, whatever was in the storage before.\<close>

lemma built_sendable:
  assumes "length (pm_data_objects raw) = 7"
  shows "sendable (PDMsg_cntrl raw s c)" "i < 8 \<Longrightarrow> sendable (PDMsg_cntrl_id raw s c i)" "sendable (PDMsg_data raw s d [x] 1)"
  using assms message_code_bounds mod8_less
  by (auto intro!: sendableI simp: PDMsg_cntrl_def PDMsg_cntrl_id_def PDMsg_data_def header_fields_ok_def PD_MAX_NUM_DATA_OBJECTS_def)

lemma obj_get_bind_cong:
  "(\<And>s. f (g s) = f' (g s)) \<Longrightarrow> State_Monad.bind (obj_get g) f = State_Monad.bind (obj_get g) f'"
  by (intro state.expand ext) (simp add: case_prod_beta)

text \<open>C35: the handlers only send messages the line can carry. Two transports that agree on sendable messages are the same to
  \<open>handle_message\<close>, for every received message and state: no other message ever reaches the transport. In particular every
  field of a message fits its place in the header and no frame overruns the transmit buffer.\<close>

theorem handle_message_sends_sendable:
  assumes "length (pm_data_objects (env_raw_msg E)) = 7" and "\<And>m. sendable m \<Longrightarrow> send m = send' m"
  shows "handle_message E send msg = handle_message E send' msg"
proof -
  note B = built_sendable [OF assms(1)]
  have data: "State_Monad.bind (obj_get (\<lambda>s. PDMsg_data (env_raw_msg E) s d [f s] 1)) (\<lambda>m. State_Monad.bind (send m) k) =
      State_Monad.bind (obj_get (\<lambda>s. PDMsg_data (env_raw_msg E) s d [f s] 1)) (\<lambda>m. State_Monad.bind (send' m) k)" for d f k
    by (rule obj_get_bind_cong) (simp add: assms(2) B)
  have respond: "respond_to_src_cap_msg E send msg = respond_to_src_cap_msg E send' msg"
    unfolding respond_to_src_cap_msg_def build_source_cap_response_def create_fallback_request_message_def data ..
  have "handle_data_message E send msg = handle_data_message E send' msg"
    unfolding handle_data_message_def respond ..
  moreover have "State_Monad.bind (obj_get (\<lambda>s. PDMsg_cntrl_id (env_raw_msg E) s c 0)) (\<lambda>m. State_Monad.bind (send m) k) =
      State_Monad.bind (obj_get (\<lambda>s. PDMsg_cntrl_id (env_raw_msg E) s c 0)) (\<lambda>m. State_Monad.bind (send' m) k)"
    "State_Monad.bind (obj_get (\<lambda>s. PDMsg_cntrl (env_raw_msg E) s c)) (\<lambda>m. State_Monad.bind (send m) k) =
      State_Monad.bind (obj_get (\<lambda>s. PDMsg_cntrl (env_raw_msg E) s c)) (\<lambda>m. State_Monad.bind (send' m) k)" for c k
    by (rule obj_get_bind_cong, simp add: assms(2) B)+
  note cntrl = this
  have "handle_cntrl_message E send msg = handle_cntrl_message E send' msg"
    unfolding handle_cntrl_message_def build_get_sink_cap_response_def cntrl data [of _ "\<lambda>s. sink_cap_pdo"] ..
  ultimately show ?thesis unfolding handle_message_def by simp
qed

theorem handle_message_sends_sendable_witness:
  "handle_message ex_env ex_send ex_src_cap =
     handle_message ex_env (\<lambda>m. if sendable m then ret True else do { obj_mod (\<lambda>s. s\<lparr>msg_counter := 99\<rparr>); ret False }) ex_src_cap"
  by (rule handle_message_sends_sendable) (simp_all add: ex_env_def ex_raw_def ex_send_def)

text \<open>Header and data objects of a frame, as the receiving chip would put them into its FIFO.\<close>

definition frame_payload :: "pd_msg \<Rightarrow> u8 list" where
  "frame_payload m = take (2 + 4 * unat (pm_num_of_obj m)) (drop 5 (tx_frame m))"

lemma frame_payload_eq:
  assumes "unat (pm_num_of_obj m) \<le> length (pm_data_objects m)"
  shows "frame_payload m =
    le16_bytes (get_coded_header m) @ concat (map le32_bytes (take (unat (pm_num_of_obj m)) (pm_data_objects m)))"
  using assms by (simp add: frame_payload_def tx_frame_def Let_def)

text \<open>C11: transmit and receive formats agree. If the FIFO delivers the start token, the payload of the
  frame \<open>send_message\<close> builds for \<open>m\<close> and a CRC, then \<open>read_message\<close> succeeds and gives back \<open>m\<close>:
  every header field and every data object (array entries beyond them keep the receiver's value).\<close>

theorem read_message_tx_frame:
  assumes ok: "header_fields_ok m" and len: "length (pm_data_objects m) = 7"
    and lock: "sem_take E 100 w = (True, w0)"
    and tok: "reg_get E FUSB_FIFOS w0 = (t, w1)" "t AND 0xE0 = 0xE0"
    and hdr: "read_register E FUSB_FIFOS 2 w1 = ((0, take 2 (frame_payload m)), w2)"
    and objs: "pm_num_of_obj m \<noteq> 0 \<Longrightarrow>
      read_register E FUSB_FIFOS (4 * unat (pm_num_of_obj m)) w2 = ((0, drop 2 (frame_payload m)), w3)"
    and none: "pm_num_of_obj m = 0 \<Longrightarrow> w3 = w2"
    and crc: "read_register E FUSB_FIFOS 4 w3 = ((0, cs), w4)"
  shows "run_state (read_message E m') (s, w) =
    ((True, m\<lparr>pm_data_objects := take (unat (pm_num_of_obj m)) (pm_data_objects m)
                              @ drop (unat (pm_num_of_obj m)) (pm_data_objects m')\<rparr>), (s, sem_give E w4))"
proof -
  let ?n = "unat (pm_num_of_obj m)"
  have n: "?n \<le> 7" using ok by (simp add: header_fields_ok_def word_less_nat_alt)
  have pay: "take 2 (frame_payload m) = le16_bytes (get_coded_header m)"
    "drop 2 (frame_payload m) = concat (map le32_bytes (take ?n (pm_data_objects m)))"
    using n len by (simp_all add: frame_payload_eq)
  have h: "set_header (le16_of (le16_bytes (get_coded_header m))) m' = m\<lparr>pm_data_objects := pm_data_objects m'\<rparr>"
    using header_round_trip [OF ok] le16_of_bytes [of "get_coded_header m" "[]"] by simp
  have "\<not> pm_num_of_obj m > 7" using n by (simp add: word_less_nat_alt)
  then show ?thesis
    using lock tok hdr crc objs none n len
    by (cases "pm_num_of_obj m = 0")
      (simp_all add: read_message_def with_i2c_lock_def pay h FUSB_FIFO_RX_TOKEN_BITS_def
        FUSB_FIFO_RX_SOP_def Let_def overlay_objects_def mult.commute word_neq_0_conv)
qed

text \<open>A concrete environment for the witnesses: a clock that stands still, a FIFO, a mutex and the log
  of everything written to the chip's FIFO register.\<close>

record ex_world =
  ew_now :: u32
  ew_fifo :: "u8 list"
  ew_held :: bool
  ew_log :: "u8 list list"

definition ex_fusb_env :: "ex_world fusb_env" where
  "ex_fusb_env =
     \<lparr>env_millis = (\<lambda>w. (ew_now w, w)), env_raw_msg = ex_raw,
      sem_create_mutex = (\<lambda>w. (True, w)),
      sem_take = (\<lambda>ms w. if ew_held w then (False, w) else (True, w\<lparr>ew_held := True\<rparr>)),
      sem_give = (\<lambda>w. w\<lparr>ew_held := False\<rparr>),
      reg_get = (\<lambda>r w. if r = FUSB_FIFOS then (hd (ew_fifo w), w\<lparr>ew_fifo := tl (ew_fifo w)\<rparr>) else (0x81, w)),
      reg_put = (\<lambda>r v w. w),
      read_register = (\<lambda>r n w. ((0, take n (ew_fifo w)), w\<lparr>ew_fifo := drop n (ew_fifo w)\<rparr>)),
      write_register = (\<lambda>r bs w. (0, w\<lparr>ew_log := ew_log w @ [bs]\<rparr>)),
      defer_publish = (\<lambda>w. w), task_create = (\<lambda>w. (True, w)), task_delete = (\<lambda>w. w),
      delay_ms = (\<lambda>n w. w), queue_create = (\<lambda>n w. (True, w)), queue_send = (\<lambda>e w. (True, w)),
      queue_receive = (\<lambda>w. (None, w)), queue_delete = (\<lambda>w. w), gpio_setup = (\<lambda>p w. w),
      gpio_install_isr_service = (\<lambda>w. (True, w)), gpio_isr_handler_add = (\<lambda>p w. (True, w)),
      gpio_isr_handler_remove = (\<lambda>p w. w), notify_reader = (\<lambda>w. w)\<rparr>"

definition ex_w0 :: ex_world where
  "ex_w0 = \<lparr>ew_now = 10000, ew_fifo = [], ew_held = False, ew_log = []\<rparr>"

theorem read_message_tx_frame_witness:
  "fst (run_state (read_message ex_fusb_env ex_raw)
      (fusb_init, ex_w0\<lparr>ew_fifo := 0xE0 # frame_payload ex_src_cap @ [1, 2, 3, 4]\<rparr>)) =
   (True, ex_src_cap)"
proof -
  let ?p = "frame_payload ex_src_cap"
  have ok: "header_fields_ok ex_src_cap" "length (pm_data_objects ex_src_cap) = 7"
    by (simp_all add: ex_src_cap_def ex_raw_def header_fields_ok_def)
  have len: "length ?p = 10"
    by (simp add: frame_payload_def length_tx_frame ex_src_cap_def)
  let ?w = "\<lambda>f. ex_w0\<lparr>ew_held := True, ew_fifo := f\<rparr>"
  let ?start = "ex_w0\<lparr>ew_fifo := 0xE0 # ?p @ [1, 2, 3, 4]\<rparr>"
  have n: "pm_num_of_obj ex_src_cap = 2" by (simp add: ex_src_cap_def)
  have steps:
    "sem_take ex_fusb_env 100 ?start = (True, ?w (0xE0 # ?p @ [1, 2, 3, 4]))"
    "reg_get ex_fusb_env FUSB_FIFOS (?w (0xE0 # ?p @ [1, 2, 3, 4])) = (0xE0, ?w (?p @ [1, 2, 3, 4]))"
    "read_register ex_fusb_env FUSB_FIFOS 2 (?w (?p @ [1, 2, 3, 4]))
       = ((0, take 2 ?p), ?w (drop 2 ?p @ [1, 2, 3, 4]))"
    "read_register ex_fusb_env FUSB_FIFOS (4 * unat (pm_num_of_obj ex_src_cap)) (?w (drop 2 ?p @ [1, 2, 3, 4]))
       = ((0, drop 2 ?p), ?w [1, 2, 3, 4])"
    "read_register ex_fusb_env FUSB_FIFOS 4 (?w [1, 2, 3, 4]) = ((0, [1, 2, 3, 4]), ?w [])"
    unfolding n by (simp_all add: ex_fusb_env_def ex_w0_def len)
  have "run_state (read_message ex_fusb_env ex_raw) (fusb_init, ?start) =
      ((True, ex_src_cap\<lparr>pm_data_objects := take 2 (pm_data_objects ex_src_cap) @ drop 2 (pm_data_objects ex_raw)\<rparr>),
       (fusb_init, sem_give ex_fusb_env (?w [])))"
    using read_message_tx_frame [OF ok steps(1,2) _ steps(3) steps(4) _ steps(5), of ex_raw fusb_init]
    by (simp add: n)
  then show ?thesis by (simp add: ex_src_cap_def ex_raw_def)
qed

section \<open>The bus mutex\<close>

text \<open>What the driver relies on of the RTOS: \<open>held w\<close> says whether the mutex is taken; a take succeeds
  exactly when it leaves the mutex taken, a give frees it, and nothing else touches it.\<close>

definition bus_mutex :: "'w fusb_env \<Rightarrow> ('w \<Rightarrow> bool) \<Rightarrow> bool" where
  "bus_mutex E held \<longleftrightarrow>
     (\<forall>ms w. \<not> held w \<longrightarrow> held (snd (sem_take E ms w)) = fst (sem_take E ms w)) \<and>
     (\<forall>w. \<not> held (sem_give E w)) \<and>
     (\<forall>w. held (snd (env_millis E w)) = held w) \<and>
     (\<forall>r w. held (snd (reg_get E r w)) = held w) \<and>
     (\<forall>r v w. held (reg_put E r v w) = held w) \<and>
     (\<forall>r n w. held (snd (read_register E r n w)) = held w) \<and>
     (\<forall>r bs w. held (snd (write_register E r bs w)) = held w) \<and>
     (\<forall>w. held (defer_publish E w) = held w) \<and>
     (\<forall>w. held (snd (task_create E w)) = held w) \<and>
     (\<forall>w. held (task_delete E w) = held w) \<and>
     (\<forall>n w. held (delay_ms E n w) = held w) \<and>
     (\<forall>w. held (snd (queue_receive E w)) = held w) \<and>
     (\<forall>e w. held (snd (queue_send E e w)) = held w) \<and>
     (\<forall>w. held (queue_delete E w) = held w) \<and>
     (\<forall>p w. held (gpio_isr_handler_remove E p w) = held w) \<and>
     (\<forall>w. held (snd (sem_create_mutex E w)) = held w) \<and>
     (\<forall>n w. held (snd (queue_create E n w)) = held w) \<and>
     (\<forall>p w. held (gpio_setup E p w) = held w) \<and>
     (\<forall>w. held (snd (gpio_install_isr_service E w)) = held w) \<and>
     (\<forall>p w. held (snd (gpio_isr_handler_add E p w)) = held w)"

text \<open>\<open>lk held b\<close>: the mutex is taken (\<open>b\<close>) or free.\<close>

definition lk :: "('w \<Rightarrow> bool) \<Rightarrow> bool \<Rightarrow> 's \<times> 'w \<Rightarrow> bool" where
  "lk held b sw \<longleftrightarrow> held (snd sw) = b"

lemma lk_ext: "(\<And>w. held (snd (g w)) = held w) \<Longrightarrow> hoare (lk held b) (ext g) (\<lambda>_. lk held b)"
  by (rule hoare_ext) (simp add: lk_def)

lemma lk_ext0: "(\<And>w. held (g w) = held w) \<Longrightarrow> hoare (lk held b) (ext0 g) (\<lambda>_. lk held b)"
  by (rule hoare_ext0) (simp add: lk_def)

lemma lk_obj_mod [hoare_rules]: "hoare (lk held b) (obj_mod f) (\<lambda>_. lk held b)"
  by (rule hoare_obj_mod) (simp add: lk_def)

lemma lk_give: "bus_mutex E held \<Longrightarrow> hoare (lk held b) (ext0 (sem_give E)) (\<lambda>_. lk held False)"
  by (rule hoare_ext0) (simp add: lk_def bus_mutex_def)

lemma lk_take:
  assumes "bus_mutex E held" and "hoare (lk held False) A Q" and "hoare (lk held True) B Q"
  shows "hoare (lk held False)
    (State_Monad.bind (ext (sem_take E ms)) (\<lambda>locked. if \<not> locked then A else B)) Q"
proof (rule hoareI)
  fix sw r sw' assume free: "lk held False sw"
    and run: "run_state (State_Monad.bind (ext (sem_take E ms)) (\<lambda>locked. if \<not> locked then A else B)) sw = (r, sw')"
  let ?t = "sem_take E ms (snd sw)"
  have "held (snd ?t) = fst ?t" using assms(1) free by (simp add: bus_mutex_def lk_def)
  then have "lk held (fst ?t) (fst sw, snd ?t)" by (simp add: lk_def)
  moreover have "run_state (if fst ?t then B else A) (fst sw, snd ?t) = (r, sw')"
    using run by (auto split: if_splits)
  ultimately show "Q r sw'"
    using assms(2,3) by (cases "fst ?t") (auto elim: hoareD)
qed

lemma lk_with_lock:
  assumes "bus_mutex E held" and "hoare (lk held True) body (\<lambda>_. lk held True)"
  shows "hoare (lk held False) (with_i2c_lock E ms d body) (\<lambda>_. lk held False)"
  unfolding with_i2c_lock_def
  by (intro lk_take [OF assms(1)] hoare_rules hoare_bind [OF _ assms(2)] hoare_bind [OF _ lk_give [OF assms(1)]])

lemma lk_take_result:
  assumes "bus_mutex E held"
  shows "hoare (lk held False) (ext (sem_take E ms)) (\<lambda>r. lk held r)"
  using assms by (intro hoare_ext) (simp add: lk_def bus_mutex_def)

lemma lk_prims:
  assumes "bus_mutex E held"
  shows "hoare (lk held b) (ext (env_millis E)) (\<lambda>_. lk held b)"
    and "hoare (lk held b) (ext (reg_get E r)) (\<lambda>_. lk held b)"
    and "hoare (lk held b) (ext0 (reg_put E r v)) (\<lambda>_. lk held b)"
    and "hoare (lk held b) (ext (read_register E r n)) (\<lambda>_. lk held b)"
    and "hoare (lk held b) (ext (write_register E r bs)) (\<lambda>_. lk held b)"
    and "hoare (lk held b) (ext0 (defer_publish E)) (\<lambda>_. lk held b)"
    and "hoare (lk held b) (ext (task_create E)) (\<lambda>_. lk held b)"
    and "hoare (lk held b) (ext0 (task_delete E)) (\<lambda>_. lk held b)"
    and "hoare (lk held b) (ext0 (delay_ms E n)) (\<lambda>_. lk held b)"
    and "hoare (lk held b) (ext (queue_receive E)) (\<lambda>_. lk held b)"
    and "hoare (lk held b) (ext (queue_send E e)) (\<lambda>_. lk held b)"
    and "hoare (lk held b) (ext0 (queue_delete E)) (\<lambda>_. lk held b)"
    and "hoare (lk held b) (ext0 (gpio_isr_handler_remove E p)) (\<lambda>_. lk held b)"
    and "hoare (lk held b) (ext (sem_create_mutex E)) (\<lambda>_. lk held b)"
    and "hoare (lk held b) (ext (queue_create E n)) (\<lambda>_. lk held b)"
    and "hoare (lk held b) (ext0 (gpio_setup E p)) (\<lambda>_. lk held b)"
    and "hoare (lk held b) (ext (gpio_install_isr_service E)) (\<lambda>_. lk held b)"
    and "hoare (lk held b) (ext (gpio_isr_handler_add E p)) (\<lambda>_. lk held b)"
  using assms by (intro lk_ext lk_ext0; simp add: bus_mutex_def)+

lemma lk_small:
  assumes "bus_mutex E held"
  shows "hoare (lk held b) (publish E) (\<lambda>_. lk held b)"
    and "hoare (lk held b) mark_failed (\<lambda>_. lk held b)"
    and "hoare (lk held b) (set_state st) (\<lambda>_. lk held b)"
    and "hoare (lk held b) (set_ams E a) (\<lambda>_. lk held b)"
    and "hoare (lk held b) (check_ams E) (\<lambda>_. lk held b)"
    and "hoare (lk held b) (elapsed_less E since ms) (\<lambda>_. lk held b)"
    and "hoare (lk held b) (fusb_reset_unlocked E) (\<lambda>_. lk held b)"
    and "hoare (lk held b) (set_contract E c) (\<lambda>_. lk held b)"
  unfolding publish_def mark_failed_def set_state_def set_ams_def check_ams_def elapsed_less_def
    fusb_reset_unlocked_def set_contract_def
  by (intro hoare_rules lk_prims [OF assms])+

lemma lk_locked_ops:
  assumes "bus_mutex E held"
  shows "hoare (lk held False) (fusb_reset E) (\<lambda>_. lk held False)"
    and "hoare (lk held False) (enable_auto_crc E) (\<lambda>_. lk held False)"
    and "hoare (lk held False) (check_chip_id E) (\<lambda>_. lk held False)"
    and "hoare (lk held False) (init_fusb_settings E) (\<lambda>_. lk held False)"
    and "hoare (lk held False) (send_message E m) (\<lambda>_. lk held False)"
    and "hoare (lk held False) (read_status E regs) (\<lambda>_. lk held False)"
    and "hoare (lk held False) (read_status_register E r v) (\<lambda>_. lk held False)"
  unfolding fusb_reset_def enable_auto_crc_def check_chip_id_def init_fusb_settings_def send_message_def
    read_status_def read_status_register_def
  by (intro lk_with_lock [OF assms] hoare_rules lk_prims [OF assms] lk_small [OF assms])+

lemma lk_read_message:
  assumes "bus_mutex E held"
  shows "hoare (lk held False) (read_message E m) (\<lambda>_. lk held False)"
  unfolding read_message_def Let_def
  by (intro lk_with_lock [OF assms] hoare_rules lk_prims [OF assms])

lemma lk_handle_message:
  assumes "bus_mutex E held"
  shows "hoare (lk held False) (handle_message E (send_message E) m) (\<lambda>_. lk held False)"
  unfolding handle_message_def handle_data_message_def handle_cntrl_message_def respond_to_src_cap_msg_def
    Let_def case_prod_beta
  by (intro hoare_rules lk_prims [OF assms] lk_small [OF assms] lk_locked_ops [OF assms])

lemma lk_cc_read_loop:
  "bus_mutex E held \<Longrightarrow> hoare (lk held b) (cc_read_loop E k lvl) (\<lambda>_. lk held b)"
  by (induction k) (simp_all, (intro hoare_rules lk_prims | assumption)+)

lemma lk_cc_measure:
  assumes "bus_mutex E held"
  shows "hoare (lk held b) (cc_read_bc_lvl E) (\<lambda>_. lk held b)"
    and "hoare (lk held b) (cc_measurement_failed E) (\<lambda>_. lk held b)"
    and "hoare (lk held b) (cc_select E c1 c2) (\<lambda>_. lk held b)"
  unfolding cc_read_bc_lvl_def cc_measurement_failed_def cc_select_def Let_def
  by (intro hoare_rules lk_prims [OF assms] lk_cc_read_loop [OF assms])+

lemma lk_give_bind:
  "bus_mutex E held \<Longrightarrow> hoare (lk held False) f (\<lambda>_. lk held False) \<Longrightarrow>
   hoare (lk held True) (State_Monad.bind (ext0 (sem_give E)) (\<lambda>_. f)) (\<lambda>_. lk held False)"
  by (rule hoare_bind [OF _ lk_give])

lemma lk_held_bind:
  "hoare (lk held True) m (\<lambda>_. lk held True) \<Longrightarrow> (\<And>x. hoare (lk held True) (f x) (\<lambda>_. lk held False)) \<Longrightarrow>
   hoare (lk held True) (State_Monad.bind m f) (\<lambda>_. lk held False)"
  by (rule hoare_bind)

lemma lk_cc_phases:
  assumes "bus_mutex E held"
  shows "hoare (lk held False) (cc_phase_idle E) (\<lambda>_. lk held False)"
    and "hoare (lk held False) (cc_phase_settle_cc1 E) (\<lambda>_. lk held False)"
    and "hoare (lk held False) (cc_phase_settle_cc2 E) (\<lambda>_. lk held False)"
  unfolding cc_phase_idle_def cc_phase_settle_cc1_def cc_phase_settle_cc2_def
  by (rule lk_take [OF assms] lk_give_bind [OF assms]
      | rule lk_held_bind hoare_rules lk_prims [OF assms] lk_small [OF assms] lk_cc_measure [OF assms])+

lemma lk_check_status:
  assumes "bus_mutex E held"
  shows "hoare (lk held False) (check_status E) (\<lambda>_. lk held False)"
proof -
  note rules = hoare_rules lk_prims [OF assms] lk_small [OF assms] lk_locked_ops [OF assms]
  have "hoare (lk held False) (attach E) (\<lambda>_. lk held False)"
    unfolding attach_def by (intro rules)
  moreover have "hoare (lk held False) (case ph of CC_IDLE \<Rightarrow> cc_phase_idle E
      | SETTLE_CC1 \<Rightarrow> cc_phase_settle_cc1 E | SETTLE_CC2 \<Rightarrow> cc_phase_settle_cc2 E) (\<lambda>_. lk held False)" for ph
    using lk_cc_phases [OF assms] by (cases ph) simp_all
  ultimately have un: "hoare (lk held False) (check_unattached E) (\<lambda>_. lk held False)"
    unfolding check_unattached_def by (intro rules)
  have at: "hoare (lk held False) (check_attached E) (\<lambda>_. lk held False)"
    unfolding check_attached_def by (intro rules)
  have "hoare (lk held False) (case hw of UNATTACHED \<Rightarrow> check_unattached E
      | ATTACHED \<Rightarrow> check_attached E | FAILED \<Rightarrow> ret ()) (\<lambda>_. lk held False)" for hw
    using un at hoare_ret by (cases hw) simp_all
  then show ?thesis unfolding check_status_def by (intro rules)
qed

lemma lk_loop:
  assumes "bus_mutex E held"
  shows "hoare (lk held False) (fusb_loop E) (\<lambda>_. lk held False)"
  unfolding fusb_loop_def
  by (intro hoare_rules lk_prims [OF assms] lk_small [OF assms] lk_locked_ops [OF assms]
      lk_check_status [OF assms])

lemma lk_setup:
  assumes "bus_mutex E held"
  shows "hoare (lk held False) (fusb_setup E) (\<lambda>_. lk held False)"
  unfolding fusb_setup_def
  by (intro hoare_rules lk_prims [OF assms] lk_small [OF assms] lk_locked_ops [OF assms])

text \<open>Taking the mutex if possible, working with or without it, and returning it if it was taken.\<close>

lemma lk_keep_bind:
  "hoare (lk held b) m (\<lambda>_. lk held b) \<Longrightarrow> (\<And>x. hoare (lk held b) (f x) (\<lambda>_. lk held False)) \<Longrightarrow>
   hoare (lk held b) (State_Monad.bind m f) (\<lambda>_. lk held False)"
  by (rule hoare_bind)

lemma lk_give_if:
  assumes "bus_mutex E held"
  shows "hoare (lk held b) (if b then ext0 (sem_give E) else ret ()) (\<lambda>_. lk held False)"
  using lk_give [OF assms, of b] hoare_ret [of "\<lambda>_. lk held False"] by (cases b) simp_all

lemma lk_give_if_bind:
  assumes "bus_mutex E held" and "\<And>x. hoare (lk held False) (f x) (\<lambda>_. lk held False)"
  shows "hoare (lk held b) (State_Monad.bind (if b then ext0 (sem_give E) else ret ()) f) (\<lambda>_. lk held False)"
  using assms(2) lk_give_if [OF assms(1)] by (rule hoare_bind)

lemma lk_take_bind:
  assumes "bus_mutex E held" and "\<And>b. hoare (lk held b) (f b) (\<lambda>_. lk held False)"
  shows "hoare (lk held False) (State_Monad.bind (ext (sem_take E ms)) f) (\<lambda>_. lk held False)"
    and "hoare (lk held False) (State_Monad.bind (if h then ext (sem_take E ms) else ret False) f)
      (\<lambda>_. lk held False)"
proof -
  show take: "hoare (lk held False) (State_Monad.bind (ext (sem_take E ms)) f) (\<lambda>_. lk held False)"
    using assms(2) lk_take_result [OF assms(1)] by (rule hoare_bind)
  show "hoare (lk held False) (State_Monad.bind (if h then ext (sem_take E ms) else ret False) f)
      (\<lambda>_. lk held False)"
    using take assms(2) [of False] by (cases h) simp_all
qed

lemma lk_cleanup:
  assumes "bus_mutex E held"
  shows "hoare (lk held False) (fusb_cleanup E) (\<lambda>_. lk held False)"
  unfolding fusb_cleanup_def
  by (rule lk_take_bind [OF assms] lk_give_if [OF assms]
      | rule lk_keep_bind hoare_rules lk_prims [OF assms])+

lemma lk_trigger_task:
  assumes "bus_mutex E held"
  shows "hoare (lk held False) (trigger_task_start E) (\<lambda>_. lk held False)"
    and "hoare (lk held False) (trigger_task_step E) (\<lambda>_. lk held False)"
proof -
  show "hoare (lk held False) (trigger_task_start E) (\<lambda>_. lk held False)"
    unfolding trigger_task_start_def
    by (rule lk_take_bind [OF assms] lk_give_if_bind [OF assms]
      | rule lk_keep_bind hoare_rules lk_prims [OF assms] lk_small [OF assms])+
  have "hoare (lk held False) (case item of None \<Rightarrow> ret ()
      | Some info \<Rightarrow> do { _ \<leftarrow> handle_message E (send_message E) (pe_msg info); ret () }) (\<lambda>_. lk held False)"
    for item
    by (cases item) (simp_all, (intro hoare_rules lk_handle_message [OF assms])+)
  then show "hoare (lk held False) (trigger_task_step E) (\<lambda>_. lk held False)"
    unfolding trigger_task_step_def by (intro hoare_rules lk_prims [OF assms])
qed

lemma lk_rx_drain_turn:
  assumes "bus_mutex E held"
  shows "hoare (lk held False) (rx_drain_turn E st1 msg) (\<lambda>_. lk held False)"
  unfolding rx_drain_turn_def
  by (intro hoare_rules lk_prims [OF assms] lk_locked_ops [OF assms] lk_read_message [OF assms])

section \<open>The receive loop\<close>

text \<open>The loop of the reader task as iterated turns of its body.\<close>

fun rx_iter :: "'w fusb_env \<Rightarrow> nat \<Rightarrow> u8 \<times> pd_msg \<times> (fusb \<times> 'w) \<Rightarrow> u8 \<times> pd_msg \<times> (fusb \<times> 'w)" where
  "rx_iter E 0 c = c"
| "rx_iter E (Suc n) (st1, msg, sw) =
     (let t = run_state (rx_drain_turn E st1 msg) sw in rx_iter E n (fst (fst t), snd (fst t), snd t))"

definition rx_empty :: "u8 \<times> pd_msg \<times> (fusb \<times> 'w) \<Rightarrow> bool" where
  "rx_empty c \<longleftrightarrow> fst c AND FUSB_STATUS1_RX_EMPTY \<noteq> 0"

definition rx_stops_at :: "'w fusb_env \<Rightarrow> nat \<Rightarrow> u8 \<times> pd_msg \<times> (fusb \<times> 'w) \<Rightarrow> bool" where
  "rx_stops_at E n c \<longleftrightarrow> rx_empty (rx_iter E n c) \<and> (\<forall>i<n. \<not> rx_empty (rx_iter E i c))"

lemma rx_stops_at_0: "rx_stops_at E 0 (st1, msg, sw) \<longleftrightarrow> st1 AND FUSB_STATUS1_RX_EMPTY \<noteq> 0"
  by (simp add: rx_stops_at_def rx_empty_def)

lemma rx_stops_at_Suc:
  "rx_stops_at E (Suc n) (st1, msg, sw) \<longleftrightarrow>
   st1 AND FUSB_STATUS1_RX_EMPTY = 0 \<and>
   (let t = run_state (rx_drain_turn E st1 msg) sw in rx_stops_at E n (fst (fst t), snd (fst t), snd t))"
  by (auto simp: rx_stops_at_def rx_empty_def Let_def All_less_Suc2)

lemma rx_drain_Some:
  assumes "rx_drain E st1 msg sw = Some y"
  shows "\<exists>n. rx_stops_at E n (st1, msg, sw) \<and> y = rx_iter E n (st1, msg, sw)"
  using _ assms
proof (rule rx_drain.raw_induct)
  fix rec E st1 msg sw and y :: "u8 \<times> pd_msg \<times> (fusb \<times> 'b)"
  assume IH: "\<And>E st1 msg sw y. rec E st1 msg sw = Some y \<Longrightarrow>
      \<exists>n. rx_stops_at E n (st1, msg, sw) \<and> y = rx_iter E n (st1, msg, sw)"
    and run: "(if st1 AND FUSB_STATUS1_RX_EMPTY \<noteq> 0 then Some (st1, msg, sw)
      else let t = run_state (rx_drain_turn E st1 msg) sw
           in rec E (fst (fst t)) (snd (fst t)) (snd t)) = Some y"
  let ?t = "run_state (rx_drain_turn E st1 msg) sw"
  show "\<exists>n. rx_stops_at E n (st1, msg, sw) \<and> y = rx_iter E n (st1, msg, sw)"
  proof (cases "st1 AND FUSB_STATUS1_RX_EMPTY = 0")
    case False
    then have "rx_stops_at E 0 (st1, msg, sw)" by (simp add: rx_stops_at_0)
    moreover have "rx_iter E 0 (st1, msg, sw) = y" using run False by simp
    ultimately show ?thesis by metis
  next
    case True
    then have "rec E (fst (fst ?t)) (snd (fst ?t)) (snd ?t) = Some y"
      using run by (simp add: Let_def)
    from IH [OF this] obtain n where "rx_stops_at E n (fst (fst ?t), snd (fst ?t), snd ?t)"
      "y = rx_iter E n (fst (fst ?t), snd (fst ?t), snd ?t)"
      by blast
    with True have "rx_stops_at E (Suc n) (st1, msg, sw) \<and> y = rx_iter E (Suc n) (st1, msg, sw)"
      by (simp add: rx_stops_at_Suc Let_def)
    then show ?thesis by blast
  qed
qed

lemma rx_drain_stops:
  "rx_stops_at E n (st1, msg, sw) \<Longrightarrow> rx_drain E st1 msg sw = Some (rx_iter E n (st1, msg, sw))"
proof (induction n arbitrary: st1 msg sw)
  case 0
  then show ?case by (subst rx_drain.simps) (simp add: rx_stops_at_0)
next
  case (Suc n)
  then show ?case by (subst rx_drain.simps) (simp add: rx_stops_at_Suc Let_def)
qed

lemma lk_rx_iter:
  assumes "bus_mutex E held" and "lk held False (snd (snd c))"
  shows "lk held False (snd (snd (rx_iter E n c)))"
  using assms(2)
proof (induction n arbitrary: c)
  case (Suc n)
  obtain st1 msg sw where c: "c = (st1, msg, sw)" by (cases c) auto
  have "lk held False (snd (run_state (rx_drain_turn E st1 msg) sw))"
    using lk_rx_drain_turn [OF assms(1), of st1 msg] Suc.prems c
    by (auto elim!: hoareD intro: surjective_pairing)
  with Suc.IH show ?case by (simp add: c Let_def)
qed simp

lemma lk_reader_step:
  assumes "bus_mutex E held" and "lk held False sw" and "reader_task_step E regs msg sw = Some (r, m, sw')"
  shows "lk held False sw'"
proof -
  obtain ok regs' sw1 where rs: "run_state (read_status E regs) sw = ((ok, regs'), sw1)"
    by (cases "run_state (read_status E regs) sw") auto
  have 1: "lk held False sw1"
    using hoareD [OF lk_locked_ops(6) [OF assms(1)] assms(2) rs] .
  then have 2: "lk held False ((fst sw1)\<lparr>vbus_lost := True\<rparr>, snd sw1)" by (simp add: lk_def)
  have drain: "lk held False sw3" if "rx_drain E st m' sw2 = Some (st1, m'', sw3)" "lk held False sw2"
    for st m' sw2 st1 m'' sw3
    using rx_drain_Some [OF that(1)] lk_rx_iter [OF assms(1), of "(st, m', sw2)"] that(2)
    by (metis snd_conv)
  show ?thesis
    using assms(3) 1 2
    by (cases sw1) (auto simp: reader_task_step_def rs Let_def bind_eq_Some_conv dest: drain split: if_splits)
qed

text \<open>C7: the mutex discipline. From a state in which the bus mutex is free, every entry point of the
  driver (setup, loop, shutdown, the start and one turn of each task) ends with the mutex free, on every
  path: failed takes, bus errors, early returns and failures to create tasks included.\<close>

theorem bus_mutex_returned:
  assumes "bus_mutex E held" and "\<not> held w"
  shows "\<not> held (snd (snd (run_state (fusb_setup E) (s, w)))) \<and>
    \<not> held (snd (snd (run_state (fusb_loop E) (s, w)))) \<and>
    \<not> held (snd (snd (run_state (fusb_cleanup E) (s, w)))) \<and>
    \<not> held (snd (snd (run_state (trigger_task_start E) (s, w)))) \<and>
    \<not> held (snd (snd (run_state (trigger_task_step E) (s, w)))) \<and>
    \<not> held (snd (snd (run_state (reader_task_start E) (s, w)))) \<and>
    (\<forall>regs msg r m s' w'. reader_task_step E regs msg (s, w) = Some (r, m, (s', w')) \<longrightarrow> \<not> held w')"
proof -
  have lk: "lk held False (s, w)" using assms(2) by (simp add: lk_def)
  have run: "\<not> held (snd (snd (run_state p (s, w))))" if "hoare (lk held False) p (\<lambda>_. lk held False)"
    for p :: "('a, 'b) fusb_prog"
    using hoareD [OF that lk, of "fst (run_state p (s, w))" "snd (run_state p (s, w))"] by (simp add: lk_def)
  have start: "hoare (lk held False) (reader_task_start E) (\<lambda>_. lk held False)"
    unfolding reader_task_start_def by (intro hoare_rules lk_locked_ops [OF assms(1)])
  have "\<not> held w'" if "reader_task_step E regs msg (s, w) = Some (r, m, (s', w'))" for regs msg r m s' w'
    using lk_reader_step [OF assms(1) lk that] by (simp add: lk_def)
  then show ?thesis
    using run [OF lk_setup] run [OF lk_loop] run [OF lk_cleanup] run [OF lk_trigger_task(1)]
      run [OF lk_trigger_task(2)] run [OF start] assms(1) by blast
qed

theorem bus_mutex_returned_witness:
  "\<not> ew_held (snd (snd (run_state (fusb_loop ex_fusb_env) (fusb_init, ex_w0))))"
proof -
  have "bus_mutex ex_fusb_env ew_held" "\<not> ew_held ex_w0"
    by (simp_all add: bus_mutex_def ex_fusb_env_def ex_w0_def)
  from bus_mutex_returned [OF this, of fusb_init] show ?thesis by blast
qed

end
