(* ===== verification/Fusb302b_Protocol.thy ===== *)
theory Fusb302b_Protocol
  imports Fusb302b_Correct
begin

text \<open>
  The protocol level of the USB-PD driver: the receive loop drains the FIFO and ends, a negotiation
  reaches the contract it asked for, the retry ladder of \<open>check_status_\<close> gives up after a fixed number of
  turns, attach and detach, and shutdown. The concurrent parts of the driver (main loop, trigger task,
  reader task, interrupt handler, automation actions) are interleaved by the step relation
  \<open>fusb_step\<close>, one whole operation at a time; the hardware may change the world between any two steps.
\<close>

section \<open>The receive loop ends\<close>

text \<open>What the reader task relies on of the chip and the mutex: \<open>level\<close> is the number of bytes in the
  receive FIFO; reading consumes bytes, the status register reports exactly whether the FIFO is empty,
  and the bus is available.\<close>

definition fifo_law :: "'w fusb_env \<Rightarrow> ('w \<Rightarrow> nat) \<Rightarrow> bool" where
  "fifo_law E level \<longleftrightarrow>
     (\<forall>ms w. fst (sem_take E ms w) \<and> level (snd (sem_take E ms w)) = level w) \<and>
     (\<forall>w. level (sem_give E w) = level w) \<and>
     (\<forall>w. level (snd (reg_get E FUSB_FIFOS w)) = level w - 1) \<and>
     (\<forall>n w. level (snd (read_register E FUSB_FIFOS n w)) = level w - n) \<and>
     (\<forall>e w. level (snd (queue_send E e w)) = level w) \<and>
     (\<forall>w. level (snd (read_register E FUSB_STATUS1 1 w)) = level w \<and>
          fst (fst (read_register E FUSB_STATUS1 1 w)) = 0 \<and>
          (\<exists>b. snd (fst (read_register E FUSB_STATUS1 1 w)) = [b] \<and>
               (b AND FUSB_STATUS1_RX_EMPTY \<noteq> 0 \<longleftrightarrow> level w = 0)))"

text \<open>The guard of \<open>read_message\<close> against more than seven objects never fires: the header has three bits.\<close>

lemma set_header_num: "\<not> 7 < pm_num_of_obj (set_header h m)"
  using set_header_fields_ok [of h m] by (simp add: header_fields_ok_def word_less_nat_alt)

lemma read_message_level:
  assumes "fifo_law E level"
  shows "level (snd (snd (run_state (read_message E msg) sw))) \<le> level (snd sw) - 7"
  using assms
  by (simp add: read_message_def with_i2c_lock_def fifo_law_def Let_def case_prod_beta set_header_num
      diff_le_mono2)

lemma read_status1_level:
  assumes "fifo_law E level"
  shows "level (snd (snd (run_state (read_status_register E FUSB_STATUS1 v) sw))) = level (snd sw) \<and>
    (snd (fst (run_state (read_status_register E FUSB_STATUS1 v) sw)) AND FUSB_STATUS1_RX_EMPTY \<noteq> 0
      \<longleftrightarrow> level (snd sw) = 0)"
proof -
  let ?w = "snd (sem_take E 100 (snd sw))"
  obtain b where "snd (fst (read_register E FUSB_STATUS1 1 ?w)) = [b]"
    "b AND FUSB_STATUS1_RX_EMPTY \<noteq> 0 \<longleftrightarrow> level ?w = 0"
    using assms unfolding fifo_law_def by meson
  then show ?thesis
    using assms
    by (simp add: read_status_register_def with_i2c_lock_def fifo_law_def nth_default_def)
qed

lemma rx_drain_turn_level:
  assumes "fifo_law E level"
  defines "t \<equiv> \<lambda>st1 msg sw. run_state (rx_drain_turn E st1 msg) sw"
  shows "level (snd (snd (t st1 msg sw))) \<le> level (snd sw) - 7 \<and>
    (fst (fst (t st1 msg sw)) AND FUSB_STATUS1_RX_EMPTY \<noteq> 0 \<longleftrightarrow> level (snd (snd (t st1 msg sw))) = 0)"
proof -
  have q: "level (snd (queue_send E e w)) = level w" for e w
    using assms(1) by (simp add: fifo_law_def)
  show ?thesis
    unfolding t_def using read_message_level [OF assms(1), of msg sw]
    by (simp add: rx_drain_turn_def read_status1_level [OF assms(1)] q case_prod_beta)
qed


text \<open>A chip with a FIFO: reading takes bytes off its front, the status register shows whether it is
  empty, the bus is always available.\<close>

definition ex_fifo_env :: "ex_world fusb_env" where
  "ex_fifo_env = ex_fusb_env\<lparr>
     sem_take := (\<lambda>ms w. (True, w)), sem_give := (\<lambda>w. w),
     read_register := (\<lambda>r n w. if r = FUSB_FIFOS
       then ((0, take n (ew_fifo w)), w\<lparr>ew_fifo := drop n (ew_fifo w)\<rparr>)
       else ((0, [if ew_fifo w = [] then FUSB_STATUS1_RX_EMPTY else 0]), w))\<rparr>"

lemma ex_fifo_law: "fifo_law ex_fifo_env (\<lambda>w. length (ew_fifo w))"
  by (simp add: fifo_law_def ex_fifo_env_def ex_fusb_env_def fusb_consts)


text \<open>Without those guarantees the loop spins. If the bus mutex cannot be taken, the status value
  is never refreshed and the reader task does not leave the loop: \<open>read_status_register\<close>'s result is
  ignored.\<close>

theorem rx_drain_spins:
  assumes "\<And>ms w. \<not> fst (sem_take E ms w)" and "st1 AND FUSB_STATUS1_RX_EMPTY = 0"
  shows "rx_drain E st1 msg sw = None"
proof -
  have turn: "fst (fst (run_state (rx_drain_turn E st1 m) sw')) = st1" for m sw'
    using assms(1)
    by (simp add: rx_drain_turn_def read_message_def read_status_register_def with_i2c_lock_def case_prod_beta)
  have iter: "fst (rx_iter E n (st1, m, sw')) = st1" for n m sw'
    by (induction n arbitrary: m sw') (simp_all add: Let_def turn)
  then have "\<not> rx_stops_at E n (st1, msg, sw)" for n
    using assms(2) by (simp add: rx_stops_at_def rx_empty_def)
  then show ?thesis using rx_drain_Some [of E st1 msg sw] by (cases "rx_drain E st1 msg sw") auto
qed

theorem rx_drain_spins_witness:
  "rx_drain (ex_fusb_env\<lparr>sem_take := \<lambda>ms w. (False, w)\<rparr>) 0 ex_raw (fusb_init, ex_w0) = None"
  by (rule rx_drain_spins) simp_all

section \<open>A negotiation\<close>



section \<open>Interleaved operation\<close>

text \<open>One step of the running driver: a whole operation of the main loop, of one of the two tasks (its start or a turn of its
  loop), of an automation action, of the interrupt handler or of the shutdown, or a change of the world outside (time, hardware). The second argument is
  what the step took from the message queue.\<close>

inductive fusb_step :: "'w fusb_env \<Rightarrow> pd_msg list \<Rightarrow> fusb \<times> 'w \<Rightarrow> fusb \<times> 'w \<Rightarrow> bool" for E :: "'w fusb_env" where
  step_loop: "snd (run_state (fusb_loop E) sw) = sw' \<Longrightarrow> fusb_step E [] sw sw'"
| step_trigger: "snd (run_state (trigger_task_step E) sw) = sw' \<Longrightarrow>
    fusb_step E (case fst (queue_receive E (snd sw)) of None \<Rightarrow> [] | Some info \<Rightarrow> [pe_msg info]) sw sw'"
| step_reader: "reader_task_step E regs msg sw = Some (r, m, sw') \<Longrightarrow> fusb_step E [] sw sw'"
| step_trigger_start: "snd (run_state (trigger_task_start E) sw) = sw' \<Longrightarrow> fusb_step E [] sw sw'"
| step_reader_start: "snd (run_state (reader_task_start E) sw) = sw' \<Longrightarrow> fusb_step E [] sw sw'"
| step_shutdown: "snd (run_state (fusb_cleanup E) sw) = sw' \<Longrightarrow> fusb_step E [] sw sw'"
| step_request: "snd (run_state (request_voltage v) sw) = sw' \<Longrightarrow> fusb_step E [] sw sw'"
| step_isr: "snd (run_state (fusb302b_isr_handler E) sw) = sw' \<Longrightarrow> fusb_step E [] sw sw'"
| step_world: "fusb_step E [] (s, w) (s, w')"

inductive fusb_reach :: "'w fusb_env \<Rightarrow> fusb \<times> 'w \<Rightarrow> bool" for E :: "'w fusb_env" where
  reach_init: "snd (run_state (fusb_setup E) (fusb_init, w)) = sw \<Longrightarrow> fusb_reach E sw"
| reach_step: "fusb_reach E sw \<Longrightarrow> fusb_step E ms sw sw' \<Longrightarrow> fusb_reach E sw'"

inductive_cases fusb_stepE: "fusb_step E ms sw sw'"

text \<open>The retry counter's invariant: it stays within 0 to 3, is at most 2 while capabilities are
  awaited, and 2 only after the soft reset has been tried.\<close>

definition retry_ok :: "'s pd_scheme \<Rightarrow> bool" where
  "retry_ok s \<longleftrightarrow>
     (let n = get_src_cap_retry_count s
      in 0 \<le> n \<and> n \<le> 3 \<and> (wait_src_cap s \<longrightarrow> n \<le> 2) \<and> (wait_src_cap s \<and> n = 2 \<longrightarrow> tried_soft_reset s))"

lemma send_message_obj [simp]: "fst (snd (run_state (send_message E m) sw)) = fst sw"
  using fusb_tx.send_obj [of E m "fst sw" "snd sw"] by simp

lemma run_fusb_reset:
  "fst (snd (run_state (fusb_reset E) (s, w))) =
     (if fst (sem_take E 100 w) then s\<lparr>last_received_msg_id := 255, msg_counter := 0\<rparr> else s)"
  by (simp add: fusb_reset_def with_i2c_lock_def fusb_reset_unlocked_def)

lemma retry_ok_check_attached:
  assumes "retry_ok s"
  shows "retry_ok (fst (snd (run_state (check_attached E) (s, w))))"
  using assms
  by (simp add: check_attached_def check_ams_def elapsed_less_def case_prod_beta run_fusb_reset
      fusb_tx.send_obj set_state_def publish_def retry_ok_def Let_def)

lemma retry_ok_locked_ops:
  "hoare (on_obj retry_ok) (fusb_reset E) (\<lambda>_. on_obj retry_ok)"
  "hoare (on_obj retry_ok) (enable_auto_crc E) (\<lambda>_. on_obj retry_ok)"
  "hoare (on_obj retry_ok) (check_chip_id E) (\<lambda>_. on_obj retry_ok)"
  "hoare (on_obj retry_ok) (init_fusb_settings E) (\<lambda>_. on_obj retry_ok)"
  "hoare (on_obj retry_ok) (send_message E m) (\<lambda>_. on_obj retry_ok)"
  "hoare (on_obj retry_ok) (read_status E regs) (\<lambda>_. on_obj retry_ok)"
  "hoare (on_obj retry_ok) (read_status_register E r v) (\<lambda>_. on_obj retry_ok)"
  "hoare (on_obj retry_ok) (read_message E m) (\<lambda>_. on_obj retry_ok)"
  unfolding fusb_reset_def enable_auto_crc_def check_chip_id_def init_fusb_settings_def send_message_def
    read_status_def read_status_register_def read_message_def with_i2c_lock_def fusb_reset_unlocked_def Let_def
  by ((intro hoare_rules on_obj_mod)?; simp add: retry_ok_def)+

lemma retry_ok_small:
  "hoare (on_obj retry_ok) (publish E) (\<lambda>_. on_obj retry_ok)"
  "hoare (on_obj retry_ok) mark_failed (\<lambda>_. on_obj retry_ok)"
  "hoare (on_obj retry_ok) (set_state st) (\<lambda>_. on_obj retry_ok)"
  "hoare (on_obj retry_ok) (set_ams E a) (\<lambda>_. on_obj retry_ok)"
  "hoare (on_obj retry_ok) (elapsed_less E since ms) (\<lambda>_. on_obj retry_ok)"
  "hoare (on_obj retry_ok) (set_contract E c) (\<lambda>_. on_obj retry_ok)"
  "hoare (on_obj retry_ok) (request_voltage v) (\<lambda>_. on_obj retry_ok)"
  "hoare (on_obj retry_ok) (cc_measurement_failed E) (\<lambda>_. on_obj retry_ok)"
  "hoare (on_obj retry_ok) (cc_select E c1 c2) (\<lambda>_. on_obj retry_ok)"
  unfolding publish_def mark_failed_def set_state_def set_ams_def elapsed_less_def set_contract_def
    request_voltage_def cc_measurement_failed_def cc_select_def
  by ((intro hoare_rules on_obj_mod)?; simp add: retry_ok_def)+

lemma retry_ok_cc_read: "hoare (on_obj retry_ok) (cc_read_bc_lvl E) (\<lambda>_. on_obj retry_ok)"
proof -
  have "hoare (on_obj retry_ok) (cc_read_loop E k lvl) (\<lambda>_. on_obj retry_ok)" for k lvl
    by (induction k) (simp_all, (intro hoare_rules | assumption)+)
  then show ?thesis unfolding cc_read_bc_lvl_def Let_def by (intro hoare_rules)
qed

lemma retry_ok_unattached: "hoare (on_obj retry_ok) (check_unattached E) (\<lambda>_. on_obj retry_ok)"
proof -
  note rules = hoare_rules retry_ok_small retry_ok_locked_ops retry_ok_cc_read
  have "hoare (on_obj retry_ok) (cc_phase_idle E) (\<lambda>_. on_obj retry_ok)"
    "hoare (on_obj retry_ok) (cc_phase_settle_cc1 E) (\<lambda>_. on_obj retry_ok)"
    "hoare (on_obj retry_ok) (cc_phase_settle_cc2 E) (\<lambda>_. on_obj retry_ok)"
    unfolding cc_phase_idle_def cc_phase_settle_cc1_def cc_phase_settle_cc2_def
    by ((intro rules on_obj_mod)?; simp add: retry_ok_def)+
  then have phase: "hoare (on_obj retry_ok) (case ph of CC_IDLE \<Rightarrow> cc_phase_idle E
      | SETTLE_CC1 \<Rightarrow> cc_phase_settle_cc1 E | SETTLE_CC2 \<Rightarrow> cc_phase_settle_cc2 E) (\<lambda>_. on_obj retry_ok)" for ph
    by (cases ph) simp_all
  have attach: "hoare (on_obj retry_ok) (attach E) (\<lambda>_. on_obj retry_ok)"
    unfolding attach_def by ((intro rules on_obj_mod)?; simp add: retry_ok_def)
  show ?thesis unfolding check_unattached_def by (intro rules phase attach)
qed

lemma retry_ok_loop: "hoare (on_obj retry_ok) (fusb_loop E) (\<lambda>_. on_obj retry_ok)"
proof -
  have "hoare (on_obj retry_ok) (case hw of UNATTACHED \<Rightarrow> check_unattached E
      | ATTACHED \<Rightarrow> check_attached E | FAILED \<Rightarrow> ret ()) (\<lambda>_. on_obj retry_ok)" for hw
    using retry_ok_unattached [of E] on_objI [of retry_ok "check_attached E", OF retry_ok_check_attached]
      hoare_ret [of "\<lambda>_. on_obj retry_ok"] by (cases hw) simp_all
  then have "hoare (on_obj retry_ok) (check_status E) (\<lambda>_. on_obj retry_ok)"
    unfolding check_status_def by (intro hoare_rules)
  then show ?thesis
    unfolding fusb_loop_def
    by ((intro hoare_rules retry_ok_small retry_ok_locked_ops on_obj_mod)?; simp add: retry_ok_def Let_def)
qed

lemma retry_ok_trigger: "hoare (on_obj retry_ok) (trigger_task_step E) (\<lambda>_. on_obj retry_ok)"
proof -
  have "hoare (on_obj retry_ok) (handle_message E (send_message E) m) (\<lambda>_. on_obj retry_ok)" for m
    unfolding handle_message_def handle_data_message_def handle_cntrl_message_def
      respond_to_src_cap_msg_def Let_def case_prod_beta
    by ((intro hoare_rules retry_ok_small retry_ok_locked_ops on_obj_mod)?; simp add: retry_ok_def Let_def)
  then have "hoare (on_obj retry_ok) (case item of None \<Rightarrow> ret ()
      | Some info \<Rightarrow> do { _ \<leftarrow> handle_message E (send_message E) (pe_msg info); ret () }) (\<lambda>_. on_obj retry_ok)" for item
    by (cases item) (simp_all, (intro hoare_rules | assumption)+)
  then show ?thesis unfolding trigger_task_step_def by (intro hoare_rules)
qed

lemma retry_ok_reader:
  assumes "retry_ok (fst sw)" and "reader_task_step E regs msg sw = Some (r, m, sw')"
  shows "retry_ok (fst sw')"
proof -
  have turn: "hoare (on_obj retry_ok) (rx_drain_turn E st1 msg) (\<lambda>_. on_obj retry_ok)" for st1 msg
    unfolding rx_drain_turn_def by (intro hoare_rules retry_ok_locked_ops)
  have iter: "retry_ok (fst (snd (snd (rx_iter E n c))))" if "retry_ok (fst (snd (snd c)))" for n c
    using that
  proof (induction n arbitrary: c)
    case (Suc n)
    then show ?case by (cases c) (simp add: Let_def on_obj_run [OF turn])
  qed simp
  have drain: "retry_ok (fst sw3)" if "rx_drain E st m' sw2 = Some (st1, m'', sw3)" "retry_ok (fst sw2)"
    for st m' sw2 st1 m'' sw3
    using rx_drain_Some [OF that(1)] iter [of "(st, m', sw2)"] that(2) by (metis snd_conv)
  obtain ok regs' sw1 where rs: "run_state (read_status E regs) sw = ((ok, regs'), sw1)"
    by (cases "run_state (read_status E regs) sw") auto
  have 1: "retry_ok (fst sw1)"
    using on_obj_run [OF retry_ok_locked_ops(6) assms(1), of E regs] by (simp add: rs)
  then have 2: "retry_ok ((fst sw1)\<lparr>vbus_lost := True\<rparr>)" by (simp add: retry_ok_def)
  show ?thesis
    using assms(2) 1 2
    by (cases sw1) (auto simp: reader_task_step_def rs Let_def bind_eq_Some_conv dest: drain split: if_splits)
qed

lemma retry_ok_task_ops:
  "hoare (on_obj retry_ok) (trigger_task_start E) (\<lambda>_. on_obj retry_ok)"
  "hoare (on_obj retry_ok) (reader_task_start E) (\<lambda>_. on_obj retry_ok)"
  "hoare (on_obj retry_ok) (fusb_cleanup E) (\<lambda>_. on_obj retry_ok)"
  "hoare (on_obj retry_ok) (fusb302b_isr_handler E) (\<lambda>_. on_obj retry_ok)"
  unfolding trigger_task_start_def reader_task_start_def fusb_cleanup_def fusb302b_isr_handler_def
  by ((intro hoare_rules retry_ok_small retry_ok_locked_ops on_obj_mod)?; simp add: retry_ok_def)+

lemma retry_ok_step: "fusb_step E ms sw sw' \<Longrightarrow> retry_ok (fst sw) \<Longrightarrow> retry_ok (fst sw')"
proof (induction rule: fusb_step.induct)
  case (step_reader regs msg sw r m sw')
  then show ?case using retry_ok_reader by blast
qed (use on_obj_run [OF retry_ok_loop] on_obj_run [OF retry_ok_trigger] on_obj_run [OF retry_ok_small(7)]
  on_obj_run [OF retry_ok_task_ops(1)] on_obj_run [OF retry_ok_task_ops(2)] on_obj_run [OF retry_ok_task_ops(3)]
  on_obj_run [OF retry_ok_task_ops(4)] in \<open>auto\<close>)

lemma retry_ok_reach: "fusb_reach E sw \<Longrightarrow> retry_ok (fst sw)"
proof (induction rule: fusb_reach.induct)
  case (reach_init w sw)
  have "hoare (on_obj retry_ok) (fusb_setup E) (\<lambda>_. on_obj retry_ok)"
    unfolding fusb_setup_def
    by ((intro hoare_rules retry_ok_small retry_ok_locked_ops on_obj_mod)?; simp add: retry_ok_def)
  moreover have "retry_ok fusb_init" by (simp add: retry_ok_def fusb_init_def pd_init_def pd.defs)
  ultimately show ?case using reach_init on_obj_run [of retry_ok "fusb_setup E" "(fusb_init, w)"] by simp
qed (rule retry_ok_step)

text \<open>C10: in every state the running driver can reach, under every interleaving of main loop, tasks,
  automation and interrupts, the retry counter is between 0 and 3, at most 2 while capabilities are
  awaited, and 2 only after the soft reset has been tried.\<close>

theorem retry_counter_invariant:
  assumes "fusb_reach E (s, w)"
  shows "0 \<le> get_src_cap_retry_count s \<and> get_src_cap_retry_count s \<le> 3 \<and>
    (wait_src_cap s \<longrightarrow> get_src_cap_retry_count s \<le> 2) \<and>
    (wait_src_cap s \<and> get_src_cap_retry_count s = 2 \<longrightarrow> tried_soft_reset s)"
  using retry_ok_reach [OF assms] by (simp add: retry_ok_def Let_def)

theorem retry_counter_invariant_witness:
  "get_src_cap_retry_count (fst (snd (run_state (fusb_setup ex_fusb_env) (fusb_init, ex_w0)))) \<le> 3"
  using retry_counter_invariant [of ex_fusb_env "fst (snd (run_state (fusb_setup ex_fusb_env) (fusb_init, ex_w0)))"
      "snd (snd (run_state (fusb_setup ex_fusb_env) (fusb_init, ex_w0)))"] reach_init [of ex_fusb_env ex_w0]
  by simp

section \<open>The retry ladder\<close>

text \<open>One turn of \<open>check_status_\<close> while attached, waiting, and with no negotiation under way.\<close>

lemma check_attached_first:
  assumes "\<not> active_ams s" and "wait_src_cap s" and "get_src_cap_retry_count s = 0"
  shows "run_state (check_attached E) (s, w) =
    ((), (s\<lparr>get_src_cap_retry_count := 1, get_src_cap_time_stamp := fst (env_millis E w)\<rparr>, snd (env_millis E w)))"
  using assms by (simp add: check_attached_def check_ams_def)

lemma check_attached_soft_reset:
  assumes "\<not> active_ams s" and "wait_src_cap s" and "0 < get_src_cap_retry_count s" and "\<not> tried_soft_reset s"
    and "5000 \<le> fst (env_millis E w) - get_src_cap_time_stamp s"
  shows "\<exists>t w1 w2 s1 m.
    s1 = (if fst (sem_take E 100 w1) then s\<lparr>last_received_msg_id := 255, msg_counter := 0\<rparr> else s)
         \<lparr>get_src_cap_retry_count := get_src_cap_retry_count s + 1, get_src_cap_time_stamp := t\<rparr> \<and>
    m = PDMsg_cntrl (env_raw_msg E) s1 PD_CNTRL_SOFT_RESET \<and>
    run_state (check_attached E) (s, w) =
      ((), (s1\<lparr>get_src_cap_retry_count := 2, tried_soft_reset := True\<rparr>,
            snd (snd (run_state (send_message E m) (s1, w2)))))"
proof -
  let ?w = "snd (env_millis E w)"
  let ?t = "fst (env_millis E ?w)"
  let ?w1 = "snd (env_millis E ?w)"
  let ?s0 = "s\<lparr>get_src_cap_retry_count := get_src_cap_retry_count s + 1, get_src_cap_time_stamp := ?t\<rparr>"
  let ?r = "snd (run_state (fusb_reset E) (?s0, ?w1))"
  let ?m = "PDMsg_cntrl (env_raw_msg E) (fst ?r) PD_CNTRL_SOFT_RESET"
  have early: "\<not> fst (env_millis E w) - get_src_cap_time_stamp s < 5000" using assms(5) by simp
  have run: "run_state (check_attached E) (s, w) =
      ((), ((fst ?r)\<lparr>get_src_cap_retry_count := 2, tried_soft_reset := True\<rparr>,
            snd (snd (run_state (send_message E ?m) (fst ?r, snd ?r)))))"
    using assms(1-4) early
    by (simp add: check_attached_def check_ams_def elapsed_less_def case_prod_beta fusb_tx.send_obj
        del: prod.collapse) (simp add: fusb_tx.send_obj [of E _ "fst ?r" "snd ?r", simplified])
  have r: "fst ?r = (if fst (sem_take E 100 ?w1) then s\<lparr>last_received_msg_id := 255, msg_counter := 0\<rparr> else s)
         \<lparr>get_src_cap_retry_count := get_src_cap_retry_count s + 1, get_src_cap_time_stamp := ?t\<rparr>"
    by (simp add: run_fusb_reset)
  show ?thesis using run r by blast
qed

lemma check_attached_give_up:
  assumes "\<not> active_ams s" and "wait_src_cap s" and "0 < get_src_cap_retry_count s" and "tried_soft_reset s"
    and "5000 \<le> fst (env_millis E w) - get_src_cap_time_stamp s"
  shows "run_state (check_attached E) (s, w) =
    ((), (s\<lparr>get_src_cap_retry_count := get_src_cap_retry_count s + 1,
            get_src_cap_time_stamp := fst (env_millis E (snd (env_millis E w))), wait_src_cap := False,
            prev_state := pd_state s, pd_state := PD_STATE_PD_TIMEOUT\<rparr>,
          defer_publish E (snd (env_millis E (snd (env_millis E w))))))"
proof -
  have "\<not> fst (env_millis E w) - get_src_cap_time_stamp s < 5000" using assms(5) by simp
  with assms(1-4) show ?thesis
    by (simp add: check_attached_def check_ams_def elapsed_less_def set_state_def publish_def)
qed



text \<open>The turn without the request for the source's capabilities.\<close>

definition check_attached_ladder :: "'w fusb_env \<Rightarrow> ('w, unit) fusb_prog" where
  "check_attached_ladder E = do {
     ams \<leftarrow> check_ams E;
     if ams then ret ()
     else do {
       waiting \<leftarrow> obj_get wait_src_cap;
       if \<not> waiting then ret ()
       else do {
         count \<leftarrow> obj_get get_src_cap_retry_count;
         stamp \<leftarrow> obj_get get_src_cap_time_stamp;
         early \<leftarrow> (if count \<noteq> 0 then elapsed_less E stamp 5000 else ret False);
         if early then ret ()
         else do {
           obj_mod (\<lambda>s. s\<lparr>get_src_cap_retry_count := get_src_cap_retry_count s + 1\<rparr>);
           now \<leftarrow> ext (env_millis E);
           obj_mod (\<lambda>s. s\<lparr>get_src_cap_time_stamp := now\<rparr>);
           if count = 0 then ret ()
           else do {
             tried \<leftarrow> obj_get tried_soft_reset;
             if \<not> tried then do {
               fusb_reset E;
               m \<leftarrow> obj_get (\<lambda>s. PDMsg_cntrl (env_raw_msg E) s PD_CNTRL_SOFT_RESET);
               _ \<leftarrow> send_message E m;
               obj_mod (\<lambda>s. s\<lparr>get_src_cap_retry_count := 2, tried_soft_reset := True\<rparr>)
             } else do {
               obj_mod (\<lambda>s. s\<lparr>wait_src_cap := False, active_ams := False\<rparr>);
               set_state PD_STATE_PD_TIMEOUT;
               publish E
             }
           }
         }
       }
     }
   }"

text \<open>The branch that would ask for the source's capabilities is dead. In every reachable state
  \<open>check_status_\<close> behaves as if the request for capabilities were not there: the counter is incremented to
  at least 2 before it is compared with 2.\<close>

theorem get_source_cap_never_sent:
  assumes "fusb_reach E (s, w)"
  shows "run_state (check_attached E) (s, w) = run_state (check_attached_ladder E) (s, w)"
proof -
  have "0 \<le> get_src_cap_retry_count s" using retry_ok_reach [OF assms] by (simp add: retry_ok_def Let_def)
  then have *: "get_src_cap_retry_count s \<noteq> 0 \<longleftrightarrow> \<not> get_src_cap_retry_count s + 1 < 2" by linarith
  show ?thesis
    using * by (simp add: check_attached_def check_attached_ladder_def check_ams_def elapsed_less_def)
qed

theorem get_source_cap_never_sent_witness:
  "let sw = snd (run_state (fusb_setup ex_fusb_env) (fusb_init, ex_w0))
   in run_state (check_attached ex_fusb_env) sw = run_state (check_attached_ladder ex_fusb_env) sw"
  using get_source_cap_never_sent [of ex_fusb_env "fst (snd (run_state (fusb_setup ex_fusb_env) (fusb_init, ex_w0)))"
      "snd (snd (run_state (fusb_setup ex_fusb_env) (fusb_init, ex_w0)))"] reach_init [of ex_fusb_env ex_w0]
  by (simp add: Let_def)

text \<open>The flag that remembers a soft reset is cleared only on attach, so a voltage request made after a
  soft reset has been tried is never sent to the source: two turns later (the second at least five seconds after the
  first) the state is the timeout state, and all the turns did to the world was to read the clock and
  schedule one publication.\<close>

theorem later_request_times_out:
  assumes "tried_soft_reset s" and "\<not> active_ams s"
    and "5000 \<le> fst (env_millis E w2) - fst (env_millis E w1)"
  shows "\<exists>s0 s1 s2.
    run_state (request_voltage v) (s, w1) = (True, (s0, w1)) \<and>
    run_state (check_attached E) (s0, w1) = ((), (s1, snd (env_millis E w1))) \<and>
    run_state (check_attached E) (s1, w2) =
      ((), (s2, defer_publish E (snd (env_millis E (snd (env_millis E w2)))))) \<and>
    request_voltage_val s2 = v \<and> pd_state s2 = PD_STATE_PD_TIMEOUT \<and> \<not> wait_src_cap s2 \<and>
    accepted_contract s2 = accepted_contract s"
proof -
  let ?s0 = "s\<lparr>request_voltage_val := v, wait_src_cap := True, get_src_cap_retry_count := 0\<rparr>"
  let ?s1 = "?s0\<lparr>get_src_cap_retry_count := 1, get_src_cap_time_stamp := fst (env_millis E w1)\<rparr>"
  have "run_state (request_voltage v) (s, w1) = (True, (?s0, w1))"
    using assms(2) by (simp add: request_voltage_def)
  moreover have "run_state (check_attached E) (?s0, w1) = ((), (?s1, snd (env_millis E w1)))"
    using assms(2) check_attached_first [of ?s0 E w1] by simp
  ultimately show ?thesis
    using check_attached_give_up [of ?s1 E w2] assms by simp
qed

theorem later_request_times_out_witness:
  "\<exists>s0 s1 s2.
    run_state (request_voltage 9) (fusb_init\<lparr>tried_soft_reset := True\<rparr>, ex_w0) = (True, (s0, ex_w0)) \<and>
    run_state (check_attached ex_fusb_env) (s0, ex_w0) = ((), (s1, ex_w0)) \<and>
    run_state (check_attached ex_fusb_env) (s1, ex_w0\<lparr>ew_now := 15000\<rparr>) =
      ((), (s2, ex_w0\<lparr>ew_now := 15000\<rparr>)) \<and> pd_state s2 = PD_STATE_PD_TIMEOUT"
  using later_request_times_out [of "fusb_init\<lparr>tried_soft_reset := True\<rparr>" ex_fusb_env "ex_w0\<lparr>ew_now := 15000\<rparr>"
      ex_w0 9]
  by (auto simp: ex_fusb_env_def ex_w0_def fusb_init_def pd_init_def pd.defs)

section \<open>Attach, detach, shutdown\<close>

lemma cc_read_loop_obj [simp]: "fst (snd (run_state (cc_read_loop E k lvl) sw)) = fst sw"
  by (induction k arbitrary: sw) auto

lemma cc_read_bc_lvl_obj [simp]: "fst (snd (run_state (cc_read_bc_lvl E) sw)) = fst sw"
  by (simp add: cc_read_bc_lvl_def Let_def case_prod_beta)

text \<open>A line is selected exactly when, after the settle time and with the bus in hand, all six readings
  of the level on CC2 agree and exactly one of the two levels is non-zero. The phase itself attaches nothing, and once it has
  measured it is idle again, so that a failed attempt starts over.\<close>

theorem cc_line_selected_iff:
  assumes "env_millis E w = (now, w0)" and "sem_take E 100 w0 = (locked, w1)"
    and "run_state (cc_read_bc_lvl E) (s, w1) = ((steady, lvl), (s', w2))"
  shows "(fst (run_state (cc_phase_settle_cc2 E) (s, w)) \<longleftrightarrow>
      \<not> now - cc_phase_start s < CC_SETTLE_MS \<and> locked \<and> steady \<and> (cc1_lvl s = 0) \<noteq> (lvl = 0)) \<and>
    (let s' = fst (snd (run_state (cc_phase_settle_cc2 E) (s, w)))
     in hw_state s' = hw_state s \<and> pd_state s' = pd_state s \<and>
        (\<not> now - cc_phase_start s < CC_SETTLE_MS \<and> locked \<longrightarrow> cc_phase s' = CC_IDLE))"
proof -
  have s': "s' = s" using assms(3) cc_read_bc_lvl_obj [of E "(s, w1)"] by simp
  consider "now - cc_phase_start s < CC_SETTLE_MS" | "\<not> now - cc_phase_start s < CC_SETTLE_MS" "\<not> locked"
    | "\<not> now - cc_phase_start s < CC_SETTLE_MS" "locked" by blast
  then show ?thesis
  proof cases
    case 3
    have sel: "fst (run_state (cc_select E c1 c2) (s, w2)) \<longleftrightarrow> (c1 = 0) \<noteq> (c2 = 0)"
      "fst (snd (run_state (cc_select E c1 c2) (s, w2))) = s" for c1 c2
      by (simp_all add: cc_select_def word_neq_0_conv [symmetric])
    show ?thesis
      by (cases steady; cases "(cc1_lvl s = 0) \<noteq> (lvl = 0)")
        (simp_all add: cc_phase_settle_cc2_def elapsed_less_def assms 3 s' sel cc_measurement_failed_def
          case_prod_beta Let_def)
  qed (simp_all add: cc_phase_settle_cc2_def elapsed_less_def assms)
qed

theorem cc_line_selected_iff_witness:
  "fst (run_state (cc_phase_settle_cc2 ex_fusb_env) (fusb_init\<lparr>cc1_lvl := 0, cc_phase_start := 1\<rparr>, ex_w0))"
proof -
  let ?w = "ex_w0\<lparr>ew_held := True\<rparr>"
  let ?s = "fusb_init\<lparr>cc1_lvl := 0, cc_phase_start := 1\<rparr>"
  have five: "(5::nat) = Suc (Suc (Suc (Suc (Suc 0))))" by simp
  have "run_state (cc_read_bc_lvl ex_fusb_env) (?s, ?w) = ((True, 1), (?s, ?w))"
    unfolding cc_read_bc_lvl_def five by (simp add: ex_fusb_env_def fusb_consts)
  moreover have "env_millis ex_fusb_env ex_w0 = (10000, ex_w0)" "sem_take ex_fusb_env 100 ex_w0 = (True, ?w)"
    by (simp_all add: ex_fusb_env_def ex_w0_def)
  ultimately show ?thesis
    using cc_line_selected_iff [of ex_fusb_env ex_w0 10000 ex_w0 True ?w ?s True 1 ?s ?w]
    by (simp add: CC_SETTLE_MS_def)
qed

text \<open>Losing the supply. A turn of the main loop that sees the flag of the reader task while attached leaves
  the driver unattached and disconnected, with no capabilities awaited, the negotiation closed and the flag
  cleared, whatever the clock, the mutex and the chip do, and it does not attach again in the same
  turn.\<close>

theorem detach_on_vbus_loss:
  assumes "vbus_lost s" and "hw_state s = ATTACHED"
  shows "let s' = fst (snd (run_state (fusb_loop E) (s, w)))
    in hw_state s' = UNATTACHED \<and> pd_state s' = PD_STATE_DISCONNECTED \<and> prev_state s' = pd_state s \<and>
       \<not> wait_src_cap s' \<and> \<not> active_ams s' \<and> \<not> vbus_lost s'"
proof -
  have idle: "let s1 = fst (snd (run_state (check_status E) (s0, w0)))
      in hw_state s1 = UNATTACHED \<and> pd_state s1 = pd_state s0 \<and> prev_state s1 = prev_state s0 \<and>
         wait_src_cap s1 = wait_src_cap s0 \<and> active_ams s1 = active_ams s0 \<and> vbus_lost s1 = vbus_lost s0"
    if "hw_state s0 = UNATTACHED" "cc_phase s0 = CC_IDLE" for s0 w0
    using that
    by (simp add: check_status_def check_unattached_def elapsed_less_def cc_phase_idle_def Let_def)
  let ?sa = "s\<lparr>vbus_lost := False, hw_state := UNATTACHED, cc_phase := CC_IDLE,
    cc_retry_after := fst (env_millis E w), wait_src_cap := False, active_ams := False\<rparr>"
  let ?r = "snd (run_state (fusb_reset E) (?sa, snd (env_millis E w)))"
  let ?s0 = "(fst ?r)\<lparr>prev_state := pd_state (fst ?r), pd_state := PD_STATE_DISCONNECTED\<rparr>"
  let ?c = "run_state (check_status E) (?s0, defer_publish E (snd ?r))"
  have r: "hw_state ?s0 = UNATTACHED" "cc_phase ?s0 = CC_IDLE" "prev_state ?s0 = pd_state s"
    "\<not> wait_src_cap ?s0" "\<not> active_ams ?s0" "\<not> vbus_lost ?s0"
    by (simp_all add: run_fusb_reset)
  have loop: "fst (snd (run_state (fusb_loop E) (s, w))) =
      (fst (snd ?c))\<lparr>contract_timer := contract_timer (fst (snd (run_state (fusb_loop E) (s, w))))\<rparr>"
    using assms by (simp add: fusb_loop_def set_state_def publish_def case_prod_beta)
  show ?thesis
    unfolding Let_def by (subst (1 2 3 4 5 6) loop) (use idle [OF r(1,2)] r in \<open>simp add: Let_def\<close>)
qed

theorem detach_on_vbus_loss_witness:
  "pd_state (fst (snd (run_state (fusb_loop ex_fusb_env)
     (fusb_init\<lparr>vbus_lost := True, hw_state := ATTACHED\<rparr>, ex_w0)))) = PD_STATE_DISCONNECTED"
  using detach_on_vbus_loss [of "fusb_init\<lparr>vbus_lost := True, hw_state := ATTACHED\<rparr>" ex_fusb_env ex_w0]
  by (simp add: Let_def)

text \<open>After shutdown both task handles and the queue handle are cleared, the lock is kept, and an
  interrupt that still arrives does nothing.\<close>

theorem cleanup_silences_isr:
  "let sw = snd (run_state (fusb_cleanup E) (s, w))
   in \<not> reader_task_handle (fst sw) \<and> \<not> process_task_handle (fst sw) \<and> \<not> message_queue (fst sw) \<and>
      i2c_lock (fst sw) = i2c_lock s \<and> run_state (fusb302b_isr_handler E) sw = ((), sw)"
  by (simp add: fusb_cleanup_def fusb302b_isr_handler_def Let_def)

end
