(* ===== verification/Fusb302b_Link.thy ===== *)
theory Fusb302b_Link
  imports Fusb302b_Protocol
begin

text \<open>
  What the power-delivery driver promises its users, as a small machine, and that the driver implements it. A user sees whether a source is
  attached, the published state, and the contract that is shown; the machine adds whether a negotiation is open, what was asked for, and the
  messages heard so far.
  Every step of the driver, of whatever task, is a sequence of steps of the machine (\<open>driver_refines_link\<close>). What holds of the machine in all its reachable
  states therefore holds of the driver: the contract shown answers capabilities that were received.

  At the end, two ways in which the machine is weaker than a user would like: a message that waits in the queue is handled after the
  source has gone, and a new source starts with the contract of the old one.
\<close>

section \<open>The machine\<close>

record link =
  link_hw :: Fusb302State
  link_pd :: PowerDeliveryState
  link_open :: bool
  link_wanted :: pd_contract
  link_volts :: int
  link_text :: string
  link_heard :: "pd_msg list"

text \<open>A contract that answers a message: a supply of the source's capabilities that is not programmable, and the fallback when there is none.\<close>

definition offered_by :: "pd_msg \<Rightarrow> pd_contract \<Rightarrow> bool" where
  "offered_by msg c \<longleftrightarrow> pm_num_of_obj msg \<noteq> 0 \<and> pm_type msg = data_code PD_DATA_SOURCE_CAP \<and>
     (if \<exists>pdo \<in> set (msg_pdos msg). pdo_usable pdo then \<exists>pdo \<in> set (msg_pdos msg). pdo_usable pdo \<and> c = pd_parse_power_info pdo
      else c = fallback_contract)"

definition offered :: "pd_msg list \<Rightarrow> pd_contract \<Rightarrow> bool" where
  "offered ms c \<longleftrightarrow> (\<exists>msg \<in> set ms. offered_by msg c)"

lemma offered_Cons [intro]: "offered ms c \<Longrightarrow> offered (msg # ms) c" "offered_by msg c \<Longrightarrow> offered (msg # ms) c"
  by (auto simp: offered_def)

definition contract_volts :: "pd_contract \<Rightarrow> int" where
  "contract_volts c = uint (max_v c) * 5 div 100"

inductive link_step :: "link \<Rightarrow> link \<Rightarrow> bool" where
  link_attach: "link_hw l = UNATTACHED \<Longrightarrow> link_step l (l\<lparr>link_hw := ATTACHED, link_pd := PD_STATE_DEFAULT_CONTRACT\<rparr>)"
| link_no_task: "link_hw l = UNATTACHED \<Longrightarrow> link_step l (l\<lparr>link_hw := FAILED, link_pd := PD_STATE_ERROR\<rparr>)"
| link_detach: "link_hw l = ATTACHED \<Longrightarrow>
    link_step l (l\<lparr>link_hw := UNATTACHED, link_pd := PD_STATE_DISCONNECTED, link_open := False\<rparr>)"
| link_expire: "link_hw l = ATTACHED \<Longrightarrow> link_step l (l\<lparr>link_open := False\<rparr>)"
| link_timeout: "link_hw l = ATTACHED \<Longrightarrow> link_step l (l\<lparr>link_pd := PD_STATE_PD_TIMEOUT, link_open := False\<rparr>)"
| link_hear: "link_step l (l\<lparr>link_heard := msg # link_heard l\<rparr>)"
| link_offer: "offered (link_heard l) c \<Longrightarrow> link_step l (l\<lparr>link_open := True, link_wanted := c\<rparr>)"
| link_accept: "link_open l \<Longrightarrow> p \<in> {link_pd l, PD_STATE_TRANSITION} \<Longrightarrow>
    link_step l (l\<lparr>link_pd := p, link_volts := contract_volts (link_wanted l), link_text := get_contract_string (link_wanted l)\<rparr>)"
| link_ready: "link_step l (l\<lparr>link_pd := PD_STATE_EXPLICIT_SPR_CONTRACT, link_open := False\<rparr>)"
| link_reset: "link_step l (l\<lparr>link_pd := PD_STATE_DEFAULT_CONTRACT\<rparr>)"

text \<open>After setup the machine is disconnected, or in the error state if the chip did not answer.\<close>

definition link_start :: "PowerDeliveryState \<Rightarrow> link" where
  "link_start p = \<lparr>link_hw = UNATTACHED, link_pd = p, link_open = False, link_wanted = zero_contract,
     link_volts = 5, link_text = ''0.5A @ 5V'', link_heard = []\<rparr>"

inductive link_reach :: "link \<Rightarrow> bool" where
  link_init: "p \<in> {PD_STATE_DISCONNECTED, PD_STATE_ERROR} \<Longrightarrow> link_reach (link_start p)"
| link_next: "link_reach l \<Longrightarrow> link_step l l' \<Longrightarrow> link_reach l'"

text \<open>The invariant of the machine.\<close>

definition link_inv :: "link \<Rightarrow> bool" where
  "link_inv l \<longleftrightarrow> (link_open l \<longrightarrow> offered (link_heard l) (link_wanted l)) \<and> link_pd l \<noteq> PD_STATE_EXPLICIT_EPR_CONTRACT \<and>
     (link_hw l = FAILED \<longrightarrow> link_pd l \<noteq> PD_STATE_DISCONNECTED) \<and>
     (link_volts l = 5 \<and> link_text l = ''0.5A @ 5V'' \<or>
      (\<exists>c. offered (link_heard l) c \<and> link_volts l = contract_volts c \<and> link_text l = get_contract_string c))"

lemma link_inv_step: "link_step l l' \<Longrightarrow> link_inv l \<Longrightarrow> link_inv l'"
  by (induction rule: link_step.induct) (auto simp: link_inv_def)

lemma link_inv_reach: "link_reach l \<Longrightarrow> link_inv l"
proof (induction rule: link_reach.induct)
  case (link_init p)
  then show ?case by (auto simp: link_inv_def link_start_def)
qed (rule link_inv_step)

lemma link_reach_steps: "link_step\<^sup>*\<^sup>* l l' \<Longrightarrow> link_reach l \<Longrightarrow> link_reach l'"
  by (induction rule: rtranclp_induct) (auto intro: link_next)

section \<open>The driver implements the machine\<close>

definition link_of :: "pd_msg list \<Rightarrow> fusb \<Rightarrow> link" where
  "link_of h s = \<lparr>link_hw = hw_state s, link_pd = pd_state s, link_open = active_ams s, link_wanted = requested_contract s,
     link_volts = contract_voltage s, link_text = contract_str s, link_heard = h\<rparr>"

abbreviation link_at :: "pd_msg list \<Rightarrow> link \<Rightarrow> fusb \<times> 'w \<Rightarrow> bool" where
  "link_at h l \<equiv> on_obj (\<lambda>s. link_of h s = l)"

text \<open>Operations that leave the machine where it is.\<close>

lemma link_quiet_run:
  assumes "\<And>l. hoare (link_at h l) m (\<lambda>_. link_at h l)"
  shows "link_of h (fst (snd (run_state m sw))) = link_of h (fst sw)"
  using on_obj_run [OF assms [of "link_of h (fst sw)"], of sw] by simp

lemma link_quiet_ops:
  "hoare (link_at h l) (fusb_reset E) (\<lambda>_. link_at h l)"
  "hoare (link_at h l) (enable_auto_crc E) (\<lambda>_. link_at h l)"
  "hoare (link_at h l) (read_status E regs) (\<lambda>_. link_at h l)"
  "hoare (link_at h l) (read_status_register E r v) (\<lambda>_. link_at h l)"
  "hoare (link_at h l) (read_message E m) (\<lambda>_. link_at h l)"
  "hoare (link_at h l) (publish E) (\<lambda>_. link_at h l)"
  "hoare (link_at h l) mark_failed (\<lambda>_. link_at h l)"
  "hoare (link_at h l) (elapsed_less E since ms) (\<lambda>_. link_at h l)"
  "hoare (link_at h l) (request_voltage u) (\<lambda>_. link_at h l)"
  "hoare (link_at h l) (cc_measurement_failed E) (\<lambda>_. link_at h l)"
  "hoare (link_at h l) (cc_select E c1 c2) (\<lambda>_. link_at h l)"
  unfolding fusb_reset_def enable_auto_crc_def read_status_def read_status_register_def read_message_def with_i2c_lock_def
    fusb_reset_unlocked_def publish_def mark_failed_def elapsed_less_def request_voltage_def cc_measurement_failed_def
    cc_select_def Let_def
  by ((intro hoare_rules on_obj_mod)?; simp add: link_of_def)+

lemma link_quiet_cc:
  "hoare (link_at h l) (cc_read_bc_lvl E) (\<lambda>_. link_at h l)"
  "hoare (link_at h l) (case ph of CC_IDLE \<Rightarrow> cc_phase_idle E | SETTLE_CC1 \<Rightarrow> cc_phase_settle_cc1 E
     | SETTLE_CC2 \<Rightarrow> cc_phase_settle_cc2 E) (\<lambda>_. link_at h l)"
proof -
  have "hoare (link_at h l) (cc_read_loop E k lvl) (\<lambda>_. link_at h l)" for k lvl
    by (induction k) (simp_all, (intro hoare_rules | assumption)+)
  then show r: "hoare (link_at h l) (cc_read_bc_lvl E) (\<lambda>_. link_at h l)" unfolding cc_read_bc_lvl_def Let_def by (intro hoare_rules)
  show "hoare (link_at h l) (case ph of CC_IDLE \<Rightarrow> cc_phase_idle E | SETTLE_CC1 \<Rightarrow> cc_phase_settle_cc1 E
     | SETTLE_CC2 \<Rightarrow> cc_phase_settle_cc2 E) (\<lambda>_. link_at h l)"
    unfolding cc_phase_idle_def cc_phase_settle_cc1_def cc_phase_settle_cc2_def
    by (cases ph; (simp only: CcMeasurePhase.case)?; (intro hoare_rules link_quiet_ops r on_obj_mod)?; simp add: link_of_def)
qed

lemma link_quiet_tasks:
  "hoare (link_at h l) (trigger_task_start E) (\<lambda>_. link_at h l)"
  "hoare (link_at h l) (reader_task_start E) (\<lambda>_. link_at h l)"
  "hoare (link_at h l) (fusb_cleanup E) (\<lambda>_. link_at h l)"
  "hoare (link_at h l) (fusb302b_isr_handler E) (\<lambda>_. link_at h l)"
  "hoare (link_at h l) (rx_drain_turn E st1 m) (\<lambda>_. link_at h l)"
  unfolding trigger_task_start_def reader_task_start_def fusb_cleanup_def fusb302b_isr_handler_def rx_drain_turn_def
  by ((intro hoare_rules link_quiet_ops on_obj_mod)?; simp add: link_of_def)+

lemma link_bus_obj:
  "fst (snd (run_state (enable_auto_crc E) sw)) = fst sw"
  "fst (snd (run_state (fusb_reset E) sw)) =
     (if fst (sem_take E 100 (snd sw)) then (fst sw)\<lparr>last_received_msg_id := 255, msg_counter := 0\<rparr> else fst sw)"
  using run_fusb_reset [of E "fst sw" "snd sw"] by (simp_all add: enable_auto_crc_def with_i2c_lock_def)

text \<open>The measured line is used: the driver attaches, or cannot create its task.\<close>

lemma link_attach_run:
  assumes "hw_state s = UNATTACHED"
  shows "link_step (link_of h s) (link_of h (fst (snd (run_state (attach E) (s, w)))))"
proof -
  have hw: "link_hw (link_of h s) = UNATTACHED" using assms by (simp add: link_of_def)
  let ?s' = "fst (snd (run_state (attach E) (s, w)))"
  have "link_of h ?s' = (link_of h s)\<lparr>link_hw := ATTACHED, link_pd := PD_STATE_DEFAULT_CONTRACT\<rparr> \<or>
      link_of h ?s' = (link_of h s)\<lparr>link_hw := FAILED, link_pd := PD_STATE_ERROR\<rparr>"
    by (simp add: attach_def mark_failed_def set_state_def publish_def case_prod_beta link_bus_obj link_of_def)
  then show ?thesis using link_attach [OF hw] link_no_task [OF hw] by auto
qed

lemma link_unattached:
  assumes "link_hw l = UNATTACHED"
  shows "hoare (link_at h l) (check_unattached E) (\<lambda>_. on_obj (\<lambda>s. link_step\<^sup>*\<^sup>* l (link_of h s)))"
proof -
  let ?Q = "\<lambda>_. on_obj (\<lambda>s. link_step\<^sup>*\<^sup>* l (link_of h s))"
  have att: "hoare (link_at h l) (attach E) ?Q"
  proof (rule hoareI)
    fix sw r sw' assume at: "link_at h l sw" and run: "run_state (attach E) sw = (r, sw')"
    then have "hw_state (fst sw) = UNATTACHED" using assms by (auto simp: on_obj_def link_of_def)
    from link_attach_run [OF this, of h E "snd sw"] show "?Q r sw'" using at run by (auto simp: on_obj_def)
  qed
  have stay: "hoare (link_at h l) (ret ()) ?Q" by (rule hoareI) (auto simp: on_obj_def)
  have early: "hoare (link_at h l) (if b then elapsed_less E since ms else ret False) (\<lambda>_. link_at h l)" for b since ms
    by (intro hoare_rules link_quiet_ops)
  show ?thesis
    unfolding check_unattached_def
    by (rule hoare_bind [OF _ hoare_obj_get] hoare_bind [OF _ early] hoare_bind [OF _ link_quiet_cc(2)] hoare_if stay att)+
qed

lemma link_attached:
  assumes "hw_state s = ATTACHED"
  shows "link_step\<^sup>*\<^sup>* (link_of h s) (link_of h (fst (snd (run_state (check_attached E) (s, w)))))"
proof -
  let ?s' = "fst (snd (run_state (check_attached E) (s, w)))"
  have hw: "link_hw (link_of h s) = ATTACHED" using assms by (simp add: link_of_def)
  have "link_of h ?s' \<in> {link_of h s, (link_of h s)\<lparr>link_open := False\<rparr>, (link_of h s)\<lparr>link_pd := PD_STATE_PD_TIMEOUT, link_open := False\<rparr>}"
    by (simp add: check_attached_def check_ams_def elapsed_less_def case_prod_beta run_fusb_reset set_state_def publish_def link_of_def)
  then show ?thesis using link_expire [OF hw] link_timeout [OF hw] by auto
qed

text \<open>Messages.\<close>

lemma src_cap_contract_offered:
  assumes "pm_num_of_obj msg \<noteq> 0" and "pm_type msg = data_code PD_DATA_SOURCE_CAP"
  shows "offered_by msg (src_cap_contract rv (msg_pdos msg))"
proof (cases "src_cap_choice rv (msg_pdos msg)")
  case None
  then show ?thesis using assms using src_cap_choice_None [of rv "msg_pdos msg"] by (simp add: offered_by_def src_cap_contract_def)
next
  case (Some i)
  have "msg_pdos msg ! i \<in> set (msg_pdos msg)" "pdo_usable (msg_pdos msg ! i)"
    using src_cap_choice_less [OF Some] src_cap_choice_usable [OF Some] by simp_all
  then show ?thesis using assms Some by (auto simp: offered_by_def src_cap_contract_def)
qed

lemma link_respond:
  "fst (snd (run_state (respond_to_src_cap_msg E (send_message E) msg) (s, w))) =
     s\<lparr>requested_contract := src_cap_contract (request_voltage_val s) (msg_pdos msg)\<rparr>"
proof -
  have len: "length (msg_pdos msg) \<le> 255" using unsigned_less [of "pm_num_of_obj msg", where ?'a = nat] by (simp add: msg_pdos_def min_def)
  show ?thesis
  proof (cases "src_cap_choice (request_voltage_val s) (msg_pdos msg)")
    case None
    then show ?thesis
      using len by (simp add: respond_to_src_cap_msg_def src_cap_loop_choice src_cap_contract_def fallback_contract_def case_prod_beta
          flip: msg_pdos_def)
  next
    case (Some i)
    then have "i < 255" using src_cap_choice_less [OF Some] len by simp
    with Some show ?thesis
      using len of_nat_u8_ne_255 [of i]
      by (simp add: respond_to_src_cap_msg_def src_cap_loop_choice src_cap_contract_def case_prod_beta flip: msg_pdos_def)
  qed
qed

lemma link_control:
  assumes "pm_num_of_obj msg = 0"
  shows "link_step\<^sup>*\<^sup>* (link_of h s) (link_of h (fst (snd (run_state (handle_message E (send_message E) msg) (s, w)))))"
proof -
  let ?s' = "fst (snd (run_state (handle_message E (send_message E) msg) (s, w)))"
  let ?l = "link_of h s"
  consider (accept) "pm_type msg = cntrl_code PD_CNTRL_ACCEPT" "pm_id msg \<noteq> last_received_msg_id s" "active_ams s"
    | (ready) "pm_type msg = cntrl_code PD_CNTRL_PS_RDY" "pm_id msg \<noteq> last_received_msg_id s"
    | (reset) "pm_type msg = cntrl_code PD_CNTRL_SOFT_RESET" "pm_id msg \<noteq> last_received_msg_id s"
    | (other) "pm_id msg = last_received_msg_id s \<or> pm_type msg \<noteq> cntrl_code PD_CNTRL_PS_RDY \<and> pm_type msg \<noteq> cntrl_code PD_CNTRL_SOFT_RESET \<and>
        (pm_type msg = cntrl_code PD_CNTRL_ACCEPT \<longrightarrow> \<not> active_ams s)"
    by blast
  then show ?thesis
  proof cases
    case accept
    let ?p = "if contract_eq (requested_contract s) (accepted_contract s) then link_pd ?l else PD_STATE_TRANSITION"
    have "link_step ?l (?l\<lparr>link_pd := ?p, link_volts := contract_volts (link_wanted ?l), link_text := get_contract_string (link_wanted ?l)\<rparr>)"
      using accept(3) by (intro link_accept) (simp_all add: link_of_def)
    then show ?thesis
      unfolding fusb_tx.accept_obj [OF assms accept] by (simp add: link_of_def Let_def contract_volts_def split: if_splits)
  next
    case ready
    then show ?thesis using link_ready [of ?l] by (simp add: fusb_tx.ps_rdy_obj [OF assms ready] link_of_def)
  next
    case reset
    then show ?thesis using link_reset [of ?l] by (simp add: fusb_tx.soft_reset_obj [OF assms reset] link_of_def)
  next
    case other
    then have "link_of h ?s' = ?l"
      using assms by (auto simp: handle_message_def handle_cntrl_message_def case_prod_beta link_of_def)
    then show ?thesis by simp
  qed
qed

lemma link_data:
  assumes "pm_num_of_obj msg \<noteq> 0"
  shows "link_step\<^sup>*\<^sup>* (link_of (msg # h) s) (link_of (msg # h) (fst (snd (run_state (handle_message E (send_message E) msg) (s, w)))))"
proof (cases "pm_type msg = data_code PD_DATA_SOURCE_CAP \<and> pm_id msg \<noteq> last_received_msg_id s")
  case True
  let ?l = "link_of (msg # h) s"
  let ?c = "src_cap_contract (request_voltage_val s) (msg_pdos msg)"
  have "link_of (msg # h) (fst (snd (run_state (handle_message E (send_message E) msg) (s, w)))) = ?l\<lparr>link_open := True, link_wanted := ?c\<rparr>"
    using True assms by (simp add: handle_message_def handle_data_message_def set_ams_def case_prod_beta link_respond link_of_def)
  moreover have "offered (link_heard ?l) ?c"
    using src_cap_contract_offered [OF assms, of "request_voltage_val s"] True by (auto simp: link_of_def)
  ultimately show ?thesis using link_offer [of ?l ?c] by simp
next
  case False
  then have "link_of (msg # h) (fst (snd (run_state (handle_message E (send_message E) msg) (s, w)))) = link_of (msg # h) s"
    using assms by (auto simp: handle_message_def handle_data_message_def case_prod_beta link_of_def)
  then show ?thesis by simp
qed

lemma link_message:
  "link_step\<^sup>*\<^sup>* (link_of h s) (link_of (msg # h) (fst (snd (run_state (handle_message E (send_message E) msg) (s, w)))))"
proof -
  have "link_step (link_of h s) (link_of (msg # h) s)" using link_hear [of "link_of h s" msg] by (simp add: link_of_def)
  moreover have "link_step\<^sup>*\<^sup>* (link_of (msg # h) s) (link_of (msg # h) (fst (snd (run_state (handle_message E (send_message E) msg) (s, w)))))"
    by (cases "pm_num_of_obj msg = 0") (rule link_control link_data; assumption)+
  ultimately show ?thesis by (rule converse_rtranclp_into_rtranclp)
qed

text \<open>The main loop: losing the source, the state machine, the delayed publication.\<close>

definition loop_vbus :: "'w fusb_env \<Rightarrow> ('w, unit) fusb_prog" where
  "loop_vbus E = do {
     obj_mod (\<lambda>s. s\<lparr>hw_state := UNATTACHED, cc_phase := CC_IDLE\<rparr>);
     now \<leftarrow> ext (env_millis E);
     obj_mod (\<lambda>s. s\<lparr>cc_retry_after := now, wait_src_cap := False, active_ams := False\<rparr>);
     fusb_reset E;
     set_state PD_STATE_DISCONNECTED;
     publish E
   }"

lemma link_vbus:
  assumes "hw_state s = ATTACHED"
  shows "link_step (link_of h s) (link_of h (fst (snd (run_state (loop_vbus E) (s, w)))))"
proof -
  have hw: "link_hw (link_of h s) = ATTACHED" using assms by (simp add: link_of_def)
  have "link_of h (fst (snd (run_state (loop_vbus E) (s, w)))) =
      (link_of h s)\<lparr>link_hw := UNATTACHED, link_pd := PD_STATE_DISCONNECTED, link_open := False\<rparr>"
    by (simp add: loop_vbus_def set_state_def publish_def case_prod_beta run_fusb_reset link_of_def)
  then show ?thesis using link_detach [OF hw] by simp
qed

lemma link_status: "link_step\<^sup>*\<^sup>* (link_of h (fst sw)) (link_of h (fst (snd (run_state (check_status E) sw))))"
proof (cases "hw_state (fst sw)")
  case UNATTACHED
  then have "link_hw (link_of h (fst sw)) = UNATTACHED" by (simp add: link_of_def)
  from hoareD [OF link_unattached [OF this, of h E], of sw "()" "snd (run_state (check_unattached E) sw)"] show ?thesis
    using UNATTACHED by (simp add: check_status_def on_obj_def prod_eq_iff)
next
  case ATTACHED
  then show ?thesis using link_attached [of "fst sw" h E "snd sw"] by (simp add: check_status_def)
qed (simp add: check_status_def)

lemma link_loop: "link_step\<^sup>*\<^sup>* (link_of h s) (link_of h (fst (snd (run_state (fusb_loop E) (s, w)))))"
proof -
  let ?s0 = "s\<lparr>vbus_lost := False\<rparr>"
  let ?a = "if vbus_lost s \<and> hw_state s = ATTACHED then snd (run_state (loop_vbus E) (?s0, w)) else (?s0, w)"
  let ?b = "snd (run_state (check_status E) ?a)"
  have 0: "link_of h ?s0 = link_of h s" by (simp add: link_of_def)
  have 1: "link_step\<^sup>*\<^sup>* (link_of h s) (link_of h (fst ?a))"
    using link_vbus [of ?s0 h E w] 0 by auto
  have loop: "fst (snd (run_state (fusb_loop E) (s, w))) =
      (fst ?b)\<lparr>contract_timer := contract_timer (fst (snd (run_state (fusb_loop E) (s, w))))\<rparr>"
    by (simp add: fusb_loop_def loop_vbus_def publish_def case_prod_beta)
  have "link_of h (fst (snd (run_state (fusb_loop E) (s, w)))) = link_of h (fst ?b)"
    by (subst loop) (simp add: link_of_def)
  then show ?thesis using rtranclp_trans [OF 1 link_status [of h ?a E]] by simp
qed

lemma link_reader:
  assumes "reader_task_step E regs msg sw = Some (r, m, sw')"
  shows "link_of h (fst sw') = link_of h (fst sw)"
proof -
  have turn: "link_of h (fst (snd (run_state (rx_drain_turn E st1 m) c))) = link_of h (fst c)" for st1 m c
    by (rule link_quiet_run) (rule link_quiet_tasks)
  have iter: "link_of h (fst (snd (snd (rx_iter E n c)))) = link_of h (fst (snd (snd c)))" for n c
  proof (induction n arbitrary: c)
    case (Suc n)
    then show ?case by (cases c) (simp add: Let_def turn)
  qed simp
  have drain: "link_of h (fst sw3) = link_of h (fst sw2)" if "rx_drain E st m' sw2 = Some (st1, m'', sw3)" for st m' sw2 st1 m'' sw3
    using rx_drain_Some [OF that] iter [of _ "(st, m', sw2)"] by (metis snd_conv)
  obtain ok regs' sw1 where rs: "run_state (read_status E regs) sw = ((ok, regs'), sw1)"
    by (cases "run_state (read_status E regs) sw") auto
  have 1: "link_of h (fst sw1) = link_of h (fst sw)"
    using link_quiet_run [of h "read_status E regs" sw, OF link_quiet_ops(3)] by (simp add: rs)
  have 2: "link_of h ((fst sw1)\<lparr>vbus_lost := True\<rparr>) = link_of h (fst sw1)" by (simp add: link_of_def)
  show ?thesis
    using assms 1 2
    by (cases sw1) (auto simp: reader_task_step_def rs Let_def bind_eq_Some_conv dest!: drain split: if_splits)
qed

lemma link_trigger:
  "link_step\<^sup>*\<^sup>* (link_of h s) (link_of ((case fst (queue_receive E w) of None \<Rightarrow> [] | Some info \<Rightarrow> [pe_msg info]) @ h)
     (fst (snd (run_state (trigger_task_step E) (s, w)))))"
  by (cases "fst (queue_receive E w)") (simp_all add: trigger_task_step_def case_prod_beta link_message)

lemma link_of_step:
  assumes "fusb_step E ms sw sw'"
  shows "link_step\<^sup>*\<^sup>* (link_of h (fst sw)) (link_of (ms @ h) (fst sw'))"
  using assms
proof (cases rule: fusb_step.cases)
  case (step_reader regs msg r m)
  then show ?thesis using link_reader [of E regs msg sw r m sw' h] by simp
next
  case step_loop
  then show ?thesis using link_loop [of h "fst sw" E "snd sw"] by simp
next
  case step_trigger
  then show ?thesis using link_trigger [of h "fst sw" E "snd sw"] by simp
next
  case (step_request v)
  then show ?thesis using link_quiet_run [of h "request_voltage v" sw, OF link_quiet_ops(9)] by simp
qed (use link_quiet_run [of h "trigger_task_start E" sw, OF link_quiet_tasks(1)] link_quiet_run [of h "reader_task_start E" sw, OF link_quiet_tasks(2)]
  link_quiet_run [of h "fusb_cleanup E" sw, OF link_quiet_tasks(3)] link_quiet_run [of h "fusb302b_isr_handler E" sw, OF link_quiet_tasks(4)] in \<open>simp_all\<close>)

lemma link_of_setup:
  "\<exists>p \<in> {PD_STATE_DISCONNECTED, PD_STATE_ERROR}. link_of [] (fst (snd (run_state (fusb_setup E) (fusb_init, w)))) = link_start p"
proof -
  have q: "link_of h (fst (snd (run_state (check_chip_id E) sw))) = link_of h (fst sw)"
    "link_of h (fst (snd (run_state (init_fusb_settings E) sw))) = link_of h (fst sw)" for h sw
    by (simp_all add: check_chip_id_def init_fusb_settings_def fusb_reset_unlocked_def with_i2c_lock_def link_of_def)
  have e: "link_of h (s\<lparr>startup_delay := n\<rparr>) = link_of h s" "link_of h (s\<lparr>comp_failed := b\<rparr>) = link_of h s" "link_of h (s\<lparr>i2c_lock := b\<rparr>) = link_of h s"
    "link_of h (s\<lparr>prev_state := q, pd_state := p\<rparr>) = (link_of h s)\<lparr>link_pd := p\<rparr>" for h s n b p q
    by (simp_all add: link_of_def)
  have "link_of h (s\<lparr>prev_state := q, pd_state := p, comp_failed := b\<rparr>) = (link_of h s)\<lparr>link_pd := p\<rparr>" for h s q p b
    by (simp add: link_of_def)
  moreover have "link_of [] fusb_init = link_start PD_STATE_DISCONNECTED"
    by (simp add: link_of_def link_start_def fusb_init_def pd_init_def pd.defs)
  ultimately show ?thesis
    by (auto simp: fusb_setup_def mark_failed_def set_state_def publish_def case_prod_beta q e link_start_def)
qed

text \<open>The running driver with the messages it has taken from its queue, the latest first.\<close>

inductive fusb_heard :: "'w fusb_env \<Rightarrow> pd_msg list \<Rightarrow> fusb \<times> 'w \<Rightarrow> bool" for E :: "'w fusb_env" where
  heard_init: "snd (run_state (fusb_setup E) (fusb_init, w)) = sw \<Longrightarrow> fusb_heard E [] sw"
| heard_step: "fusb_heard E h sw \<Longrightarrow> fusb_step E ms sw sw' \<Longrightarrow> fusb_heard E (ms @ h) sw'"

lemma link_reach_of: "fusb_heard E h sw \<Longrightarrow> link_reach (link_of h (fst sw))"
proof (induction rule: fusb_heard.induct)
  case (heard_init w sw)
  then show ?case using link_of_setup [of E w] link_init by metis
next
  case (heard_step h sw ms sw')
  then show ?case using link_reach_steps link_of_step by blast
qed

text \<open>C8: the driver implements the machine. After setup the view of the driver is an initial state of the machine, and whatever the main loop, the two
  tasks, the automation, the interrupt or the shutdown does, the view moves by steps of the machine, in which exactly the messages taken from the queue are heard: a
  source is attached and lost, a negotiation is opened by capabilities that were heard, a contract changes only by an acceptance while one is open.\<close>

theorem driver_refines_link:
  "(\<exists>p \<in> {PD_STATE_DISCONNECTED, PD_STATE_ERROR}. link_of [] (fst (snd (run_state (fusb_setup E) (fusb_init, w)))) = link_start p) \<and>
   (fusb_step E ms (s, v) (s', v') \<longrightarrow> link_step\<^sup>*\<^sup>* (link_of h s) (link_of (ms @ h) s'))"
  using link_of_setup [of E w] link_of_step [of E ms "(s, v)" "(s', v')" h] by simp

text \<open>C9: the contract shown is one a source has offered. In every reachable state the voltage and the text belong to one contract, which answers a message of
  source capabilities the driver has taken from its queue: one of the supplies in it that the driver can use, or the fallback if it has none; before the first contract
  they are the default of 5 volts.\<close>

theorem shown_contract_was_offered:
  assumes "fusb_heard E h (s, w)"
  shows "(contract_voltage s = 5 \<and> contract_str s = ''0.5A @ 5V'') \<or>
    (\<exists>msg \<in> set h. \<exists>c. offered_by msg c \<and> contract_voltage s = uint (max_v c) * 5 div 100 \<and> contract_str s = get_contract_string c)"
  using link_inv_reach [OF link_reach_of [OF assms]] by (auto simp: link_inv_def link_of_def contract_volts_def offered_def)

section \<open>Where the machine is weak\<close>

text \<open>A message that waits in the queue is handled after the source has gone: the detach does not empty the queue, and it forgets the identifier of the
  last message, so that none is taken for a repetition. A waiting \<open>PS_RDY\<close> puts the driver into an explicit contract without a source.\<close>

theorem stale_message_after_detach:
  assumes "hw_state s = UNATTACHED" and "queue_receive E w = (Some info, w')"
    and "pm_num_of_obj (pe_msg info) = 0" "pm_type (pe_msg info) = cntrl_code PD_CNTRL_PS_RDY" "pm_id (pe_msg info) \<noteq> last_received_msg_id s"
  shows "let s' = fst (snd (run_state (trigger_task_step E) (s, w)))
    in hw_state s' = UNATTACHED \<and> pd_state s' = PD_STATE_EXPLICIT_SPR_CONTRACT \<and> IsConnectedCondition s' \<and> PowerReadyTrigger s'"
  using assms(1,2)
  by (simp add: fusb_tx.ps_rdy_obj [OF assms(3-5)] trigger_task_step_def IsConnectedCondition_def PowerReadyTrigger_def Let_def)

text \<open>A new source starts with the contract of the old one: neither detaching nor attaching resets it, so that what is published with the default contract is
  the last contract of the source before.\<close>

theorem attach_shows_old_contract:
  assumes "startup_delay s = 0"
  shows "let s' = fst (snd (run_state (attach E) (s, w)))
    in hw_state s' = ATTACHED \<and> pd_state s' = PD_STATE_DEFAULT_CONTRACT \<and> published_contract s' = contract_str s \<and>
       contract_voltage s' = contract_voltage s \<and> accepted_contract s' = accepted_contract s"
  using assms by (simp add: attach_def set_state_def publish_def case_prod_beta link_bus_obj published_contract_def Let_def)

section \<open>An example\<close>

text \<open>A driver that takes offers of 5 and 9 volts from its queue at first, and later the acceptance.\<close>

definition ex_accept :: pd_msg where
  "ex_accept = ex_raw\<lparr>pm_type := 3, pm_id := 2\<rparr>"

definition ex_link_env :: "ex_world fusb_env" where
  "ex_link_env = ex_fusb_env\<lparr>queue_receive := (\<lambda>w. (Some \<lparr>pe_event = PD_EVENT_RECEIVED_MSG,
     pe_msg = (if ew_now w = 10000 then ex_src_cap else ex_accept)\<rparr>, w))\<rparr>"

lemma ex_link_queue:
  "fst (queue_receive ex_link_env w) = Some \<lparr>pe_event = PD_EVENT_RECEIVED_MSG, pe_msg = (if ew_now w = 10000 then ex_src_cap else ex_accept)\<rparr>"
  "snd (queue_receive ex_link_env w) = w"
  by (simp_all add: ex_link_env_def)

theorem driver_refines_link_witness:
  "link_step\<^sup>*\<^sup>* (link_of [] fusb_init) (link_of [ex_src_cap] (fst (snd (run_state (trigger_task_step ex_link_env) (fusb_init, ex_w0)))))"
proof -
  let ?r = "snd (run_state (trigger_task_step ex_link_env) (fusb_init, ex_w0))"
  have "fusb_step ex_link_env [ex_src_cap] (fusb_init, ex_w0) (fst ?r, snd ?r)"
    using step_trigger [of ex_link_env "(fusb_init, ex_w0)" ?r] by (simp add: ex_link_queue ex_w0_def)
  then show ?thesis using driver_refines_link [of ex_link_env ex_w0 "[ex_src_cap]" fusb_init ex_w0 "fst ?r" "snd ?r" "[]"] by simp
qed

lemma ex_link_setup:
  assumes "snd (run_state (fusb_setup ex_link_env) (fusb_init, ex_w0)) = (s0, w0)"
  shows "last_received_msg_id s0 = 255" "\<not> active_ams s0"
  using assms
  by (auto simp: fusb_setup_def check_chip_id_def init_fusb_settings_def fusb_reset_unlocked_def with_i2c_lock_def ex_link_env_def
      ex_fusb_env_def ex_w0_def fusb_consts case_prod_beta fusb_init_def pd_init_def pd.defs)

lemma ex_link_choice: "uint (max_v (src_cap_contract 9 (msg_pdos ex_src_cap))) * 5 div 100 = 9"
  by code_simp

theorem shown_contract_was_offered_witness:
  "\<exists>s w. fusb_heard ex_link_env [ex_accept, ex_src_cap] (s, w) \<and> contract_voltage s = 9 \<and>
     (\<exists>c. offered_by ex_src_cap c \<and> contract_voltage s = uint (max_v c) * 5 div 100 \<and> contract_str s = get_contract_string c)"
proof -
  obtain s0 w0 where 0: "snd (run_state (fusb_setup ex_link_env) (fusb_init, ex_w0)) = (s0, w0)" by (metis prod.exhaust)
  let ?s = "s0\<lparr>request_voltage_val := 9, wait_src_cap := True, get_src_cap_retry_count := 0\<rparr>"
  have "snd (run_state (request_voltage 9) (s0, w0)) = (?s, w0)" using ex_link_setup [OF 0] by (simp add: request_voltage_def)
  note r = heard_step [OF heard_init [OF 0] step_request [OF this]]
  let ?a = "(?s, w0\<lparr>ew_now := 10000\<rparr>)"
  obtain s1 w1 where 1: "snd (run_state (trigger_task_step ex_link_env) ?a) = (s1, w1)" by (metis prod.exhaust)
  let ?b = "(s1, w1\<lparr>ew_now := 20000\<rparr>)"
  obtain s2 w2 where 2: "snd (run_state (trigger_task_step ex_link_env) ?b) = (s2, w2)" by (metis prod.exhaust)
  have "fusb_heard ex_link_env [ex_src_cap] (s1, w1)"
    using heard_step [OF heard_step [OF r step_world] step_trigger [OF 1]] by (simp add: ex_link_queue)
  from heard_step [OF heard_step [OF this step_world] step_trigger [OF 2]]
  have h: "fusb_heard ex_link_env [ex_accept, ex_src_cap] (s2, w2)" by (simp add: ex_link_queue)
  have m1: "length (pm_data_objects ex_src_cap) = 7" "pm_num_of_obj ex_src_cap \<noteq> 0" "pm_type ex_src_cap = data_code PD_DATA_SOURCE_CAP"
    "pm_id ex_src_cap \<noteq> last_received_msg_id ?s" using ex_link_setup [OF 0] by (simp_all add: ex_src_cap_def ex_raw_def)
  have s1: "active_ams s1" "requested_contract s1 = src_cap_contract 9 (msg_pdos ex_src_cap)" "last_received_msg_id s1 = 1"
    using 1 fusb_tx.source_cap_obj [OF m1, of ex_link_env ex_link_env "w0\<lparr>ew_now := 10000\<rparr>"]
    by (auto simp: trigger_task_step_def ex_link_queue case_prod_beta ex_src_cap_def)
  have m2: "pm_num_of_obj ex_accept = 0" "pm_type ex_accept = cntrl_code PD_CNTRL_ACCEPT" "pm_id ex_accept \<noteq> last_received_msg_id s1"
    by (simp_all add: ex_accept_def ex_raw_def s1(3))
  have s2: "contract_voltage s2 = 9"
    using 2 fusb_tx.accept_obj [OF m2 s1(1), of ex_link_env ex_link_env "w1\<lparr>ew_now := 20000\<rparr>"] ex_link_choice
    by (auto simp: trigger_task_step_def ex_link_queue case_prod_beta s1(2) Let_def split: if_splits)
  have no: "\<not> offered_by ex_accept c" for c using m2(1) by (simp add: offered_by_def)
  have "\<exists>c. offered_by ex_src_cap c \<and> contract_voltage s2 = uint (max_v c) * 5 div 100 \<and> contract_str s2 = get_contract_string c"
    using shown_contract_was_offered [OF h] s2 no by auto
  then show ?thesis using h s2 by blast
qed

end
