(* ===== verification/Satellite1_Core.thy ===== *)
theory Satellite1_Core
  imports Sat1_Prelude
begin

text \<open>
  \<open>class Satellite1\<close> of \<open>esphome/components/satellite1/satellite1.h\<close> and \<open>satellite1.cpp\<close>, the hub that talks to the
  XMOS controller over SPI, and the GPIO pins of \<open>sat_gpio.h\<close> / \<open>sat_gpio.cpp\<close> that are remote-controlled
  through it.

  The record \<open>satellite1\<close> holds the members; arrays are lists (\<open>spi_transfer_buffer_\<close> of 259 bytes,
  \<open>dc_status_register_\<close> of 4, \<open>xmos_fw_version_\<close> of 5: the predicate \<open>sat_wf\<close>). The SPI device, the reset
  pin, clock, delays and the registered state callbacks are the operations of \<open>'w sat_env\<close>; a callback gets the object
  as it is at the call. \<open>spi_xfer\<close> is \<open>transfer_array\<close>: it is given the bytes to send and answers with the bytes that
  replaced them; the law the code relies on is that their number is the same (\<open>spi_law\<close>).
\<close>

section \<open>Constants and data\<close>

definition CONTROL_CMD_READ_BIT :: u8 where "CONTROL_CMD_READ_BIT = 0x80"

definition CONTROL_COMMAND_IGNORED_IN_DEVICE :: u8 where "CONTROL_COMMAND_IGNORED_IN_DEVICE = 7"

definition MAX_CONNECTION_ATTEMPTS :: u8 where "MAX_CONNECTION_ATTEMPTS = 3"

datatype DcResourceEnum = CNTRL_ID | DFU_CONTROLLER | GPIO_PORT_IN_A | GPIO_PORT_IN_B | GPIO_PORT_OUT_A

fun resource_code :: "DcResourceEnum \<Rightarrow> u8" where
  "resource_code CNTRL_ID = 1"
| "resource_code DFU_CONTROLLER = 240"
| "resource_code GPIO_PORT_IN_A = 211"
| "resource_code GPIO_PORT_IN_B = 212"
| "resource_code GPIO_PORT_OUT_A = 221"

datatype DcRetStatusEnum = CMD_SUCCESS | DEVICE_BUSY | PAYLOAD_AVAILABLE

fun ret_status_code :: "DcRetStatusEnum \<Rightarrow> u8" where
  "ret_status_code CMD_SUCCESS = 0"
| "ret_status_code DEVICE_BUSY = 7"
| "ret_status_code PAYLOAD_AVAILABLE = 23"

datatype RegisterId = REG_DEVICE_STATUS | REG_GPIO_PORT_IN_A | REG_GPIO_PORT_IN_B | REG_GPIO_PORT_OUT_A

fun register_index :: "RegisterId \<Rightarrow> nat" where
  "register_index REG_DEVICE_STATUS = 0"
| "register_index REG_GPIO_PORT_IN_A = 1"
| "register_index REG_GPIO_PORT_IN_B = 2"
| "register_index REG_GPIO_PORT_OUT_A = 3"

definition REGISTER_LEN :: nat where "REGISTER_LEN = 4"

definition GET_VERSION :: u8 where "GET_VERSION = 88 OR CONTROL_CMD_READ_BIT"

datatype Satellite1State = SAT_DETACHED_STATE | SAT_XMOS_CONNECTED_STATE | SAT_FLASH_CONNECTED_STATE

record satellite1 =
  sat_state :: Satellite1State
  xmos_fw_version :: "u8 list"
  connection_attempts :: u8
  last_attempt_timestamp :: u32
  dc_status_register :: "u8 list"
  spi_flash_direct_access_enabled :: bool
  spi_transfer_buffer :: "u8 list"
  xmos_rst_pin :: bool

text \<open>A new object; the status register, the transfer buffer and whether a reset pin is configured are not
  determined by the class.\<close>

definition sat_init :: "u8 list \<Rightarrow> u8 list \<Rightarrow> bool \<Rightarrow> satellite1" where
  "sat_init regs buf pin =
     \<lparr>sat_state = SAT_DETACHED_STATE, xmos_fw_version = [0, 0, 0, 0, 0], connection_attempts = 0,
      last_attempt_timestamp = 0, dc_status_register = regs, spi_flash_direct_access_enabled = False,
      spi_transfer_buffer = buf, xmos_rst_pin = pin\<rparr>"

definition set_xmos_rst_pin :: "bool \<Rightarrow> satellite1 \<Rightarrow> satellite1" where
  "set_xmos_rst_pin given s = s\<lparr>xmos_rst_pin := given\<rparr>"

record 'w sat_env =
  spi_setup :: "'w \<Rightarrow> 'w"
  spi_enable :: "'w \<Rightarrow> 'w"
  spi_disable :: "'w \<Rightarrow> 'w"
  spi_byte :: "u8 \<Rightarrow> 'w \<Rightarrow> u8 \<times> 'w"
  spi_xfer :: "u8 list \<Rightarrow> 'w \<Rightarrow> u8 list \<times> 'w"
  task_delay :: "nat \<Rightarrow> 'w \<Rightarrow> 'w"
  sat_millis :: "'w \<Rightarrow> u32 \<times> 'w"
  rst_pin_setup :: "'w \<Rightarrow> 'w"
  rst_pin_write :: "bool \<Rightarrow> 'w \<Rightarrow> 'w"
  sat_callback :: "satellite1 \<Rightarrow> 'w \<Rightarrow> 'w"
  raw_version_resp :: "u8 list"

type_synonym ('w, 'a) sat_prog = "(satellite1 \<times> 'w, 'a) state"

text \<open>Calling the registered callbacks with the object as it is.\<close>

definition call_state_callback :: "'w sat_env \<Rightarrow> ('w, unit) sat_prog" where
  "call_state_callback E = do { s \<leftarrow> obj_get id; ext0 (sat_callback E s) }"

section \<open>Transfers\<close>

text \<open>\<open>memcpy\<close> and \<open>memset\<close> into an array at an offset, and exchanging its first \<open>n\<close> bytes.\<close>

definition write_at :: "nat \<Rightarrow> u8 list \<Rightarrow> u8 list \<Rightarrow> u8 list" where
  "write_at i bs arr = take i arr @ bs @ drop (i + length bs) arr"

definition spi_exchange :: "'w sat_env \<Rightarrow> nat \<Rightarrow> ('w, unit) sat_prog" where
  "spi_exchange E n = do {
     buf \<leftarrow> obj_get spi_transfer_buffer;
     ext0 (spi_enable E);
     r \<leftarrow> ext (spi_xfer E (take n buf));
     obj_mod (\<lambda>s. s\<lparr>spi_transfer_buffer := write_at 0 r (spi_transfer_buffer s)\<rparr>);
     ext0 (spi_disable E);
     ext0 (task_delay E 1)
   }"

definition cmd_len_byte :: "u8 \<Rightarrow> u8 \<Rightarrow> u8" where
  "cmd_len_byte command payload_len = payload_len + of_bool (command AND CONTROL_CMD_READ_BIT \<noteq> 0)"

definition status_report_dummies :: "u8 \<Rightarrow> nat" where
  "status_report_dummies payload_len = nat (max 0 (int REGISTER_LEN - uint payload_len - 1))"

text \<open>The first \<open>do\<close> loop of \<open>transfer\<close>: send the command, again while the device ignores it and
  attempts are left.\<close>

fun send_loop :: "'w sat_env \<Rightarrow> u8 \<Rightarrow> u8 \<Rightarrow> u8 list \<Rightarrow> u8 \<Rightarrow> nat \<Rightarrow> ('w, unit) sat_prog" where
  "send_loop E resource_id command payload payload_len attempts = do {
     obj_mod (\<lambda>s. s\<lparr>spi_transfer_buffer :=
       write_at 0 ([resource_id, command, cmd_len_byte command payload_len] @ take (unat payload_len) payload)
         (spi_transfer_buffer s)\<rparr>);
     spi_exchange E (unat payload_len + 3 + status_report_dummies payload_len);
     buf \<leftarrow> obj_get spi_transfer_buffer;
     (case attempts of
        0 \<Rightarrow> ret ()
      | Suc k \<Rightarrow>
          if buf ! 0 = CONTROL_COMMAND_IGNORED_IN_DEVICE
          then send_loop E resource_id command payload payload_len k else ret ())
   }"

text \<open>The second one: clear the buffer and read the answer.\<close>

fun read_loop :: "'w sat_env \<Rightarrow> u8 \<Rightarrow> nat \<Rightarrow> ('w, unit) sat_prog" where
  "read_loop E payload_len attempts = do {
     obj_mod (\<lambda>s. s\<lparr>spi_transfer_buffer :=
       write_at 0 (replicate (unat payload_len + 3) 0) (spi_transfer_buffer s)\<rparr>);
     spi_exchange E (unat payload_len + 3);
     buf \<leftarrow> obj_get spi_transfer_buffer;
     (case attempts of
        0 \<Rightarrow> ret ()
      | Suc k \<Rightarrow> if buf ! 0 = CONTROL_COMMAND_IGNORED_IN_DEVICE then read_loop E payload_len k else ret ())
   }"

declare send_loop.simps [simp del] read_loop.simps [simp del]

text \<open>\<open>transfer\<close> gives its result and the contents of the payload buffer afterwards.\<close>

definition transfer :: "'w sat_env \<Rightarrow> u8 \<Rightarrow> u8 \<Rightarrow> u8 list \<Rightarrow> u8 \<Rightarrow> ('w, bool \<times> u8 list) sat_prog" where
  "transfer E resource_id command payload payload_len = do {
     direct \<leftarrow> obj_get spi_flash_direct_access_enabled;
     if direct then ret (False, payload)
     else do {
       obj_mod (\<lambda>s. s\<lparr>spi_transfer_buffer := replicate (length (spi_transfer_buffer s)) 0\<rparr>);
       send_loop E resource_id command payload payload_len 3;
       buf \<leftarrow> obj_get spi_transfer_buffer;
       if buf ! 0 = CONTROL_COMMAND_IGNORED_IN_DEVICE then ret (False, payload)
       else if uint (buf ! 0) + uint (buf ! 1) + uint (buf ! 2) = 0 then ret (False, payload)
       else do {
         (if buf ! 0 = resource_code CNTRL_ID \<and> buf ! 1 \<noteq> ret_status_code PAYLOAD_AVAILABLE
          then obj_mod (\<lambda>s. s\<lparr>dc_status_register := take REGISTER_LEN (drop 2 buf)\<rparr>)
          else ret ());
         if command AND CONTROL_CMD_READ_BIT \<noteq> 0 then do {
           read_loop E payload_len 3;
           buf \<leftarrow> obj_get spi_transfer_buffer;
           if buf ! 0 = CONTROL_COMMAND_IGNORED_IN_DEVICE then ret (False, payload)
           else ret (True, write_at 0 (take (unat payload_len) (drop 1 buf)) payload)
         } else ret (True, payload)
       }
     }
   }"

definition request_status_register_update :: "'w sat_env \<Rightarrow> ('w, bool) sat_prog" where
  "request_status_register_update E = do { r \<leftarrow> transfer E 0 0 [] 0; ret (fst r) }"

definition get_dc_status :: "RegisterId \<Rightarrow> satellite1 \<Rightarrow> u8" where
  "get_dc_status reg s = dc_status_register s ! register_index reg"

section \<open>Connection\<close>

definition dfu_get_fw_version :: "'w sat_env \<Rightarrow> ('w, bool) sat_prog" where
  "dfu_get_fw_version E = do {
     r \<leftarrow> transfer E (resource_code DFU_CONTROLLER) GET_VERSION (raw_version_resp E) 5;
     if \<not> fst r then ret False
     else do {
       obj_mod (\<lambda>s. s\<lparr>xmos_fw_version := take 5 (snd r)\<rparr>);
       ret True
     }
   }"

definition check_for_xmos :: "'w sat_env \<Rightarrow> ('w, bool) sat_prog" where
  "check_for_xmos E = do {
     ok \<leftarrow> dfu_get_fw_version E;
     if \<not> ok then ret False
     else do {
       v \<leftarrow> obj_get xmos_fw_version;
       ret (v \<noteq> replicate 5 0)
     }
   }"

definition sat_setup :: "'w sat_env \<Rightarrow> ('w, unit) sat_prog" where
  "sat_setup E = do {
     ext0 (spi_setup E);
     ext0 (spi_enable E);
     _ \<leftarrow> ext (spi_byte E 0);
     ext0 (spi_disable E);
     pin \<leftarrow> obj_get xmos_rst_pin;
     (if pin then ext0 (rst_pin_setup E) else ret ());
     obj_mod (\<lambda>s. s\<lparr>xmos_fw_version := replicate 5 0\<rparr>);
     _ \<leftarrow> dfu_get_fw_version E;
     ret ()
   }"

definition sat_loop :: "'w sat_env \<Rightarrow> ('w, unit) sat_prog" where
  "sat_loop E = do {
     st \<leftarrow> obj_get sat_state;
     case st of
       SAT_DETACHED_STATE \<Rightarrow> do {
         attempts \<leftarrow> obj_get connection_attempts;
         last_ts \<leftarrow> obj_get last_attempt_timestamp;
         due \<leftarrow> (if attempts \<le> MAX_CONNECTION_ATTEMPTS
                 then do { now \<leftarrow> ext (sat_millis E); ret (now - last_ts > 1000) } else ret False);
         if due then do {
           (if attempts = MAX_CONNECTION_ATTEMPTS then call_state_callback E
            else do {
              found \<leftarrow> check_for_xmos E;
              if found then do {
                obj_mod (\<lambda>s. s\<lparr>sat_state := SAT_XMOS_CONNECTED_STATE, connection_attempts := 0\<rparr>);
                call_state_callback E
              } else ret ()
            });
           now \<leftarrow> ext (sat_millis E);
           obj_mod (\<lambda>s. s\<lparr>last_attempt_timestamp := now, connection_attempts := connection_attempts s + 1\<rparr>)
         } else ret ()
       }
     | SAT_XMOS_CONNECTED_STATE \<Rightarrow> ret ()
     | SAT_FLASH_CONNECTED_STATE \<Rightarrow> ret ()
   }"

definition set_spi_flash_direct_access_mode :: "'w sat_env \<Rightarrow> bool \<Rightarrow> ('w, unit) sat_prog" where
  "set_spi_flash_direct_access_mode E enable = do {
     ext0 (rst_pin_write E enable);
     (if enable then obj_mod (\<lambda>s. s\<lparr>sat_state := SAT_FLASH_CONNECTED_STATE\<rparr>)
      else do {
        direct \<leftarrow> obj_get spi_flash_direct_access_enabled;
        if direct then obj_mod (\<lambda>s. s\<lparr>sat_state := SAT_DETACHED_STATE, connection_attempts := 0\<rparr>) else ret ()
      });
     obj_mod (\<lambda>s. s\<lparr>spi_flash_direct_access_enabled := enable\<rparr>);
     call_state_callback E
   }"

definition xmos_hardware_reset :: "'w sat_env \<Rightarrow> ('w, unit) sat_prog" where
  "xmos_hardware_reset E = do {
     ext0 (rst_pin_write E True);
     ext0 (task_delay E 100);
     ext0 (rst_pin_write E False);
     ext0 (task_delay E 100)
   }"

definition prerelease_str :: "u8 \<Rightarrow> string" where
  "prerelease_str pre_idx =
     (if pre_idx = 1 then ''alpha'' else if pre_idx = 2 then ''beta'' else if pre_idx = 3 then ''rc''
      else if pre_idx = 4 then ''dev'' else [])"

definition status_string :: "satellite1 \<Rightarrow> string" where
  "status_string s =
     (case sat_state s of
        SAT_DETACHED_STATE \<Rightarrow> ''XMOS not responding''
      | SAT_XMOS_CONNECTED_STATE \<Rightarrow>
          (let v = xmos_fw_version s
           in ''v'' @ dec_str (unat (v ! 0)) @ ''.'' @ dec_str (unat (v ! 1)) @ ''.'' @ dec_str (unat (v ! 2)) @
              (if v ! 3 \<noteq> 0 then ''-'' @ prerelease_str (v ! 3) else []) @
              (if v ! 4 \<noteq> 0 then ''.'' @ dec_str (unat (v ! 4)) else []))
      | SAT_FLASH_CONNECTED_STATE \<Rightarrow> ''Flashing Mode'')"

section \<open>GPIO pins\<close>

definition GPIO_SERVICER_CMD_SET_PIN :: u8 where "GPIO_SERVICER_CMD_SET_PIN = 0x02"

datatype XMOSPort = INPUT_A | INPUT_B | OUTPUT_A

record gpio_pin =
  gpio_parent :: bool
  gpio_port :: XMOSPort
  gpio_pin_no :: u8
  gpio_inverted :: bool

fun port_register :: "XMOSPort \<Rightarrow> RegisterId" where
  "port_register INPUT_A = REG_GPIO_PORT_IN_A"
| "port_register INPUT_B = REG_GPIO_PORT_IN_B"
| "port_register OUTPUT_A = REG_GPIO_PORT_OUT_A"

definition digital_write :: "'w sat_env \<Rightarrow> gpio_pin \<Rightarrow> bool \<Rightarrow> ('w, unit) sat_prog" where
  "digital_write E p v =
     (if \<not> gpio_parent p then ret ()
      else if gpio_port p \<noteq> OUTPUT_A then ret ()
      else do {
        _ \<leftarrow> transfer E (resource_code GPIO_PORT_OUT_A) GPIO_SERVICER_CMD_SET_PIN [gpio_pin_no p, of_bool v] 2;
        ret ()
      })"

definition digital_read :: "'w sat_env \<Rightarrow> gpio_pin \<Rightarrow> ('w, bool) sat_prog" where
  "digital_read E p =
     (if \<not> gpio_parent p then ret False
      else do {
        _ \<leftarrow> request_status_register_update E;
        port_value \<leftarrow> obj_get (get_dc_status (port_register (gpio_port p)));
        ret (bit port_value (unat (gpio_pin_no p)) \<noteq> gpio_inverted p)
      })"

section \<open>Automation\<close>

definition XMOSHardwareResetAction_play :: "'w sat_env \<Rightarrow> ('w, unit) sat_prog" where
  "XMOSHardwareResetAction_play E = xmos_hardware_reset E"

definition Satellite1StateTrigger :: "Satellite1State \<Rightarrow> satellite1 \<Rightarrow> bool" where
  "Satellite1StateTrigger st s \<longleftrightarrow> sat_state s = st"

definition XMOSNoResponseStateTrigger :: "satellite1 \<Rightarrow> bool" where
  "XMOSNoResponseStateTrigger s \<longleftrightarrow>
     sat_state s = SAT_DETACHED_STATE \<and> connection_attempts s = MAX_CONNECTION_ATTEMPTS"

end
