(* ===== verification/Memory_Flasher.thy ===== *)
theory Memory_Flasher
  imports Satellite1_Core
begin

text \<open>
  \<open>class MemoryFlasher\<close> and the image readers of \<open>esphome/components/memory_flasher/memory_flasher.h\<close> and
  \<open>memory_flasher.cpp\<close>, and the actions and triggers of its \<open>automation.h\<close>.

  The record \<open>mflash\<close> holds the members; \<open>XMOSFlasher\<close> extends it. The HTTP client (containers are
  numbered handles), the MD5 implementation, the watchdog and the registered callbacks are operations of \<open>'w flash_env\<close>.
  An operation that may not return gives an option: \<open>None\<close> stands for a run that does not come back (an endless loop, or
  a trap such as following a null pointer or dividing by zero).

  The locale \<open>image_source\<close> is the contract of \<open>FlashImageReader\<close> the flashing loop relies on; it is interpreted on
  the embedded reader, and the lemmas about reading a whole image are proved once in it.
\<close>

section \<open>Data\<close>

datatype FlasherAction = ACTION_FULL_ERASE | ACTION_FLASH_REMOTE_IMAGE | ACTION_FLASH_EMBEDDED_IMAGE

datatype FlasherError =
    FLASHER_OK | INIT_READER_ERROR | INIT_FLASH_ERROR | WRITE_TO_FLASH_ERROR | MD5_MISMATCH_ERROR
  | MD5_INVALID | BAD_URL | CONNECTION_ERROR | NO_EMBEDDED_IMAGE_ERROR

datatype FlasherState =
    FLASHER_IDLE | FLASHER_RECEIVING_IMG_INFO | FLASHER_INITIALIZING | FLASHER_ERASING | FLASHER_FLASHING
  | FLASHER_SUCCESS_STATE | FLASHER_ERROR_STATE

record flash_image =
  fi_data :: "u8 list"
  fi_length :: u32
  fi_md5 :: string
  fi_version :: "u8 list"

text \<open>\<open>FlashImageReader\<close> and its two implementations: an HTTP reader knows whether it was given a client,
  its address and its container; an embedded reader its image and its position.\<close>

datatype image_reader =
    HttpImageReader bool string "nat option"
  | EmbeddedImageReader flash_image u32

record mflash =
  flashing_progress :: u8
  fl_state :: FlasherState
  error_code :: FlasherError
  requested_action :: FlasherAction
  embedded_image :: flash_image
  http_request :: bool
  md5_computed :: string
  md5_expected :: string
  md5_url :: string
  fl_url :: string

definition MD5_SIZE :: nat where "MD5_SIZE = 32"

definition no_image :: flash_image where
  "no_image = \<lparr>fi_data = [], fi_length = 0, fi_md5 = [], fi_version = [0, 0, 0, 0, 0]\<rparr>"

definition mflash_init :: mflash where
  "mflash_init =
     \<lparr>flashing_progress = 0, fl_state = FLASHER_IDLE, error_code = FLASHER_OK, requested_action = ACTION_FULL_ERASE,
      embedded_image = no_image, http_request = False, md5_computed = [], md5_expected = [], md5_url = [], fl_url = []\<rparr>"

text \<open>\<open>http_read\<close> answers the return value and the bytes put into the buffer; \<open>mf_callback\<close> gets the members of
  \<open>MemoryFlasher\<close> as they are at the call.\<close>

record 'w flash_env = "'w sat_env" +
  http_get :: "string \<Rightarrow> 'w \<Rightarrow> nat option \<times> 'w"
  http_content_length :: "nat \<Rightarrow> 'w \<Rightarrow> u32"
  http_bytes_read :: "nat \<Rightarrow> 'w \<Rightarrow> nat"
  http_read :: "nat \<Rightarrow> nat \<Rightarrow> 'w \<Rightarrow> (int \<times> u8 list) \<times> 'w"
  http_end :: "nat \<Rightarrow> 'w \<Rightarrow> 'w"
  feed_and_yield :: "'w \<Rightarrow> 'w"
  mf_callback :: "mflash \<Rightarrow> 'w \<Rightarrow> 'w"
  md5_hex :: "u8 list \<Rightarrow> string"
  malloc_page :: "'w \<Rightarrow> (u8 list) option \<times> 'w"
  free_page :: "'w \<Rightarrow> 'w"

section \<open>Image readers\<close>

definition init_reader :: "'w flash_env \<Rightarrow> image_reader \<Rightarrow> 'w \<Rightarrow> (bool \<times> image_reader) \<times> 'w" where
  "init_reader E rd w =
     (case rd of
        EmbeddedImageReader img pos \<Rightarrow> ((True, EmbeddedImageReader img 0), w)
      | HttpImageReader http url c \<Rightarrow>
          if url = [] \<or> \<not> http then ((False, rd), w)
          else case http_get E url w of (c', w') \<Rightarrow> ((c' \<noteq> None, HttpImageReader http url c'), w'))"

definition deinit_reader :: "'w flash_env \<Rightarrow> image_reader \<Rightarrow> 'w \<Rightarrow> 'w" where
  "deinit_reader E rd w =
     (case rd of
        HttpImageReader http url (Some c) \<Rightarrow> http_end E c w
      | _ \<Rightarrow> w)"

definition get_image_size :: "'w flash_env \<Rightarrow> image_reader \<Rightarrow> 'w \<Rightarrow> u32" where
  "get_image_size E rd w =
     (case rd of
        EmbeddedImageReader img pos \<Rightarrow> fi_length img
      | HttpImageReader http url None \<Rightarrow> 0
      | HttpImageReader http url (Some c) \<Rightarrow> http_content_length E c w)"

text \<open>\<open>EmbeddedImageReader::read_image_block\<close>: the number of bytes read, the bytes, and the new position.\<close>

definition embedded_read :: "flash_image \<Rightarrow> u32 \<Rightarrow> u32 \<Rightarrow> u32 \<times> u8 list \<times> u32" where
  "embedded_read img pos block_size =
     (let to_read = (if fi_length img - pos \<ge> block_size then block_size else fi_length img - pos)
      in (to_read, take (unat to_read) (drop (unat pos) (fi_data img)), pos + to_read))"

text \<open>\<open>read_image_block\<close>: return value, bytes put into the buffer, reader and world; a missing container is
  a null pointer.\<close>

definition read_image_block ::
    "'w flash_env \<Rightarrow> image_reader \<Rightarrow> u32 \<Rightarrow> 'w \<Rightarrow> (int \<times> u8 list \<times> image_reader \<times> 'w) option" where
  "read_image_block E rd block_size w =
     (case rd of
        EmbeddedImageReader img pos \<Rightarrow>
          (case embedded_read img pos block_size of (n, bs, pos') \<Rightarrow>
             Some (sint n, bs, EmbeddedImageReader img pos', w))
      | HttpImageReader http url None \<Rightarrow> None
      | HttpImageReader http url (Some c) \<Rightarrow>
          (case http_read E c (unat block_size) w of ((n, bs), w') \<Rightarrow> Some (n, bs, rd, w')))"

section \<open>The flasher base class\<close>

definition has_image_embedded :: "'s mflash_scheme \<Rightarrow> bool" where
  "has_image_embedded s \<longleftrightarrow> fi_length (embedded_image s) > 0"

definition match_embedded :: "u8 list \<Rightarrow> 's mflash_scheme \<Rightarrow> bool" where
  "match_embedded to_compare s \<longleftrightarrow> take 5 (fi_version (embedded_image s)) = take 5 to_compare"

definition set_embedded_image :: "u8 list \<Rightarrow> u32 \<Rightarrow> string \<Rightarrow> u8 list \<Rightarrow> 's mflash_scheme \<Rightarrow> 's mflash_scheme" where
  "set_embedded_image data len expected_md5 version_bytes s =
     s\<lparr>embedded_image := \<lparr>fi_data = data, fi_length = len, fi_md5 = expected_md5, fi_version = take 5 version_bytes\<rparr>\<rparr>"

definition set_md5 :: "string \<Rightarrow> 's mflash_scheme \<Rightarrow> 's mflash_scheme" where
  "set_md5 md5 s = s\<lparr>md5_expected := md5\<rparr>"

definition validate_url :: "string \<Rightarrow> bool" where
  "validate_url url = True"

definition set_url :: "string \<Rightarrow> 's mflash_scheme \<Rightarrow> 's mflash_scheme" where
  "set_url url s = (if \<not> validate_url url then s\<lparr>fl_url := []\<rparr> else s\<lparr>fl_url := url\<rparr>)"

definition set_md5_url :: "string \<Rightarrow> 's mflash_scheme \<Rightarrow> 's mflash_scheme" where
  "set_md5_url url s =
     (if \<not> validate_url url then s\<lparr>md5_url := []\<rparr> else s\<lparr>md5_url := url, md5_expected := []\<rparr>)"

definition set_http_request_component :: "bool \<Rightarrow> 's mflash_scheme \<Rightarrow> 's mflash_scheme" where
  "set_http_request_component given s = s\<lparr>http_request := given\<rparr>"

definition mf_publish :: "('w, 'e) flash_env_scheme \<Rightarrow> ('s mflash_scheme \<times> 'w, unit) state" where
  "mf_publish E = do { m \<leftarrow> obj_get mflash.truncate; ext0 (mf_callback E m) }"

text \<open>\<open>std::string::resize\<close>.\<close>

definition resize_str :: "nat \<Rightarrow> string \<Rightarrow> string" where
  "resize_str n str = take n str @ replicate (n - length str) (char_of (0 :: nat))"

text \<open>The reading loop of \<open>http_get_md5_\<close>: every read goes to the front of the buffer.\<close>

partial_function (option) md5_read_loop ::
    "'w flash_env \<Rightarrow> nat \<Rightarrow> int \<Rightarrow> string \<Rightarrow> 'w \<Rightarrow> (int \<times> string \<times> 'w) option" where
  "md5_read_loop E c read_len buf w =
     (if \<not> http_bytes_read E c w < MD5_SIZE then Some (read_len, buf, w)
      else let r = http_read E c MD5_SIZE w; bs = map (\<lambda>b. char_of (unat b)) (take MD5_SIZE (snd (fst r)))
           in md5_read_loop E c (fst (fst r)) (bs @ drop (length bs) buf) (feed_and_yield E (snd r)))"

definition http_get_md5 ::
    "'w flash_env \<Rightarrow> 's mflash_scheme \<times> 'w \<Rightarrow> (bool \<times> ('s mflash_scheme \<times> 'w)) option" where
  "http_get_md5 E sw =
     (case sw of (s, w) \<Rightarrow>
        if md5_url s = [] then Some (False, sw)
        else if \<not> http_request s then None
        else case http_get E (md5_url s) w of
            (None, w1) \<Rightarrow> Some (False, (s, w1))
          | (Some c, w1) \<Rightarrow>
              (let len = http_content_length E c w1
               in if len = 0 then Some (False, (s, http_end E c w1))
                  else if unat len < MD5_SIZE then Some (False, (s, http_end E c w1))
                  else do {
                    (read_len, buf, w2) \<leftarrow> md5_read_loop E c 0 (resize_str MD5_SIZE (md5_expected s)) w1;
                    Some (read_len = int MD5_SIZE, (s\<lparr>md5_expected := buf\<rparr>, http_end E c w2))
                  }))"

section \<open>Automation\<close>

text \<open>\<open>FlashAction::play\<close> with the virtual \<open>flash_remote_image\<close> as a parameter.\<close>

definition FlashAction_play ::
    "('s mflash_scheme \<times> 'w \<Rightarrow> (unit \<times> ('s mflash_scheme \<times> 'w)) option) \<Rightarrow> string option \<Rightarrow> string option \<Rightarrow> string \<Rightarrow>
     's mflash_scheme \<times> 'w \<Rightarrow> (unit \<times> ('s mflash_scheme \<times> 'w)) option" where
  "FlashAction_play flash_remote url5 md5 url sw =
     (let s = fst sw;
          s1 = (case url5 of None \<Rightarrow> s | Some u \<Rightarrow> set_md5_url u s);
          s2 = (case md5 of None \<Rightarrow> s1 | Some m \<Rightarrow> set_md5 m s1)
      in flash_remote (set_url url s2, snd sw))"

definition FlasherStateTrigger :: "FlasherState \<Rightarrow> 's mflash_scheme \<Rightarrow> bool" where
  "FlasherStateTrigger st s \<longleftrightarrow> fl_state s = st"

definition FlasherSuccessTrigger :: "'s mflash_scheme \<Rightarrow> bool" where
  "FlasherSuccessTrigger = FlasherStateTrigger FLASHER_SUCCESS_STATE"

definition FlasherFailedTrigger :: "'s mflash_scheme \<Rightarrow> bool" where
  "FlasherFailedTrigger = FlasherStateTrigger FLASHER_ERROR_STATE"

text \<open>Triggers with memory: the new memory and whether they fire.\<close>

definition FlashingStartedTrigger :: "FlasherState \<Rightarrow> 's mflash_scheme \<Rightarrow> FlasherState \<times> bool" where
  "FlashingStartedTrigger last_reported s =
     (if fl_state s = FLASHER_ERASING \<and> last_reported \<noteq> FLASHER_ERASING then (FLASHER_ERASING, True)
      else (fl_state s, False))"

definition ErasingDoneTrigger :: "'s mflash_scheme \<Rightarrow> bool" where
  "ErasingDoneTrigger s \<longleftrightarrow> fl_state s = FLASHER_SUCCESS_STATE \<and> requested_action s = ACTION_FULL_ERASE"

definition FlashingProgressUpdateTrigger :: "u8 \<Rightarrow> 's mflash_scheme \<Rightarrow> u8 \<times> bool" where
  "FlashingProgressUpdateTrigger last_reported s =
     (if fl_state s = FLASHER_FLASHING \<and> flashing_progress s \<noteq> last_reported then (flashing_progress s, True)
      else (last_reported, False))"

definition InProgressCondition :: "'s mflash_scheme \<Rightarrow> bool" where
  "InProgressCondition s \<longleftrightarrow> fl_state s \<noteq> FLASHER_IDLE"

end
