(* ===== verification/Xmos_Flasher.thy ===== *)
theory Xmos_Flasher
  imports Memory_Flasher
begin

text \<open>
  \<open>class XMOSFlasher\<close> of \<open>esphome/components/satellite1/memory_flasher/xmos_flashing.h\<close> and \<open>xmos_flashing.cpp\<close>: erasing
  and programming the XMOS chip's SPI flash, one sector or page per turn of the main loop.

  The record \<open>xflash\<close> extends \<open>mflash\<close>; the hub the flasher belongs to is the member \<open>fl_parent\<close>, whose operations
  are those of \<open>Satellite1_Core\<close>. \<open>size_t\<close> is 32 bits wide on the target, \<open>int\<close> members are integers. Buffers are lists,
  \<open>None\<close> when they are not allocated. Polling the busy flag need not end if the clock stands still, so it is a
  \<^theory_text>\<open>partial_function (option)\<close> and everything that polls gives an option.
\<close>

section \<open>State\<close>

definition FLASH_PAGE_SIZE :: u32 where "FLASH_PAGE_SIZE = 256"

definition FLASH_SECTOR_SIZE :: u32 where "FLASH_SECTOR_SIZE = 4096"

definition FLASH_TOTAL_NUMBER_OF_SECTORS :: u32 where
  "FLASH_TOTAL_NUMBER_OF_SECTORS = 8388608 div FLASH_SECTOR_SIZE"

record xflash = mflash +
  fl_parent :: satellite1
  manufacturer_id :: u8
  memory_type_id :: u8
  capacity_id :: u8
  total_number_of_sectors :: u32
  fl_reader :: "image_reader option"
  md5_receive :: "u8 list"
  flashing_start_time :: u32
  last_published :: u32
  total_sectors_to_erase :: u32
  current_sector :: int
  total_number_of_bytes :: u32
  bytes_remaining :: u32
  page_pos :: int
  reader_buffer :: "u8 list option"
  compare_buffer :: "u8 list option"

type_synonym ('w, 'a) fl_prog = "(xflash \<times> 'w, 'a) state"

type_synonym ('w, 'a) fl_opt = "xflash \<times> 'w \<Rightarrow> ('a \<times> (xflash \<times> 'w)) option"

definition xflash_init :: "satellite1 \<Rightarrow> xflash" where
  "xflash_init parent = mflash.extend mflash_init
     \<lparr>fl_parent = parent, manufacturer_id = 0, memory_type_id = 0, capacity_id = 0, total_number_of_sectors = 0,
      fl_reader = None, md5_receive = [], flashing_start_time = 0, last_published = 0, total_sectors_to_erase = 0,
      current_sector = -1, total_number_of_bytes = 0, bytes_remaining = 0, page_pos = 0, reader_buffer = None,
      compare_buffer = None\<rparr>"

text \<open>A total program as one that may not return; an operation of the hub; the hub's SPI primitives.\<close>

definition total_run :: "('w, 'a) fl_prog \<Rightarrow> ('w, 'a) fl_opt" where
  "total_run m sw = Some (run_state m sw)"

definition on_parent :: "(satellite1 \<times> 'w, 'a) state \<Rightarrow> ('w, 'a) fl_prog" where
  "on_parent m = State (\<lambda>(s, w). case run_state m (fl_parent s, w) of (r, (p, w')) \<Rightarrow> (r, (s\<lparr>fl_parent := p\<rparr>, w')))"

definition sat_env_of :: "('w, 'e) sat_env_scheme \<Rightarrow> 'w sat_env" where
  "sat_env_of E = sat_env.truncate E"

definition enable_spi :: "('w, 'e) sat_env_scheme \<Rightarrow> ('w, unit) fl_prog" where
  "enable_spi E = ext0 (spi_enable E)"

definition disable_spi :: "('w, 'e) sat_env_scheme \<Rightarrow> ('w, unit) fl_prog" where
  "disable_spi E = ext0 (spi_disable E)"

definition transfer_byte :: "('w, 'e) sat_env_scheme \<Rightarrow> u8 \<Rightarrow> ('w, u8) fl_prog" where
  "transfer_byte E b = ext (spi_byte E b)"

text \<open>Sending a list of bytes, and reading one with zeroes, byte by byte.\<close>

fun send_bytes :: "('w, 'e) sat_env_scheme \<Rightarrow> u8 list \<Rightarrow> ('w, unit) fl_prog" where
  "send_bytes E [] = ret ()"
| "send_bytes E (b # bs) = do { _ \<leftarrow> transfer_byte E b; send_bytes E bs }"

fun recv_bytes :: "('w, 'e) sat_env_scheme \<Rightarrow> nat \<Rightarrow> ('w, u8 list) fl_prog" where
  "recv_bytes E 0 = ret []"
| "recv_bytes E (Suc n) = do { b \<leftarrow> transfer_byte E 0; bs \<leftarrow> recv_bytes E n; ret (b # bs) }"

text \<open>The three address bytes of a command, most significant first: bytes 2, 1 and 0 of the little-endian word.\<close>

definition addr_bytes :: "u32 \<Rightarrow> u8 list" where
  "addr_bytes a = [le32_bytes a ! 2, le32_bytes a ! 1, le32_bytes a ! 0]"

section \<open>Flash commands\<close>

definition read_jedec_id :: "'w flash_env \<Rightarrow> ('w, bool) fl_prog" where
  "read_jedec_id E = do {
     enable_spi E;
     _ \<leftarrow> transfer_byte E 0x9F;
     manufacturer \<leftarrow> transfer_byte E 0;
     memory_type \<leftarrow> transfer_byte E 0;
     capacity \<leftarrow> transfer_byte E 0;
     disable_spi E;
     if manufacturer \<noteq> 0 \<and> memory_type \<noteq> 0 \<and> capacity \<noteq> 0 then do {
       obj_mod (\<lambda>s. s\<lparr>manufacturer_id := manufacturer, memory_type_id := memory_type, capacity_id := capacity\<rparr>);
       ret True
     } else ret False
   }"

definition read_flash_status :: "'w flash_env \<Rightarrow> ('w, u8) fl_prog" where
  "read_flash_status E = do {
     enable_spi E;
     _ \<leftarrow> transfer_byte E 0x05;
     status \<leftarrow> transfer_byte E 0x00;
     disable_spi E;
     ret status
   }"

partial_function (option) busy_loop ::
    "'w flash_env \<Rightarrow> u32 \<Rightarrow> u32 \<Rightarrow> xflash \<times> 'w \<Rightarrow> (bool \<times> (xflash \<times> 'w)) option" where
  "busy_loop E timeout_invoke timeout_ms sw =
     (let c = run_state (ext (sat_millis E)) sw
      in if \<not> fst c - timeout_invoke < timeout_ms then Some (False, snd c)
         else let st = run_state (read_flash_status E) (snd c)
              in if fst st AND 1 = 0 then Some (True, snd st)
                 else busy_loop E timeout_invoke timeout_ms (snd st))"

definition wait_while_flash_busy :: "'w flash_env \<Rightarrow> u32 \<Rightarrow> ('w, bool) fl_opt" where
  "wait_while_flash_busy E timeout_ms sw =
     (case run_state (ext (sat_millis E)) sw of (timeout_invoke, sw1) \<Rightarrow> busy_loop E timeout_invoke timeout_ms sw1)"

definition enable_writing :: "'w flash_env \<Rightarrow> ('w, bool) fl_prog" where
  "enable_writing E = do {
     enable_spi E;
     _ \<leftarrow> transfer_byte E 0x06;
     disable_spi E;
     status \<leftarrow> read_flash_status E;
     ret (status AND 2 \<noteq> 0)
   }"

definition disable_writing :: "'w flash_env \<Rightarrow> ('w, bool) fl_prog" where
  "disable_writing E = do {
     enable_spi E;
     _ \<leftarrow> transfer_byte E 0x04;
     disable_spi E;
     ret True
   }"

definition erase_sector :: "'w flash_env \<Rightarrow> int \<Rightarrow> ('w, bool) fl_prog" where
  "erase_sector E sector = do {
     ok \<leftarrow> enable_writing E;
     if \<not> ok then ret False
     else do {
       enable_spi E;
       send_bytes E (0x20 # addr_bytes (word_of_int sector * FLASH_SECTOR_SIZE));
       disable_spi E;
       ret True
     }
   }"

definition chip_erase :: "'w flash_env \<Rightarrow> ('w, bool) fl_prog" where
  "chip_erase E = do {
     ok \<leftarrow> enable_writing E;
     if \<not> ok then ret False
     else do {
       enable_spi E;
       _ \<leftarrow> transfer_byte E 0xC7;
       disable_spi E;
       ret True
     }
   }"

definition write_page :: "'w flash_env \<Rightarrow> u32 \<Rightarrow> u8 list \<Rightarrow> ('w, bool) fl_opt" where
  "write_page E byte_addr buffer sw =
     (if byte_addr AND (FLASH_PAGE_SIZE - 1) \<noteq> 0 then Some (False, sw)
      else case run_state (enable_writing E) sw of (ok, sw1) \<Rightarrow>
        if \<not> ok then Some (False, sw1)
        else do {
          (_, sw2) \<leftarrow> total_run (do {
            enable_spi E;
            send_bytes E (0x02 # addr_bytes byte_addr @ buffer);
            disable_spi E
          }) sw1;
          (ready, sw3) \<leftarrow> wait_while_flash_busy E 15 sw2;
          if \<not> ready then Some (False, sw3)
          else do {
            (_, sw4) \<leftarrow> total_run (disable_writing E) sw3;
            Some (True, sw4)
          }
        })"

text \<open>\<open>read_page_\<close> gives its result and the contents of the buffer afterwards.\<close>

definition read_page :: "'w flash_env \<Rightarrow> u32 \<Rightarrow> u8 list \<Rightarrow> ('w, bool \<times> u8 list) fl_prog" where
  "read_page E byte_addr buffer =
     (if byte_addr AND (FLASH_PAGE_SIZE - 1) \<noteq> 0 then ret (False, buffer)
      else do {
        enable_spi E;
        send_bytes E (0x0B # addr_bytes byte_addr @ [0x00]);
        bs \<leftarrow> recv_bytes E (unat FLASH_PAGE_SIZE);
        disable_spi E;
        ret (True, bs)
      })"

section \<open>Start and end\<close>

definition init_flasher :: "'w flash_env \<Rightarrow> ('w, bool) fl_prog" where
  "init_flasher E = do {
     on_parent (set_spi_flash_direct_access_mode (sat_env_of E) True);
     _ \<leftarrow> read_jedec_id E;
     obj_mod (\<lambda>s. s\<lparr>total_number_of_sectors := FLASH_TOTAL_NUMBER_OF_SECTORS\<rparr>);
     ret True
   }"

definition deinit_flasher :: "'w flash_env \<Rightarrow> ('w, bool) fl_prog" where
  "deinit_flasher E = do {
     on_parent (set_spi_flash_direct_access_mode (sat_env_of E) False);
     ret True
   }"

definition flash_accessible :: "'w flash_env \<Rightarrow> ('w, bool) fl_prog" where
  "flash_accessible E = do {
     on_parent (set_spi_flash_direct_access_mode (sat_env_of E) True);
     got_id \<leftarrow> read_jedec_id E;
     on_parent (set_spi_flash_direct_access_mode (sat_env_of E) False);
     ret got_id
   }"

definition erase_memory :: "('w, unit) fl_prog" where
  "erase_memory = obj_mod (\<lambda>s. if fl_state s \<noteq> FLASHER_IDLE then s
     else s\<lparr>requested_action := ACTION_FULL_ERASE, fl_state := FLASHER_INITIALIZING\<rparr>)"

definition flash_remote_image :: "'w flash_env \<Rightarrow> ('w, unit) fl_opt" where
  "flash_remote_image E sw =
     (case sw of (s, w) \<Rightarrow>
        if fl_state s \<noteq> FLASHER_IDLE then Some ((), sw)
        else if fl_url s = [] then Some ((), (s\<lparr>error_code := BAD_URL, fl_state := FLASHER_ERROR_STATE\<rparr>, w))
        else do {
          (ok, (s1, w1)) \<leftarrow> (if md5_expected s = [] then http_get_md5 E sw else Some (True, sw));
          if \<not> ok then Some ((), (s1\<lparr>error_code := MD5_INVALID, fl_state := FLASHER_ERROR_STATE\<rparr>, w1))
          else Some ((), (s1\<lparr>requested_action := ACTION_FLASH_REMOTE_IMAGE, fl_state := FLASHER_INITIALIZING\<rparr>, w1))
        })"

definition flash_embedded_image :: "('w, unit) fl_prog" where
  "flash_embedded_image = obj_mod (\<lambda>s. if fl_state s \<noteq> FLASHER_IDLE then s
     else if fi_length (embedded_image s) = 0
     then s\<lparr>error_code := NO_EMBEDDED_IMAGE_ERROR, fl_state := FLASHER_ERROR_STATE\<rparr>
     else s\<lparr>md5_expected := fi_md5 (embedded_image s), requested_action := ACTION_FLASH_EMBEDDED_IMAGE,
            fl_state := FLASHER_INITIALIZING\<rparr>)"

text \<open>The actions \<open>FlashEmbeddedAction\<close> and \<open>EraseMemoryAction\<close> call the two operations.\<close>

definition FlashEmbeddedAction_play :: "('w, unit) fl_prog" where
  "FlashEmbeddedAction_play = flash_embedded_image"

definition EraseMemoryAction_play :: "('w, unit) fl_prog" where
  "EraseMemoryAction_play = erase_memory"

definition size_in_pages :: "u32 \<Rightarrow> u32" where
  "size_in_pages size_in_bytes = (size_in_bytes + FLASH_PAGE_SIZE - 1) div FLASH_PAGE_SIZE"

definition size_in_sectors :: "u32 \<Rightarrow> u32" where
  "size_in_sectors size_in_bytes =
     (size_in_pages size_in_bytes * FLASH_PAGE_SIZE + FLASH_SECTOR_SIZE - 1) div FLASH_SECTOR_SIZE"

definition init_flashing :: "'w flash_env \<Rightarrow> ('w, bool) fl_prog" where
  "init_flashing E = do {
     ok \<leftarrow> init_flasher E;
     if \<not> ok then do { obj_mod (\<lambda>s. s\<lparr>error_code := INIT_FLASH_ERROR\<rparr>); ret False }
     else do {
       now \<leftarrow> ext (sat_millis E);
       obj_mod (\<lambda>s. s\<lparr>flashing_start_time := now\<rparr>);
       action \<leftarrow> obj_get requested_action;
       if action = ACTION_FULL_ERASE then do {
         obj_mod (\<lambda>s. s\<lparr>total_sectors_to_erase := total_number_of_sectors s, current_sector := -1\<rparr>);
         ret True
       } else do {
         rd \<leftarrow> obj_get (\<lambda>s. if action = ACTION_FLASH_EMBEDDED_IMAGE then EmbeddedImageReader (embedded_image s) 0
                            else HttpImageReader (http_request s) (fl_url s) None);
         r \<leftarrow> ext (init_reader E rd);
         obj_mod (\<lambda>s. s\<lparr>fl_reader := Some (snd r)\<rparr>);
         if \<not> fst r then do { obj_mod (\<lambda>s. s\<lparr>error_code := INIT_READER_ERROR\<rparr>); ret False }
         else do {
           b1 \<leftarrow> ext (malloc_page E);
           obj_mod (\<lambda>s. s\<lparr>reader_buffer := b1\<rparr>);
           if b1 = None then do { obj_mod (\<lambda>s. s\<lparr>error_code := INIT_FLASH_ERROR\<rparr>); ret False }
           else do {
             b2 \<leftarrow> ext (malloc_page E);
             obj_mod (\<lambda>s. s\<lparr>compare_buffer := b2\<rparr>);
             if b2 = None then do { obj_mod (\<lambda>s. s\<lparr>error_code := INIT_FLASH_ERROR\<rparr>); ret False }
             else do {
               size_in_bytes \<leftarrow> ext (\<lambda>w. (get_image_size E (snd r) w, w));
               obj_mod (\<lambda>s. s\<lparr>flashing_progress := 0, md5_receive := [], total_number_of_bytes := size_in_bytes,
                              bytes_remaining := size_in_bytes, page_pos := 0,
                              total_sectors_to_erase := size_in_sectors size_in_bytes, current_sector := -1\<rparr>);
               ret True
             }
           }
         }
       }
     }
   }"

definition deinit_flashing :: "'w flash_env \<Rightarrow> ('w, unit) fl_prog" where
  "deinit_flashing E = do {
     b1 \<leftarrow> obj_get reader_buffer;
     (if b1 \<noteq> None then do { ext0 (free_page E); obj_mod (\<lambda>s. s\<lparr>reader_buffer := None\<rparr>) } else ret ());
     b2 \<leftarrow> obj_get compare_buffer;
     (if b2 \<noteq> None then do { ext0 (free_page E); obj_mod (\<lambda>s. s\<lparr>compare_buffer := None\<rparr>) } else ret ());
     rd \<leftarrow> obj_get fl_reader;
     (case rd of
        None \<Rightarrow> ret ()
      | Some r \<Rightarrow> do { ext0 (deinit_reader E r); obj_mod (\<lambda>s. s\<lparr>fl_reader := None\<rparr>) });
     obj_mod (\<lambda>s. s\<lparr>md5_computed := [], md5_expected := []\<rparr>);
     ext0 (task_delay E 5);
     _ \<leftarrow> deinit_flasher E;
     ret ()
   }"

section \<open>One turn\<close>

definition sectors_left :: "xflash \<Rightarrow> int" where
  "sectors_left s = sint (total_sectors_to_erase s - word_of_int (current_sector s))"

definition erasing_step :: "'w flash_env \<Rightarrow> ('w, int) fl_opt" where
  "erasing_step E sw = do {
     (ready, (s1, w1)) \<leftarrow> wait_while_flash_busy E 1 sw;
     if \<not> ready then Some (sectors_left s1, (s1, w1))
     else
       let s2 = s1\<lparr>current_sector := current_sector s1 + 1\<rparr>
       in if word_of_int (current_sector s2) < total_sectors_to_erase s2 then
            (case run_state (erase_sector E (current_sector s2)) (s2, w1) of (ok, (s3, w3)) \<Rightarrow>
               if \<not> ok then Some (-1, (s3\<lparr>error_code := WRITE_TO_FLASH_ERROR\<rparr>, w3))
               else Some (sectors_left s3, (s3, w3)))
          else Some (sectors_left s2, (s2, w1))
   }"

text \<open>\<open>strncmp(a, b, n) == 0\<close> on the contents of two strings.\<close>

fun strncmp_eq :: "nat \<Rightarrow> string \<Rightarrow> string \<Rightarrow> bool" where
  "strncmp_eq 0 a b = True"
| "strncmp_eq (Suc n) [] [] = True"
| "strncmp_eq (Suc n) (a # as) [] = (a = char_of (0 :: nat))"
| "strncmp_eq (Suc n) [] (b # bs) = (b = char_of (0 :: nat))"
| "strncmp_eq (Suc n) (a # as) (b # bs) = (a = b \<and> (a = char_of (0 :: nat) \<or> strncmp_eq n as bs))"

text \<open>Writing and verifying one page: the result says whether the page was read back as written; the compare buffer is
  what was read last. \<open>read_page_\<close>'s result is ignored by the code.\<close>

definition read_back :: "'w flash_env \<Rightarrow> u32 \<Rightarrow> ('w, unit) fl_prog" where
  "read_back E addr = do {
     cb \<leftarrow> obj_get (\<lambda>s. the (compare_buffer s));
     r \<leftarrow> read_page E addr cb;
     obj_mod (\<lambda>s. s\<lparr>compare_buffer := Some (snd r)\<rparr>)
   }"

definition program_page :: "'w flash_env \<Rightarrow> u32 \<Rightarrow> u8 list \<Rightarrow> ('w, bool) fl_opt" where
  "program_page E addr page sw = do {
     (_, sw1) \<leftarrow> write_page E addr page sw;
     (_, (s2, w2)) \<leftarrow> total_run (read_back E addr) sw1;
     if compare_buffer s2 = Some page then Some (True, (s2, w2))
     else do {
       (ok, (s3, w3)) \<leftarrow> write_page E addr page (s2, w2);
       if \<not> ok then Some (False, (s3\<lparr>error_code := WRITE_TO_FLASH_ERROR\<rparr>, w3))
       else do {
         (_, (s4, w4)) \<leftarrow> total_run (read_back E addr) (s3, w3);
         if compare_buffer s4 = Some page then Some (True, (s4, w4))
         else Some (False, (s4\<lparr>error_code := WRITE_TO_FLASH_ERROR\<rparr>, w4))
       }
     }
   }"

text \<open>The page to be written: the bytes read, then zeroes up to the page size when the block was short.\<close>

definition page_of :: "int \<Rightarrow> u8 list \<Rightarrow> u8 list \<Rightarrow> u8 list" where
  "page_of n bs buf =
     (let buf1 = write_at 0 bs buf
      in if n \<noteq> uint FLASH_PAGE_SIZE then take (nat n) buf1 @ replicate (unat FLASH_PAGE_SIZE - nat n) 0 else buf1)"

definition flashing_step :: "'w flash_env \<Rightarrow> ('w, int) fl_opt" where
  "flashing_step E sw =
     (case sw of (s, w) \<Rightarrow>
        case (fl_reader s, reader_buffer s, compare_buffer s) of
          (Some rd, Some buf, Some cbuf) \<Rightarrow>
            do {
              (bytes_read, bs, rd', w1) \<leftarrow> read_image_block E rd FLASH_PAGE_SIZE w;
              let s1 = s\<lparr>fl_reader := Some rd', reader_buffer := Some (write_at 0 bs buf)\<rparr>;
              if bytes_read < 0 then Some (-1, (s1\<lparr>error_code := CONNECTION_ERROR\<rparr>, w1))
              else do {
                let s2 = s1\<lparr>md5_receive := md5_receive s1 @ take (nat bytes_read) (write_at 0 bs buf),
                            bytes_remaining := bytes_remaining s1 - word_of_int bytes_read\<rparr>;
                if bytes_read \<noteq> uint FLASH_PAGE_SIZE \<and> bytes_remaining s2 \<noteq> 0
                then Some (-1, (s2\<lparr>error_code := CONNECTION_ERROR\<rparr>, w1))
                else do {
                  let page = page_of bytes_read bs buf;
                  let s3 = s2\<lparr>reader_buffer := Some page\<rparr>;
                  (ok, (s4, w4)) \<leftarrow> program_page E (word_of_int (page_pos s3)) page (s3, w1);
                  if \<not> ok then Some (-1, (s4, w4))
                  else do {
                    let s5 = s4\<lparr>page_pos := page_pos s4 + uint FLASH_PAGE_SIZE\<rparr>;
                    if bytes_remaining s5 = 0 then do {
                      let s6 = s5\<lparr>md5_computed := md5_hex E (md5_receive s5)\<rparr>;
                      if \<not> strncmp_eq MD5_SIZE (md5_computed s6) (md5_expected s6)
                      then Some (-1, (s6\<lparr>error_code := MD5_MISMATCH_ERROR\<rparr>, w4))
                      else Some (sint (bytes_remaining s6), (s6, w4))
                    } else Some (sint (bytes_remaining s5), (s5, w4))
                  }
                }
              }
            }
        | _ \<Rightarrow> None)"

text \<open>A division by zero is a trap.\<close>

definition publish_progress :: "'w flash_env \<Rightarrow> ('w, unit) fl_opt" where
  "publish_progress E sw =
     (case run_state (ext (sat_millis E)) sw of (now, (s, w)) \<Rightarrow>
        if now - last_published s > 1000 then
          (let a = (if requested_action s = ACTION_FULL_ERASE then word_of_int (current_sector s * 100)
                    else (word_of_int (current_sector s) + total_number_of_bytes s - bytes_remaining s) * 100);
               b = (if requested_action s = ACTION_FULL_ERASE then total_sectors_to_erase s
                    else total_number_of_bytes s + total_sectors_to_erase s)
           in if b = 0 then None
              else total_run (mf_publish E) (s\<lparr>flashing_progress := ucast (a div b), last_published := now\<rparr>, w))
        else Some ((), (s, w)))"

definition set_fl_state :: "FlasherState \<Rightarrow> xflash \<times> 'w \<Rightarrow> (unit \<times> (xflash \<times> 'w)) option" where
  "set_fl_state st sw = Some ((), ((fst sw)\<lparr>fl_state := st\<rparr>, snd sw))"

definition flasher_loop :: "'w flash_env \<Rightarrow> ('w, unit) fl_opt" where
  "flasher_loop E sw =
     (case fl_state (fst sw) of
        FLASHER_IDLE \<Rightarrow> Some ((), sw)
      | FLASHER_INITIALIZING \<Rightarrow>
          (case run_state (init_flashing E) sw of (ok, sw1) \<Rightarrow>
             if ok then set_fl_state FLASHER_ERASING sw1
             else do {
               (_, sw2) \<leftarrow> total_run (deinit_flashing E) sw1;
               set_fl_state FLASHER_ERROR_STATE sw2
             })
      | FLASHER_ERASING \<Rightarrow> do {
          (remaining, sw1) \<leftarrow> erasing_step E sw;
          (_, sw2) \<leftarrow> publish_progress E sw1;
          if remaining = 0 \<and> requested_action (fst sw2) = ACTION_FULL_ERASE then do {
            (_, sw3) \<leftarrow> total_run (deinit_flashing E) sw2;
            set_fl_state FLASHER_SUCCESS_STATE sw3
          } else if remaining = 0 then set_fl_state FLASHER_FLASHING sw2
          else if remaining < 0 then set_fl_state FLASHER_ERROR_STATE sw2
          else Some ((), sw2)
        }
      | FLASHER_FLASHING \<Rightarrow> do {
          (remaining, sw1) \<leftarrow> flashing_step E sw;
          (_, sw2) \<leftarrow> publish_progress E sw1;
          if remaining = 0 then do {
            (_, sw3) \<leftarrow> total_run (deinit_flashing E) sw2;
            set_fl_state FLASHER_SUCCESS_STATE sw3
          } else if remaining < 0 then do {
            (_, sw3) \<leftarrow> total_run (deinit_flashing E) sw2;
            set_fl_state FLASHER_ERROR_STATE sw3
          } else Some ((), sw2)
        }
      | FLASHER_SUCCESS_STATE \<Rightarrow> do {
          (_, sw1) \<leftarrow> total_run (mf_publish E) sw;
          set_fl_state FLASHER_IDLE sw1
        }
      | FLASHER_ERROR_STATE \<Rightarrow> do {
          (_, sw1) \<leftarrow> total_run (mf_publish E) sw;
          set_fl_state FLASHER_IDLE sw1
        }
      | FLASHER_RECEIVING_IMG_INFO \<Rightarrow> Some ((), sw))"

end
