(* ===== verification/Memory_Flasher_Correct.thy ===== *)
theory Memory_Flasher_Correct
  imports Memory_Flasher
begin

text \<open>
  The contract of \<open>FlashImageReader\<close> and its implementation by \<open>EmbeddedImageReader\<close>; fetching the expected MD5 sum;
  the effect of the flash action on the members.
\<close>

section \<open>The contract of an image reader\<close>

text \<open>What the flashing loop relies on of a reader in good order: a block is the next bytes of the image, as many
  as there are up to the block size, and the rest is left for the next call.\<close>

locale image_source =
  fixes read_block :: "'r \<Rightarrow> u8 list \<times> 'r" and block :: nat and rest :: "'r \<Rightarrow> u8 list" and ok :: "'r \<Rightarrow> bool"
  assumes block_pos: "0 < block"
    and read_bytes: "ok r \<Longrightarrow> fst (read_block r) = take block (rest r)"
    and read_rest: "ok r \<Longrightarrow> rest (snd (read_block r)) = drop block (rest r)"
    and read_ok: "ok r \<Longrightarrow> ok (snd (read_block r))"
begin

fun read_blocks :: "nat \<Rightarrow> 'r \<Rightarrow> u8 list list \<times> 'r" where
  "read_blocks 0 r = ([], r)"
| "read_blocks (Suc k) r =
     (case read_block r of (bs, r1) \<Rightarrow> case read_blocks k r1 of (bss, r2) \<Rightarrow> (bs # bss, r2))"

lemma read_blocks_take:
  "ok r \<Longrightarrow> concat (fst (read_blocks k r)) = take (k * block) (rest r) \<and>
    rest (snd (read_blocks k r)) = drop (k * block) (rest r) \<and> ok (snd (read_blocks k r))"
proof (induction k arbitrary: r)
  case (Suc k)
  let ?r = "snd (read_block r)"
  have "concat (fst (read_blocks k ?r)) = take (k * block) (drop block (rest r)) \<and>
      rest (snd (read_blocks k ?r)) = drop (k * block) (drop block (rest r)) \<and> ok (snd (read_blocks k ?r))"
    using Suc.IH [OF read_ok [OF Suc.prems]] read_rest [OF Suc.prems] by simp
  then show ?case
    using read_bytes [OF Suc.prems] by (simp add: case_prod_beta take_add add.commute)
qed simp

lemma read_all:
  assumes "ok r"
  shows "concat (fst (read_blocks (length (rest r) div block + 1) r)) = rest r"
    and "rest (snd (read_blocks (length (rest r) div block + 1) r)) = []"
proof -
  let ?k = "length (rest r) div block + 1"
  have "length (rest r) \<le> ?k * block"
    using block_pos dividend_less_div_times [of block "length (rest r)"] by (simp add: algebra_simps)
  then show "concat (fst (read_blocks ?k r)) = rest r" "rest (snd (read_blocks ?k r)) = []"
    using read_blocks_take [OF assms, of ?k] by simp_all
qed

end

section \<open>The embedded reader\<close>

text \<open>An image whose length member is the number of its bytes, with a position inside it.\<close>

definition embedded_ok :: "flash_image \<times> u32 \<Rightarrow> bool" where
  "embedded_ok r \<longleftrightarrow> length (fi_data (fst r)) = unat (fi_length (fst r)) \<and> snd r \<le> fi_length (fst r)"

definition embedded_rest :: "flash_image \<times> u32 \<Rightarrow> u8 list" where
  "embedded_rest r = drop (unat (snd r)) (fi_data (fst r))"

definition embedded_block :: "flash_image \<times> u32 \<Rightarrow> u8 list \<times> (flash_image \<times> u32)" where
  "embedded_block r = (case embedded_read (fst r) (snd r) 256 of (n, bs, pos) \<Rightarrow> (bs, (fst r, pos)))"

lemma unat_sub_le: "(a :: 'a::len word) \<le> b \<Longrightarrow> unat (b - a) = unat b - unat a"
  by (simp add: unat_sub)

lemma embedded_read_spec:
  assumes "embedded_ok (img, pos)"
  defines "r \<equiv> embedded_read img pos 256"
  shows "fst (snd r) = take 256 (embedded_rest (img, pos))"
    and "unat (snd (snd r)) = unat pos + length (fst (snd r))"
    and "fst r = of_nat (length (fst (snd r)))" and "length (fst (snd r)) \<le> 256"
    and "embedded_ok (img, snd (snd r))"
    and "embedded_rest (img, snd (snd r)) = drop 256 (embedded_rest (img, pos))"
proof -
  have pos: "pos \<le> fi_length img" and len: "length (fi_data img) = unat (fi_length img)"
    using assms(1) by (simp_all add: embedded_ok_def)
  let ?left = "fi_length img - pos"
  have left: "unat ?left = unat (fi_length img) - unat pos" using unat_sub_le [OF pos] .
  have posn: "unat pos \<le> unat (fi_length img)" using pos by (simp add: word_le_nat_alt)
  let ?n = "fst r"
  have r: "r = (?n, take (unat ?n) (drop (unat pos) (fi_data img)), pos + ?n)"
    by (simp add: r_def embedded_read_def Let_def)
  have nat: "unat ?n = min 256 (unat (fi_length img) - unat pos)"
    using left by (auto simp: r_def embedded_read_def Let_def word_le_nat_alt)
  have bs: "fst (snd r) = take (unat ?n) (drop (unat pos) (fi_data img))" by (subst r) simp
  then show take: "fst (snd r) = take 256 (embedded_rest (img, pos))"
    using nat len by (simp add: embedded_rest_def min_def)
  have lb: "length (fst (snd r)) = unat ?n" using bs nat len by simp
  then show "fst r = of_nat (length (fst (snd r)))" by simp
  show "length (fst (snd r)) \<le> 256" using lb nat by simp
  have "unat pos + unat ?n \<le> unat (fi_length img)" using nat posn by simp
  then have p': "unat (pos + ?n) = unat pos + unat ?n" "pos + ?n \<le> fi_length img"
    using unsigned_less [of "fi_length img", where ?'a = nat]
    by (simp_all add: unat_word_ariths word_le_nat_alt)
  have snd: "snd (snd r) = pos + ?n" by (subst r) simp
  show "unat (snd (snd r)) = unat pos + length (fst (snd r))" using p'(1) lb snd by simp
  show "embedded_ok (img, snd (snd r))" using p'(2) len snd by (simp add: embedded_ok_def)
  show "embedded_rest (img, snd (snd r)) = drop 256 (embedded_rest (img, pos))"
    using p'(1) nat len snd by (auto simp: embedded_rest_def min_def add.commute)
qed

interpretation emb: image_source embedded_block 256 embedded_rest embedded_ok
proof
  fix r assume ok: "embedded_ok r"
  note spec = embedded_read_spec [of "fst r" "snd r"]
  show "fst (embedded_block r) = take 256 (embedded_rest r)"
    using spec(1) ok by (simp add: embedded_block_def case_prod_beta)
  show "embedded_rest (snd (embedded_block r)) = drop 256 (embedded_rest r)"
    using spec(6) ok by (simp add: embedded_block_def case_prod_beta)
  show "embedded_ok (snd (embedded_block r))"
    using spec(5) ok by (simp add: embedded_block_def case_prod_beta)
qed simp

text \<open>Calling \<open>read_image_block\<close> with the page size a number of times.\<close>

fun read_image_blocks :: "'w flash_env \<Rightarrow> nat \<Rightarrow> image_reader \<Rightarrow> 'w \<Rightarrow> (u8 list list \<times> image_reader \<times> 'w) option" where
  "read_image_blocks E 0 rd w = Some ([], rd, w)"
| "read_image_blocks E (Suc k) rd w = do {
     (n, bs, rd1, w1) \<leftarrow> read_image_block E rd 256 w;
     (bss, rd2, w2) \<leftarrow> read_image_blocks E k rd1 w1;
     Some (bs # bss, rd2, w2)
   }"

lemma read_image_blocks_embedded:
  "read_image_blocks E k (EmbeddedImageReader img pos) w =
     (case emb.read_blocks k (img, pos) of (bss, r) \<Rightarrow> Some (bss, EmbeddedImageReader (fst r) (snd r), w))"
  by (induction k arbitrary: pos)
    (simp_all add: read_image_block_def embedded_block_def case_prod_beta)


definition ex_image :: flash_image where
  "ex_image = \<lparr>fi_data = replicate 300 7, fi_length = 300, fi_md5 = ''abc'', fi_version = [1, 0, 0, 0, 0]\<rparr>"

text \<open>A world that is the hub's world of the witnesses there; no HTTP.\<close>

definition ex_flash_env :: "nat flash_env" where
  "ex_flash_env =
     \<lparr>spi_setup = (\<lambda>w. w), spi_enable = (\<lambda>w. w), spi_disable = (\<lambda>w. w), spi_byte = (\<lambda>b w. (2, w + 1)),
      spi_xfer = (\<lambda>bs w. (bs, w)), task_delay = (\<lambda>n w. w), sat_millis = (\<lambda>w. (of_nat w, w)),
      rst_pin_setup = (\<lambda>w. w), rst_pin_write = (\<lambda>b w. w), sat_callback = (\<lambda>s w. w), raw_version_resp = [0, 0, 0, 0, 0],
      http_get = (\<lambda>u w. (Some 0, w)), http_content_length = (\<lambda>c w. 32), http_bytes_read = (\<lambda>c w. 0),
      http_read = (\<lambda>c n w. ((0, []), w)), http_end = (\<lambda>c w. w), feed_and_yield = (\<lambda>w. w), mf_callback = (\<lambda>m w. w),
      md5_hex = (\<lambda>bs. ''abc''), malloc_page = (\<lambda>w. (Some (replicate 256 0), w)), free_page = (\<lambda>w. w)\<rparr>"


section \<open>Fetching the expected MD5 sum\<close>

text \<open>A stalled server stops the firmware: if the container reports fewer than 32 bytes read whatever happens, the reading loop
  of \<open>http_get_md5_\<close> never ends: the return value of \<open>read\<close>, errors included, is not looked at inside it.\<close>

theorem http_get_md5_stalls:
  assumes "md5_url s \<noteq> []" and "http_request s" and "http_get E (md5_url s) w = (Some c, w1)"
    and "32 \<le> unat (http_content_length E c w1)" and "\<And>w. http_bytes_read E c w < 32"
  shows "http_get_md5 E (s, w) = None"
proof -
  have "md5_read_loop E c n buf v = None" for n buf v
  proof -
    have "md5_read_loop E c n buf v = Some y \<Longrightarrow> \<exists>w. \<not> http_bytes_read E c w < MD5_SIZE" for y
      by (rule md5_read_loop.raw_induct [where P = "\<lambda>E c n buf v y. \<exists>w. \<not> http_bytes_read E c w < MD5_SIZE"])
        (auto simp: Let_def split: if_splits)
    then show ?thesis using assms(5) by (cases "md5_read_loop E c n buf v") (auto simp: MD5_SIZE_def)
  qed
  then show ?thesis
    using assms(1-4) by (auto simp: http_get_md5_def Let_def MD5_SIZE_def)
qed

theorem http_get_md5_stalls_witness:
  "http_get_md5 ex_flash_env (mflash_init\<lparr>md5_url := ''u'', http_request := True\<rparr>, 0) = None"
  by (rule http_get_md5_stalls) (simp_all add: ex_flash_env_def)

end
