(* ===== verification/Satellite1_Correct.thy ===== *)
theory Satellite1_Correct
  imports Satellite1_Core
begin

text \<open>
  Properties of the SPI hub: array bounds, what a transfer delivers, the number of exchanges, the connection state
  machine and its invariant, and the GPIO pins. The only law about the SPI driver is \<open>spi_law\<close>: an
  exchange returns as many bytes as it was given.
\<close>

section \<open>Arrays\<close>

definition spi_law :: "'w sat_env \<Rightarrow> bool" where
  "spi_law E \<longleftrightarrow> (\<forall>bs w. length (fst (spi_xfer E bs w)) = length bs) \<and> length (raw_version_resp E) = 5"

definition sat_wf :: "satellite1 \<Rightarrow> bool" where
  "sat_wf s \<longleftrightarrow> length (spi_transfer_buffer s) = 259 \<and> length (dc_status_register s) = REGISTER_LEN \<and>
     length (xmos_fw_version s) = 5"

lemma length_write_at [simp]: "i + length bs \<le> length arr \<Longrightarrow> length (write_at i bs arr) = length arr"
  by (simp add: write_at_def)

lemma unat_u8_le: "unat (x :: u8) \<le> 255"
  using unsigned_less [of x, where ?'a = nat] by simp

lemma wire_len: "unat l + 3 + status_report_dummies l = max (unat l + 3) 6"
proof -
  have "uint l = int (unat l)" by simp
  then show ?thesis unfolding status_report_dummies_def REGISTER_LEN_def by arith
qed

lemma wire_len_le: "unat l + 3 + status_report_dummies l \<le> 258"
  unfolding wire_len using unat_u8_le [of l] by simp

lemma hoare_exchange:
  assumes "spi_law E" and "n \<le> 259" and "\<And>s b. P s \<Longrightarrow> length b = length (spi_transfer_buffer s) \<Longrightarrow>
    P (s\<lparr>spi_transfer_buffer := b\<rparr>)" and "\<And>s. P s \<Longrightarrow> length (spi_transfer_buffer s) = 259"
  shows "hoare (on_obj P) (spi_exchange E n) (\<lambda>_. on_obj P)"
proof (rule on_objI)
  fix s w assume P: "P s"
  let ?r = "fst (spi_xfer E (take n (spi_transfer_buffer s)) (spi_enable E w))"
  have "length ?r = n" using assms(1,2,4) P by (simp add: spi_law_def)
  then have "P (s\<lparr>spi_transfer_buffer := write_at 0 ?r (spi_transfer_buffer s)\<rparr>)"
    using P assms(2-4) by simp
  then show "P (fst (snd (run_state (spi_exchange E n) (s, w))))"
    by (simp add: spi_exchange_def)
qed

text \<open>Predicates that only ask the transfer buffer to have its size and allow the status register to
  be refreshed are kept by \<open>transfer\<close>.\<close>

definition buffer_stable :: "(satellite1 \<Rightarrow> bool) \<Rightarrow> bool" where
  "buffer_stable P \<longleftrightarrow>
     (\<forall>s. P s \<longrightarrow> length (spi_transfer_buffer s) = 259) \<and>
     (\<forall>s b. P s \<longrightarrow> length b = 259 \<longrightarrow> P (s\<lparr>spi_transfer_buffer := b\<rparr>)) \<and>
     (\<forall>s r. P s \<longrightarrow> length r = REGISTER_LEN \<longrightarrow> P (s\<lparr>dc_status_register := r\<rparr>))"

lemma hoare_buf_write:
  assumes "buffer_stable P" and "length bs \<le> 259"
  shows "hoare (on_obj P) (obj_mod (\<lambda>s. s\<lparr>spi_transfer_buffer := write_at 0 bs (spi_transfer_buffer s)\<rparr>))
    (\<lambda>_. on_obj P)"
  using assms by (intro on_obj_mod) (simp add: buffer_stable_def)

lemma hoare_exchange_stable:
  assumes "spi_law E" and "buffer_stable P" and "n \<le> 259"
  shows "hoare (on_obj P) (spi_exchange E n) (\<lambda>_. on_obj P)"
  using assms by (intro hoare_exchange) (simp_all add: buffer_stable_def)

lemma hoare_send_loop:
  assumes "spi_law E" and "buffer_stable P"
  shows "hoare (on_obj P) (send_loop E rid cmd pl l k) (\<lambda>_. on_obj P)"
proof (induction k)
  case 0
  have "3 + length (take (unat l) pl) \<le> 259" using unat_u8_le [of l] by simp
  with wire_len_le [of l] show ?case
    by (subst send_loop.simps)
      (simp, intro hoare_rules hoare_buf_write hoare_exchange_stable assms; simp)
next
  case (Suc k)
  have "3 + length (take (unat l) pl) \<le> 259" using unat_u8_le [of l] by simp
  with wire_len_le [of l] Suc show ?case
    by (subst send_loop.simps)
      (simp, intro hoare_rules hoare_buf_write hoare_exchange_stable assms; simp)
qed

lemma hoare_read_loop:
  assumes "spi_law E" and "buffer_stable P"
  shows "hoare (on_obj P) (read_loop E l k) (\<lambda>_. on_obj P)"
proof (induction k)
  case 0
  show ?case using unat_u8_le [of l]
    by (subst read_loop.simps)
      (simp, intro hoare_rules hoare_buf_write hoare_exchange_stable assms; simp)
next
  case (Suc k)
  show ?case using unat_u8_le [of l] Suc
    by (subst read_loop.simps)
      (simp, intro hoare_rules hoare_buf_write hoare_exchange_stable assms; simp)
qed

lemma hoare_transfer:
  assumes "spi_law E" and "buffer_stable P"
  shows "hoare (on_obj P) (transfer E rid cmd pl l) (\<lambda>_. on_obj P)"
proof -
  have zero: "hoare (on_obj P) (obj_mod (\<lambda>s. s\<lparr>spi_transfer_buffer := replicate (length (spi_transfer_buffer s)) 0\<rparr>))
      (\<lambda>_. on_obj P)"
    using assms(2) by (intro on_obj_mod) (simp add: buffer_stable_def)
  have report: "hoare (on_obj P) (obj_mod (\<lambda>s. s\<lparr>dc_status_register := take REGISTER_LEN (drop 2 (spi_transfer_buffer s0))\<rparr>))
      (\<lambda>_. on_obj P)" if "P s0" for s0
    using that assms(2) by (intro on_obj_mod) (simp add: buffer_stable_def REGISTER_LEN_def)
  show ?thesis
    unfolding transfer_def
    by (intro hoare_rules zero hoare_send_loop [OF assms] hoare_read_loop [OF assms]
        on_obj_get_bind [where f = spi_transfer_buffer] report)
qed

lemma length_transfer_payload:
  "unat l \<le> length pl \<Longrightarrow> length (snd (fst (run_state (transfer E rid cmd pl l) sw))) = length pl"
  by (simp add: transfer_def case_prod_beta)

text \<open>Everything but the transfer buffer and the status register is the same.\<close>

definition sat_frame :: "satellite1 \<Rightarrow> satellite1 \<Rightarrow> bool" where
  "sat_frame s s' \<longleftrightarrow>
     sat_state s' = sat_state s \<and> xmos_fw_version s' = xmos_fw_version s \<and>
     connection_attempts s' = connection_attempts s \<and> last_attempt_timestamp s' = last_attempt_timestamp s \<and>
     spi_flash_direct_access_enabled s' = spi_flash_direct_access_enabled s \<and> xmos_rst_pin s' = xmos_rst_pin s"

lemma buffer_stable_wf: "buffer_stable sat_wf"
  by (simp add: buffer_stable_def sat_wf_def)

lemma transfer_frame:
  assumes "spi_law E" and "sat_wf s"
  shows "sat_frame s (fst (snd (run_state (transfer E rid cmd pl l) (s, w)))) \<and>
    sat_wf (fst (snd (run_state (transfer E rid cmd pl l) (s, w))))"
proof -
  have "buffer_stable (\<lambda>s'. sat_frame s s' \<and> sat_wf s')"
    by (auto simp: buffer_stable_def sat_wf_def sat_frame_def)
  from on_obj_run [OF hoare_transfer [OF assms(1) this], of "(s, w)"] show ?thesis
    using assms(2) by (simp add: sat_frame_def)
qed

lemma dfu_wf:
  assumes "spi_law E"
  shows "hoare (on_obj sat_wf) (dfu_get_fw_version E) (\<lambda>_. on_obj sat_wf)"
proof (rule on_objI)
  fix s w assume wf: "sat_wf s"
  let ?r = "run_state (transfer E (resource_code DFU_CONTROLLER) GET_VERSION (raw_version_resp E) 5) (s, w)"
  have "sat_wf (fst (snd ?r))"
    using on_obj_run [OF hoare_transfer [OF assms buffer_stable_wf], of "(s, w)"] wf by simp
  moreover have "length (snd (fst ?r)) = 5"
    using assms by (subst length_transfer_payload) (simp_all add: spi_law_def)
  ultimately show "sat_wf (fst (snd (run_state (dfu_get_fw_version E) (s, w))))"
    by (simp add: dfu_get_fw_version_def case_prod_beta sat_wf_def)
qed

lemma dfu_frame:
  assumes "spi_law E" and "sat_wf s"
  shows "sat_frame (s\<lparr>xmos_fw_version := v\<rparr>)
    ((fst (snd (run_state (dfu_get_fw_version E) (s, w))))\<lparr>xmos_fw_version := v\<rparr>)"
  using transfer_frame [OF assms, of "resource_code DFU_CONTROLLER" GET_VERSION "raw_version_resp E" 5 w]
  by (simp add: dfu_get_fw_version_def case_prod_beta sat_frame_def)

lemma check_for_xmos_obj:
  "fst (snd (run_state (check_for_xmos E) sw)) = fst (snd (run_state (dfu_get_fw_version E) sw))"
  by (simp add: check_for_xmos_def case_prod_beta)

lemma call_state_callback_run [simp]:
  "run_state (call_state_callback E) sw = ((), (fst sw, sat_callback E (fst sw) (snd sw)))"
  by (simp add: call_state_callback_def)

section \<open>The connection state machine\<close>

text \<open>The object's invariant: the arrays have their sizes, flash mode is the state exactly while direct access is
  enabled, and the attempts never pass the maximum by more than one.\<close>

definition sat_inv :: "satellite1 \<Rightarrow> bool" where
  "sat_inv s \<longleftrightarrow> sat_wf s \<and> (sat_state s = SAT_FLASH_CONNECTED_STATE \<longleftrightarrow> spi_flash_direct_access_enabled s) \<and>
     connection_attempts s \<le> MAX_CONNECTION_ATTEMPTS + 1"

inductive sat_step :: "'w sat_env \<Rightarrow> satellite1 \<times> 'w \<Rightarrow> satellite1 \<times> 'w \<Rightarrow> bool" for E :: "'w sat_env" where
  sat_step_loop: "snd (run_state (sat_loop E) sw) = sw' \<Longrightarrow> sat_step E sw sw'"
| sat_step_transfer: "snd (run_state (transfer E rid cmd pl l) sw) = sw' \<Longrightarrow> sat_step E sw sw'"
| sat_step_mode: "snd (run_state (set_spi_flash_direct_access_mode E b) sw) = sw' \<Longrightarrow> sat_step E sw sw'"
| sat_step_reset: "snd (run_state (xmos_hardware_reset E) sw) = sw' \<Longrightarrow> sat_step E sw sw'"
| sat_step_write: "snd (run_state (digital_write E p v) sw) = sw' \<Longrightarrow> sat_step E sw sw'"
| sat_step_read: "snd (run_state (digital_read E p) sw) = sw' \<Longrightarrow> sat_step E sw sw'"
| sat_step_world: "sat_step E (s, w) (s, w')"

inductive sat_reach :: "'w sat_env \<Rightarrow> satellite1 \<times> 'w \<Rightarrow> bool" for E :: "'w sat_env" where
  sat_reach_init: "length regs = 4 \<Longrightarrow> length buf = 259 \<Longrightarrow>
    snd (run_state (sat_setup E) (sat_init regs buf pin, w)) = sw \<Longrightarrow> sat_reach E sw"
| sat_reach_step: "sat_reach E sw \<Longrightarrow> sat_step E sw sw' \<Longrightarrow> sat_reach E sw'"

lemma sat_inv_transfer:
  assumes "spi_law E" and "sat_inv s"
  shows "sat_inv (fst (snd (run_state (transfer E rid cmd pl l) (s, w))))"
  using transfer_frame [OF assms(1), of s rid cmd pl l w] assms(2)
  by (simp add: sat_inv_def sat_frame_def)

lemma sat_inv_dfu:
  assumes "spi_law E" and "sat_inv s"
  shows "sat_inv (fst (snd (run_state (dfu_get_fw_version E) (s, w))))"
  using dfu_frame [OF assms(1), of s _ w] on_obj_run [OF dfu_wf [OF assms(1)], of "(s, w)"] assms(2)
  by (simp add: sat_inv_def sat_frame_def)

lemma sat_inv_loop:
  assumes "spi_law E" and "sat_inv s"
  shows "sat_inv (fst (snd (run_state (sat_loop E) (s, w))))"
proof (cases "sat_state s")
  case SAT_DETACHED_STATE
  let ?d = "\<lambda>w. fst (snd (run_state (dfu_get_fw_version E) (s, w)))"
  have d: "sat_inv (?d w)" "sat_state (?d w) = sat_state s" "connection_attempts (?d w) = connection_attempts s" for w
    using sat_inv_dfu [OF assms, of w] dfu_frame [OF assms(1), of s _ w] assms(2)
    by (simp_all add: sat_inv_def sat_frame_def)
  have le: "connection_attempts s < 3 \<Longrightarrow> connection_attempts s + 1 \<le> 4"
    by (simp add: word_le_nat_alt word_less_nat_alt unat_word_ariths)
  have mx: "connection_attempts s \<le> 3 \<Longrightarrow> connection_attempts s \<noteq> 3 \<Longrightarrow> connection_attempts s < 3"
    by (simp add: order_less_le)
  show ?thesis
    using SAT_DETACHED_STATE assms(2) d le mx
    by (simp add: sat_loop_def case_prod_beta check_for_xmos_obj sat_inv_def sat_wf_def
        MAX_CONNECTION_ATTEMPTS_def)
qed (simp_all add: sat_loop_def assms(2))

lemma sat_inv_mode:
  "sat_inv s \<Longrightarrow> sat_inv (fst (snd (run_state (set_spi_flash_direct_access_mode E b) (s, w))))"
  by (simp add: set_spi_flash_direct_access_mode_def sat_inv_def sat_wf_def MAX_CONNECTION_ATTEMPTS_def)

lemma sat_inv_gpio:
  assumes "spi_law E" and "sat_inv s"
  shows "sat_inv (fst (snd (run_state (digital_write E p v) (s, w))))"
    and "sat_inv (fst (snd (run_state (digital_read E p) (s, w))))"
  using sat_inv_transfer [OF assms] assms(2)
  by (simp_all add: digital_write_def digital_read_def request_status_register_update_def case_prod_beta)

lemma sat_inv_step:
  assumes "spi_law E" and "sat_step E sw sw'" and "sat_inv (fst sw)"
  shows "sat_inv (fst sw')"
  using assms(2,3)
proof cases
  case sat_step_reset
  then show ?thesis using assms(3) by (auto simp: xmos_hardware_reset_def)
qed (use sat_inv_loop [OF assms(1,3), of "snd sw"] sat_inv_transfer [OF assms(1,3), where w = "snd sw"]
    sat_inv_mode [OF assms(3), of E _ "snd sw"] sat_inv_gpio [OF assms(1,3), where w = "snd sw"] assms(3) in auto)

lemma sat_inv_reach:
  assumes "spi_law E" and "sat_reach E sw"
  shows "sat_inv (fst sw)"
  using assms(2)
proof induction
  case (sat_reach_init regs buf pin w sw)
  let ?s = "(sat_init regs buf pin)\<lparr>xmos_fw_version := replicate 5 0\<rparr>"
  have "sat_inv ?s"
    using sat_reach_init(1,2)
    by (simp add: sat_inv_def sat_wf_def sat_init_def REGISTER_LEN_def MAX_CONNECTION_ATTEMPTS_def)
  then show ?case
    using sat_reach_init(3) sat_inv_dfu [OF assms(1), of ?s]
    by (auto simp: sat_setup_def case_prod_beta split: if_splits)
next
  case (sat_reach_step sw sw')
  then show ?case using sat_inv_step [OF assms(1)] by blast
qed

text \<open>C6: in every reachable state of the hub the arrays keep their declared sizes (so that no copy of
  \<open>transfer\<close> leaves them), flash mode is the state exactly while direct flash access is enabled, and at most one
  attempt beyond the maximum has been counted, whatever the SPI device answers.\<close>

theorem satellite1_invariant:
  assumes "spi_law E" and "sat_reach E (s, w)"
  shows "length (spi_transfer_buffer s) = 259 \<and> length (dc_status_register s) = 4 \<and> length (xmos_fw_version s) = 5 \<and>
    (sat_state s = SAT_FLASH_CONNECTED_STATE \<longleftrightarrow> spi_flash_direct_access_enabled s) \<and>
    connection_attempts s \<le> 4"
  using sat_inv_reach [OF assms]
  by (simp add: sat_inv_def sat_wf_def REGISTER_LEN_def MAX_CONNECTION_ATTEMPTS_def)

text \<open>A device for the witnesses: the world is the clock and the queue of answers, an empty queue answers zeroes;
  every callback is logged.\<close>

record ex_sat_world =
  es_now :: u32
  es_answers :: "u8 list list"
  es_count :: nat
  es_calls :: "Satellite1State list"

definition ex_answer :: "nat \<Rightarrow> u8 list \<Rightarrow> u8 list" where
  "ex_answer n a = take n (a @ replicate n 0)"

definition ex_sat_env :: "ex_sat_world sat_env" where
  "ex_sat_env =
     \<lparr>spi_setup = (\<lambda>w. w), spi_enable = (\<lambda>w. w), spi_disable = (\<lambda>w. w), spi_byte = (\<lambda>b w. (0, w)),
      spi_xfer = (\<lambda>bs w. case es_answers w of
         [] \<Rightarrow> (replicate (length bs) 0, w\<lparr>es_count := es_count w + 1\<rparr>)
       | a # as \<Rightarrow> (ex_answer (length bs) a, w\<lparr>es_count := es_count w + 1, es_answers := as\<rparr>)),
      task_delay = (\<lambda>n w. w), sat_millis = (\<lambda>w. (es_now w, w)), rst_pin_setup = (\<lambda>w. w),
      rst_pin_write = (\<lambda>b w. w), sat_callback = (\<lambda>s w. w\<lparr>es_calls := es_calls w @ [sat_state s]\<rparr>),
      raw_version_resp = [0, 0, 0, 0, 0]\<rparr>"

definition ex_sat0 :: satellite1 where
  "ex_sat0 = sat_init [0, 0, 0, 0] (replicate 259 0) True"

definition ex_sat_w :: ex_sat_world where
  "ex_sat_w = \<lparr>es_now = 5000, es_answers = [], es_count = 0, es_calls = []\<rparr>"

lemma length_ex_answer [simp]: "length (ex_answer n a) = n"
  by (simp add: ex_answer_def min_def)

lemma ex_spi_law: "spi_law ex_sat_env"
  by (simp add: spi_law_def ex_sat_env_def split: list.splits)

theorem satellite1_invariant_witness:
  "connection_attempts (fst (snd (run_state (sat_setup ex_sat_env) (ex_sat0, ex_sat_w)))) \<le> 4"
  using satellite1_invariant [OF ex_spi_law, of "fst (snd (run_state (sat_setup ex_sat_env) (ex_sat0, ex_sat_w)))"
      "snd (snd (run_state (sat_setup ex_sat_env) (ex_sat0, ex_sat_w)))"]
    sat_reach_init [of "[0, 0, 0, 0]" "replicate 259 0" ex_sat_env True ex_sat_w]
  by (simp add: ex_sat0_def)

section \<open>What a transfer delivers\<close>

text \<open>The frame of a command: header, payload and the zeroes that let a status report through.\<close>

definition cmd_frame :: "u8 \<Rightarrow> u8 \<Rightarrow> u8 list \<Rightarrow> u8 list" where
  "cmd_frame rid cmd pl =
     [rid, cmd, cmd_len_byte cmd (of_nat (length pl))] @ pl @ replicate (status_report_dummies (of_nat (length pl))) 0"

text \<open>The world after an exchange.\<close>

definition after_xfer :: "'w sat_env \<Rightarrow> 'w \<Rightarrow> 'w" where
  "after_xfer E w = task_delay E 1 (spi_disable E w)"

lemma exchange_run:
  assumes "length (spi_transfer_buffer s) = 259" and "n \<le> 259"
    and "spi_xfer E (take n (spi_transfer_buffer s)) (spi_enable E w) = (r, w')" and "length r = n"
  shows "run_state (spi_exchange E n) (s, w) =
    ((), (s\<lparr>spi_transfer_buffer := r @ drop n (spi_transfer_buffer s)\<rparr>, after_xfer E w'))"
  using assms by (simp add: spi_exchange_def write_at_def after_xfer_def)

lemma send_loop_answered:
  assumes "spi_law E" and "length pl \<le> 255" and "spi_transfer_buffer s = replicate 259 0"
    and "spi_xfer E (cmd_frame rid cmd pl) (spi_enable E w) = (r, w')"
    and "r ! 0 \<noteq> CONTROL_COMMAND_IGNORED_IN_DEVICE"
  shows "\<exists>rest. run_state (send_loop E rid cmd pl (of_nat (length pl)) k) (s, w) =
    ((), (s\<lparr>spi_transfer_buffer := r @ rest\<rparr>, after_xfer E w')) \<and> length r = max (length pl + 3) 6 \<and>
    length (r @ rest) = 259"
proof -
  let ?l = "of_nat (length pl) :: u8"
  let ?n = "unat ?l + 3 + status_report_dummies ?l"
  have l: "unat ?l = length pl" using assms(2) by (simp add: unat_of_nat)
  have n: "?n \<le> 258" "?n = max (length pl + 3) 6" using wire_len_le [of ?l] wire_len [of ?l] l by simp_all
  let ?b = "write_at 0 ([rid, cmd, cmd_len_byte cmd ?l] @ take (unat ?l) pl) (replicate 259 0)"
  have b: "?b = [rid, cmd, cmd_len_byte cmd ?l] @ pl @ replicate (256 - length pl) 0"
    using l by (simp add: write_at_def)
  have "min (status_report_dummies ?l) (256 - length pl) = status_report_dummies ?l"
    using n(1) l by simp
  then have frame: "take ?n ?b = cmd_frame rid cmd pl"
    unfolding b cmd_frame_def using l by (simp add: take_Cons' min.commute)
  have "length (fst (spi_xfer E (cmd_frame rid cmd pl) (spi_enable E w))) = length (cmd_frame rid cmd pl)"
    using assms(1) by (simp add: spi_law_def)
  then have len: "length r = ?n" using assms(4) l by (simp add: cmd_frame_def)
  let ?s = "s\<lparr>spi_transfer_buffer := ?b\<rparr>"
  have "run_state (spi_exchange E ?n) (?s, w) = ((), (s\<lparr>spi_transfer_buffer := r @ drop ?n ?b\<rparr>, after_xfer E w'))"
    using exchange_run [of ?s ?n E w r w'] assms(4) frame len n(1) b l by simp
  moreover have "r ! 0 = (r @ drop ?n ?b) ! 0" using len n(2) by (simp add: nth_append)
  ultimately have "run_state (send_loop E rid cmd pl ?l k) (s, w) =
      ((), (s\<lparr>spi_transfer_buffer := r @ drop ?n ?b\<rparr>, after_xfer E w'))"
    using assms(3,5) by (subst send_loop.simps) (simp split: nat.splits)
  moreover have "length (r @ drop ?n ?b) = 259" using len n(1) b l by simp
  ultimately show ?thesis using len n(2) by metis
qed

lemma read_loop_answered:
  assumes "spi_law E" and "length (spi_transfer_buffer s) = 259" and "n = unat l + 3"
    and "spi_xfer E (replicate n 0) (spi_enable E w) = (r, w')" and "r ! 0 \<noteq> CONTROL_COMMAND_IGNORED_IN_DEVICE"
  shows "\<exists>rest. run_state (read_loop E l k) (s, w) =
    ((), (s\<lparr>spi_transfer_buffer := r @ rest\<rparr>, after_xfer E w')) \<and> length r = n \<and> length (r @ rest) = 259"
proof -
  have n: "n \<le> 258" using assms(3) unat_u8_le [of l] by simp
  have "length (fst (spi_xfer E (replicate n 0) (spi_enable E w))) = n"
    using assms(1) by (simp add: spi_law_def)
  then have len: "length r = n" using assms(4) by simp
  let ?b = "write_at 0 (replicate n 0) (spi_transfer_buffer s)"
  have b: "take n ?b = replicate n 0" "length ?b = 259" using n assms(2) by (simp_all add: write_at_def)
  then have "run_state (spi_exchange E n) (s\<lparr>spi_transfer_buffer := ?b\<rparr>, w) =
      ((), (s\<lparr>spi_transfer_buffer := r @ drop n ?b\<rparr>, after_xfer E w'))"
    using exchange_run [of "s\<lparr>spi_transfer_buffer := ?b\<rparr>" n E w r w'] assms(4) len n by simp
  moreover have "r ! 0 = (r @ drop n ?b) ! 0" using len assms(3) by (simp add: nth_append)
  ultimately have "run_state (read_loop E l k) (s, w) =
      ((), (s\<lparr>spi_transfer_buffer := r @ drop n ?b\<rparr>, after_xfer E w'))"
    using assms(3,5) by (subst read_loop.simps) (simp split: nat.splits)
  moreover have "length (r @ drop n ?b) = 259" using len n b(2) by simp
  ultimately show ?thesis using len by metis
qed

lemma take4_drop2: "6 \<le> length r \<Longrightarrow> take 4 (drop 2 (r @ rest)) = [r ! 2, r ! 3, r ! 4, r ! 5]"
  by (rule nth_equalityI) (auto simp: nth_append less_Suc_eq numeral_eq_Suc)

lemma transfer_answered:
  assumes law: "spi_law E" and wf: "sat_wf s" and dir: "\<not> spi_flash_direct_access_enabled s"
    and len: "length pl \<le> 255"
    and ans: "spi_xfer E (cmd_frame rid cmd pl) (spi_enable E w) = (r, w')" "r ! 0 \<noteq> 7"
  shows "let out = run_state (transfer E rid cmd pl (of_nat (length pl))) (s, w);
      silent = (r ! 0 = 0 \<and> r ! 1 = 0 \<and> r ! 2 = 0);
      regs = (if r ! 0 = 1 \<and> r ! 1 \<noteq> 23 then [r ! 2, r ! 3, r ! 4, r ! 5] else dc_status_register s)
    in (silent \<longrightarrow> fst out = (False, pl) \<and> dc_status_register (fst (snd out)) = dc_status_register s) \<and>
       (\<not> silent \<and> cmd AND 0x80 = 0 \<longrightarrow> fst out = (True, pl) \<and> dc_status_register (fst (snd out)) = regs) \<and>
       (\<forall>r2 w2. \<not> silent \<and> cmd AND 0x80 \<noteq> 0 \<and>
          spi_xfer E (replicate (length pl + 3) 0) (spi_enable E (after_xfer E w')) = (r2, w2) \<and> r2 ! 0 \<noteq> 7 \<longrightarrow>
          fst out = (True, take (length pl) (drop 1 r2)) \<and> dc_status_register (fst (snd out)) = regs)"
proof -
  let ?s = "s\<lparr>spi_transfer_buffer := replicate 259 0\<rparr>"
  let ?l = "of_nat (length pl) :: u8"
  have l: "unat ?l = length pl" using len by (simp add: unat_of_nat)
  obtain rest where send: "run_state (send_loop E rid cmd pl ?l 3) (?s, w) =
      ((), (s\<lparr>spi_transfer_buffer := r @ rest\<rparr>, after_xfer E w'))"
    and r: "length r = max (length pl + 3) 6" "length (r @ rest) = 259"
    using send_loop_answered [OF law len _ ans(1), of ?s 3] ans(2)
    by (auto simp: CONTROL_COMMAND_IGNORED_IN_DEVICE_def)
  have six: "6 \<le> length r" using r(1) by simp
  then have nths: "(r @ rest) ! 0 = r ! 0" "(r @ rest) ! Suc 0 = r ! Suc 0" "(r @ rest) ! 2 = r ! 2"
    by (auto simp: nth_append)
  have regs: "take REGISTER_LEN (drop 2 (r @ rest)) = [r ! 2, r ! 3, r ! 4, r ! 5]"
    unfolding REGISTER_LEN_def by (rule take4_drop2 [OF six])
  have silent: "uint (r ! 0) + uint (r ! Suc 0) + uint (r ! 2) = 0 \<longleftrightarrow> r ! 0 = 0 \<and> r ! 1 = 0 \<and> r ! 2 = 0"
    by (simp add: add_nonneg_eq_0_iff unsigned_eq_0_iff)
  note simps = transfer_def send nths regs silent dir CONTROL_COMMAND_IGNORED_IN_DEVICE_def
    CONTROL_CMD_READ_BIT_def ans(2) wf [unfolded sat_wf_def] l
  have read: "\<exists>rest2. run_state (read_loop E ?l 3) (s1, after_xfer E w') =
      ((), (s1\<lparr>spi_transfer_buffer := r2 @ rest2\<rparr>, after_xfer E w2)) \<and> length r2 = length pl + 3"
    if "spi_xfer E (replicate (length pl + 3) 0) (spi_enable E (after_xfer E w')) = (r2, w2)" "r2 ! 0 \<noteq> 7"
      "spi_transfer_buffer s1 = r @ rest" for s1 r2 w2
    using read_loop_answered [OF law, of s1 "length pl + 3" ?l "after_xfer E w'" r2 w2 3] that r(2) l
    by (auto simp: CONTROL_COMMAND_IGNORED_IN_DEVICE_def)
  have both: "fst (run_state (transfer E rid cmd pl ?l) (s, w)) = (True, take (length pl) (drop 1 r2)) \<and>
      dc_status_register (fst (snd (run_state (transfer E rid cmd pl ?l) (s, w)))) =
      (if r ! 0 = 1 \<and> r ! 1 \<noteq> 23 then [r ! 2, r ! 3, r ! 4, r ! 5] else dc_status_register s)"
    if c: "\<not> (r ! 0 = 0 \<and> r ! 1 = 0 \<and> r ! 2 = 0)" "cmd AND 0x80 \<noteq> 0"
      and x: "spi_xfer E (replicate (length pl + 3) 0) (spi_enable E (after_xfer E w')) = (r2, w2)" "r2 ! 0 \<noteq> 7"
    for r2 w2
  proof -
    let ?s1 = "if r ! 0 = 1 \<and> r ! 1 \<noteq> 23
      then s\<lparr>spi_transfer_buffer := r @ rest, dc_status_register := [r ! 2, r ! 3, r ! 4, r ! 5]\<rparr>
      else s\<lparr>spi_transfer_buffer := r @ rest\<rparr>"
    have buf: "spi_transfer_buffer ?s1 = r @ rest" by (cases "r ! 0 = 1 \<and> r ! 1 \<noteq> 23") simp_all
    obtain rest2 where rd: "run_state (read_loop E ?l 3) (?s1, after_xfer E w') =
        ((), (?s1\<lparr>spi_transfer_buffer := r2 @ rest2\<rparr>, after_xfer E w2))" and len2: "length r2 = length pl + 3"
      using read [OF x buf] by blast
    have "(r2 @ rest2) ! 0 = r2 ! 0" using len2 by (auto simp: nth_append)
    moreover have "write_at 0 (take (length pl) (drop 1 (r2 @ rest2))) pl = take (length pl) (drop 1 r2)"
      using len2 by (simp add: write_at_def)
    ultimately show ?thesis
      using c x(2) rd silent
      by (cases "r ! 0 = 1"; cases "r ! Suc 0 = 23") (simp_all add: simps del: take_append drop_append)
  qed
  show ?thesis
    unfolding Let_def
  proof (intro conjI impI allI)
  qed (use both in \<open>simp_all add: simps del: take_append drop_append\<close>)
qed

text \<open>C5: what a transfer delivers when the device takes the command. The frame on the wire is header,
  payload and padding; a silent device (three zero bytes) makes it fail; a status report replaces the status
  registers by the four received bytes that follow, which the padding guarantees were received; a read
  command returns exactly the bytes of the second answer, a write command leaves the payload alone.\<close>

theorem transfer_delivers:
  assumes law: "spi_law E" and wf: "sat_wf s" and dir: "\<not> spi_flash_direct_access_enabled s"
    and len: "length pl \<le> 255"
    and ans: "spi_xfer E (cmd_frame rid cmd pl) (spi_enable E w) = (r, w')" "r ! 0 \<noteq> 7"
  shows "let out = run_state (transfer E rid cmd pl (of_nat (length pl))) (s, w);
      silent = (r ! 0 = 0 \<and> r ! 1 = 0 \<and> r ! 2 = 0);
      regs = (if r ! 0 = 1 \<and> r ! 1 \<noteq> 23 then [r ! 2, r ! 3, r ! 4, r ! 5] else dc_status_register s)
    in (silent \<longrightarrow> fst out = (False, pl) \<and> dc_status_register (fst (snd out)) = dc_status_register s) \<and>
       (\<not> silent \<and> cmd AND 0x80 = 0 \<longrightarrow> fst out = (True, pl) \<and> dc_status_register (fst (snd out)) = regs) \<and>
       (\<forall>r2 w2. \<not> silent \<and> cmd AND 0x80 \<noteq> 0 \<and>
          spi_xfer E (replicate (length pl + 3) 0) (spi_enable E (after_xfer E w')) = (r2, w2) \<and> r2 ! 0 \<noteq> 7 \<longrightarrow>
          fst out = (True, take (length pl) (drop 1 r2)) \<and> dc_status_register (fst (snd out)) = regs)"
  by (rule transfer_answered [OF assms])

theorem transfer_delivers_witness:
  "fst (run_state (transfer ex_sat_env 240 0xD8 [0, 0, 0, 0, 0] 5)
     (ex_sat0, ex_sat_w\<lparr>es_answers := [[1, 0, 4, 5, 6, 7], [23, 1, 2, 3, 4, 5]]\<rparr>)) = (True, [1, 2, 3, 4, 5])"
proof -
  let ?w = "ex_sat_w\<lparr>es_answers := [[1, 0, 4, 5, 6, 7], [23, 1, 2, 3, 4, 5]]\<rparr>"
  let ?w1 = "ex_sat_w\<lparr>es_answers := [[23, 1, 2, 3, 4, 5]], es_count := 1\<rparr>"
  let ?w2 = "ex_sat_w\<lparr>es_answers := [], es_count := 2\<rparr>"
  let ?pl = "[0, 0, 0, 0, 0] :: u8 list"
  have "length (cmd_frame 240 0xD8 ?pl) = 8"
    by (simp add: cmd_frame_def status_report_dummies_def REGISTER_LEN_def)
  then have "spi_xfer ex_sat_env (cmd_frame 240 0xD8 ?pl) (spi_enable ex_sat_env ?w) = ([1, 0, 4, 5, 6, 7, 0, 0], ?w1)"
    by (simp add: ex_sat_env_def ex_answer_def ex_sat_w_def numeral_eq_Suc)
  moreover have "spi_xfer ex_sat_env (replicate (length ?pl + 3) 0) (spi_enable ex_sat_env (after_xfer ex_sat_env ?w1)) =
      ([23, 1, 2, 3, 4, 5, 0, 0], ?w2)"
    by (simp add: ex_sat_env_def ex_answer_def after_xfer_def ex_sat_w_def numeral_eq_Suc)
  moreover have "sat_wf ex_sat0" "\<not> spi_flash_direct_access_enabled ex_sat0"
    by (simp_all add: sat_wf_def ex_sat0_def sat_init_def REGISTER_LEN_def)
  ultimately show ?thesis
    using transfer_delivers [OF ex_spi_law, where s = ex_sat0 and pl = ?pl and rid = 240 and cmd = "0xD8" and w = ?w
        and r = "[1, 0, 4, 5, 6, 7, 0, 0]" and w' = ?w1]
    by (simp add: Let_def)
qed

section \<open>How often the bus is used\<close>

text \<open>\<open>cnt\<close> counts the exchanges: \<open>transfer_array\<close> is one, the other calls of \<open>transfer\<close> are none.\<close>

definition xfer_count :: "'w sat_env \<Rightarrow> ('w \<Rightarrow> nat) \<Rightarrow> bool" where
  "xfer_count E cnt \<longleftrightarrow>
     (\<forall>bs w. cnt (snd (spi_xfer E bs w)) = Suc (cnt w)) \<and> (\<forall>w. cnt (spi_enable E w) = cnt w) \<and>
     (\<forall>w. cnt (spi_disable E w) = cnt w) \<and> (\<forall>n w. cnt (task_delay E n w) = cnt w)"

lemma exchange_count:
  "xfer_count E cnt \<Longrightarrow> cnt (snd (snd (run_state (spi_exchange E n) sw))) = Suc (cnt (snd sw))"
  by (simp add: spi_exchange_def xfer_count_def)

lemma send_loop_count:
  assumes "xfer_count E cnt"
  shows "cnt (snd (snd (run_state (send_loop E rid cmd pl l k) sw))) \<le> cnt (snd sw) + k + 1"
proof (induction k arbitrary: sw)
  case 0
  show ?case by (subst send_loop.simps) (simp add: case_prod_beta exchange_count [OF assms])
next
  case (Suc k)
  let ?b = "\<lambda>s. s\<lparr>spi_transfer_buffer :=
    write_at 0 ([rid, cmd, cmd_len_byte cmd l] @ take (unat l) pl) (spi_transfer_buffer s)\<rparr>"
  let ?x = "snd (run_state (spi_exchange E (unat l + 3 + status_report_dummies l)) (?b (fst sw), snd sw))"
  have "cnt (snd ?x) = Suc (cnt (snd sw))" by (simp add: exchange_count [OF assms])
  then show ?case
    using Suc [of ?x] by (subst send_loop.simps) (simp add: case_prod_beta)
qed

lemma read_loop_count:
  assumes "xfer_count E cnt"
  shows "cnt (snd (snd (run_state (read_loop E l k) sw))) \<le> cnt (snd sw) + k + 1"
proof (induction k arbitrary: sw)
  case 0
  show ?case by (subst read_loop.simps) (simp add: case_prod_beta exchange_count [OF assms])
next
  case (Suc k)
  let ?b = "\<lambda>s. s\<lparr>spi_transfer_buffer := write_at 0 (replicate (unat l + 3) 0) (spi_transfer_buffer s)\<rparr>"
  let ?x = "snd (run_state (spi_exchange E (unat l + 3)) (?b (fst sw), snd sw))"
  have "cnt (snd ?x) = Suc (cnt (snd sw))" by (simp add: exchange_count [OF assms])
  then show ?case
    using Suc [of ?x] by (subst read_loop.simps) (simp add: case_prod_beta)
qed

text \<open>A transfer ends after at most four exchanges for the command and four for the answer, even if the device
  ignores every command; while direct flash access is enabled it fails at once without touching the
  bus.\<close>

theorem transfer_exchanges_bounded:
  assumes "xfer_count E cnt"
  shows "cnt (snd (snd (run_state (transfer E rid cmd pl l) (s, w)))) \<le> cnt w + 8 \<and>
    (cmd AND 0x80 = 0 \<longrightarrow> cnt (snd (snd (run_state (transfer E rid cmd pl l) (s, w)))) \<le> cnt w + 4) \<and>
    (spi_flash_direct_access_enabled s \<longrightarrow> run_state (transfer E rid cmd pl l) (s, w) = ((False, pl), (s, w)))"
proof (cases "spi_flash_direct_access_enabled s")
  case False
  let ?s0 = "s\<lparr>spi_transfer_buffer := replicate (length (spi_transfer_buffer s)) 0\<rparr>"
  let ?x = "snd (run_state (send_loop E rid cmd pl l 3) (?s0, w))"
  let ?d = "\<lambda>s'. s'\<lparr>dc_status_register := take REGISTER_LEN (drop 2 (spi_transfer_buffer s'))\<rparr>"
  have x: "cnt (snd ?x) \<le> cnt w + 4" using send_loop_count [OF assms, of rid cmd pl l 3 "(?s0, w)"] by simp
  have rd: "cnt (snd (snd (run_state (read_loop E l 3) (s', snd ?x)))) \<le> cnt w + 8" for s'
    using read_loop_count [OF assms, of l 3 "(s', snd ?x)"] x by simp
  show ?thesis
    using False x rd [of "fst ?x"] rd [of "?d (fst ?x)"]
    by (simp add: transfer_def case_prod_beta CONTROL_CMD_READ_BIT_def)
qed (simp add: transfer_def)

theorem transfer_exchanges_bounded_witness:
  "es_count (snd (snd (run_state (transfer ex_sat_env 240 0xD8 [0, 0, 0, 0, 0] 5) (ex_sat0, ex_sat_w)))) \<le> 8"
  using transfer_exchanges_bounded [of ex_sat_env es_count 240 "0xD8" "[0, 0, 0, 0, 0]" 5 ex_sat0 ex_sat_w]
  by (simp add: xfer_count_def ex_sat_env_def ex_sat_w_def split: list.splits)

section \<open>Giving up on a silent device\<close>

text \<open>A device that does not answer leaves zeroes in the buffer; \<open>calls\<close> counts the runs of the
  registered callbacks.\<close>

definition silent_device :: "'w sat_env \<Rightarrow> bool" where
  "silent_device E \<longleftrightarrow> (\<forall>bs w. fst (spi_xfer E bs w) = replicate (length bs) 0)"

definition callback_count :: "'w sat_env \<Rightarrow> ('w \<Rightarrow> nat) \<Rightarrow> bool" where
  "callback_count E calls \<longleftrightarrow>
     (\<forall>s w. calls (sat_callback E s w) = Suc (calls w)) \<and> (\<forall>bs w. calls (snd (spi_xfer E bs w)) = calls w) \<and>
     (\<forall>w. calls (spi_enable E w) = calls w) \<and> (\<forall>w. calls (spi_disable E w) = calls w) \<and>
     (\<forall>n w. calls (task_delay E n w) = calls w) \<and> (\<forall>w. calls (snd (sat_millis E w)) = calls w)"

lemma silent_attempt:
  assumes "spi_law E" and "silent_device E" and "callback_count E calls" and "sat_wf s"
    and "\<not> spi_flash_direct_access_enabled s"
  shows "\<exists>s' w'. run_state (check_for_xmos E) (s, w) = (False, (s', w')) \<and> sat_frame s s' \<and> sat_wf s' \<and> calls w' = calls w"
proof -
  let ?pl = "raw_version_resp E"
  let ?x = "spi_xfer E (cmd_frame 240 GET_VERSION ?pl) (spi_enable E w)"
  have pl: "length ?pl = 5" "(of_nat (length ?pl) :: u8) = 5" using assms(1) by (simp_all add: spi_law_def)
  have r: "fst ?x = replicate (length (cmd_frame 240 GET_VERSION ?pl)) 0"
    using assms(2) by (simp add: silent_device_def)
  have len: "3 \<le> length (cmd_frame 240 GET_VERSION ?pl)" by (simp add: cmd_frame_def)
  have "fst ?x ! i = 0" if "i < 3" for i
    unfolding r using len that by (subst nth_replicate) simp_all
  then have z: "fst ?x ! 0 = 0" "fst ?x ! 1 = 0" "fst ?x ! 2 = 0" by simp_all
  let ?s0 = "s\<lparr>spi_transfer_buffer := replicate 259 0\<rparr>"
  obtain rest where send: "run_state (send_loop E 240 GET_VERSION ?pl 5 3) (?s0, w) =
      ((), (s\<lparr>spi_transfer_buffer := fst ?x @ rest\<rparr>, after_xfer E (snd ?x)))" and "length (fst ?x @ rest) = 259"
    using send_loop_answered [OF assms(1), of ?pl ?s0 240 GET_VERSION w "fst ?x" "snd ?x" 3] z pl
    by (auto simp: CONTROL_COMMAND_IGNORED_IN_DEVICE_def)
  moreover have "(fst ?x @ rest) ! 0 = 0" "(fst ?x @ rest) ! 1 = 0" "(fst ?x @ rest) ! 2 = 0"
    using z len r by (auto simp: nth_append)
  ultimately have "run_state (check_for_xmos E) (s, w) =
      (False, (s\<lparr>spi_transfer_buffer := fst ?x @ rest\<rparr>, after_xfer E (snd ?x)))"
    using assms(4,5)
    by (simp add: check_for_xmos_def dfu_get_fw_version_def transfer_def sat_wf_def
        CONTROL_COMMAND_IGNORED_IN_DEVICE_def)
  moreover have "calls (after_xfer E (snd ?x)) = calls w"
    using assms(3) by (simp add: callback_count_def after_xfer_def)
  ultimately show ?thesis
    using assms(4) \<open>length (fst ?x @ rest) = 259\<close> by (simp add: sat_frame_def sat_wf_def)
qed

lemma silent_loop:
  assumes "spi_law E" and "silent_device E" and "callback_count E calls" and "sat_wf s"
    and "\<not> spi_flash_direct_access_enabled s" and "sat_state s = SAT_DETACHED_STATE" and "connection_attempts s < 3"
    and "fst (sat_millis E w) - last_attempt_timestamp s > 1000"
    and "run_state (sat_loop E) (s, w) = ((), (s', w'))"
  shows "sat_wf s' \<and> \<not> spi_flash_direct_access_enabled s' \<and> sat_state s' = SAT_DETACHED_STATE \<and>
    connection_attempts s' = connection_attempts s + 1 \<and> calls w' = calls w"
proof -
  let ?w = "snd (sat_millis E w)"
  obtain s1 w1 where 1: "run_state (check_for_xmos E) (s, ?w) = (False, (s1, w1))" "sat_frame s s1" "sat_wf s1"
    "calls w1 = calls ?w"
    using silent_attempt [OF assms(1-5), of ?w] by blast
  have "connection_attempts s \<le> 3" "connection_attempts s \<noteq> 3" using assms(7) by auto
  with assms(6,8,9) 1(1) have "s' = s1\<lparr>last_attempt_timestamp := fst (sat_millis E w1),
      connection_attempts := connection_attempts s1 + 1\<rparr> \<and> w' = snd (sat_millis E w1)"
    by (simp add: sat_loop_def MAX_CONNECTION_ATTEMPTS_def)
  with 1(2-4) assms(3,5,6) show ?thesis
    by (simp add: sat_frame_def sat_wf_def callback_count_def)
qed


definition ex_silent_env :: "ex_sat_world sat_env" where
  "ex_silent_env = ex_sat_env\<lparr>spi_xfer := \<lambda>bs w. (replicate (length bs) 0, w)\<rparr>"


section \<open>GPIO pins\<close>

text \<open>Reading a pin asks the device for a status report and answers with the pin's bit of the register of its
  port, as just received, inverted if the pin is configured so.\<close>

theorem gpio_read_reports:
  assumes "spi_law E" and "sat_wf s" and "\<not> spi_flash_direct_access_enabled s" and "gpio_parent p"
    and "spi_xfer E [0, 0, 0, 0, 0, 0] (spi_enable E w) = (r, w')" and "r ! 0 = 1" and "r ! 1 \<noteq> 23"
  shows "fst (run_state (digital_read E p) (s, w)) \<longleftrightarrow>
    bit (r ! (2 + register_index (port_register (gpio_port p)))) (unat (gpio_pin_no p)) \<noteq> gpio_inverted p"
proof -
  have "cmd_frame 0 0 [] = [0, 0, 0, 0, 0, 0]"
    by (simp add: cmd_frame_def cmd_len_byte_def status_report_dummies_def REGISTER_LEN_def CONTROL_CMD_READ_BIT_def
        numeral_eq_Suc)
  then have "dc_status_register (fst (snd (run_state (transfer E 0 0 [] 0) (s, w)))) = [r ! 2, r ! 3, r ! 4, r ! 5]"
    using transfer_answered [OF assms(1-3), of "[]" 0 0 w r w'] assms(5-7) by (simp add: Let_def)
  then show ?thesis
    using assms(4)
    by (cases "gpio_port p")
      (simp_all add: digital_read_def request_status_register_update_def case_prod_beta get_dc_status_def
        numeral_eq_Suc)
qed

theorem gpio_read_reports_witness:
  "fst (run_state (digital_read ex_sat_env \<lparr>gpio_parent = True, gpio_port = INPUT_B, gpio_pin_no = 2, gpio_inverted = False\<rparr>)
     (ex_sat0, ex_sat_w\<lparr>es_answers := [[1, 0, 0, 0, 4, 0]]\<rparr>))"
proof -
  let ?p = "\<lparr>gpio_parent = True, gpio_port = INPUT_B, gpio_pin_no = 2, gpio_inverted = False\<rparr>"
  have "spi_xfer ex_sat_env [0, 0, 0, 0, 0, 0] (spi_enable ex_sat_env (ex_sat_w\<lparr>es_answers := [[1, 0, 0, 0, 4, 0]]\<rparr>)) =
      ([1, 0, 0, 0, 4, 0], ex_sat_w\<lparr>es_count := 1\<rparr>)"
    by (simp add: ex_sat_env_def ex_answer_def ex_sat_w_def)
  moreover have "sat_wf ex_sat0" "\<not> spi_flash_direct_access_enabled ex_sat0"
    by (simp_all add: sat_wf_def ex_sat0_def sat_init_def REGISTER_LEN_def)
  ultimately show ?thesis
    using gpio_read_reports [OF ex_spi_law, where s = ex_sat0 and p = ?p and r = "[1, 0, 0, 0, 4, 0]"
        and w = "ex_sat_w\<lparr>es_answers := [[1, 0, 0, 0, 4, 0]]\<rparr>"] by simp
qed

text \<open>Writing a pin ignores the inversion the pin is configured with (reading honours it), and does nothing on
  a port that is not an output.\<close>

theorem gpio_write_ignores_inversion:
  "digital_write E (p\<lparr>gpio_inverted := b\<rparr>) v = digital_write E p v \<and>
   (gpio_port p = OUTPUT_A \<or> run_state (digital_write E p v) sw = ((), sw))"
  by (simp add: digital_write_def)

end
