(* ===== verification/Xmos_Flasher_Correct.thy ===== *)
theory Xmos_Flasher_Correct
  imports Xmos_Flasher Memory_Flasher_Correct Satellite1_Correct
begin

text \<open>
  Properties of the XMOS flasher: polling ends when the clock runs, the byte sequences on the SPI bus, sectors are
  erased once each and in order, a page counts as written only if it was read back, an image as flashed only if its MD5
  sum matches, the pointers a turn of the main loop follows are never null, and the ways in which a run can go wrong.

  Named hypotheses about code outside the repository: \<open>clock_law\<close> (time advances while bytes are transferred) and
  \<open>spi_trace\<close> (\<open>tr\<close> lists, for every selection of the chip, the bytes sent while it was selected).
\<close>

section \<open>Commands leave the object alone\<close>

lemma spi_prims_obj [simp]:
  "fst (snd (run_state (enable_spi E) sw)) = fst sw"
  "fst (snd (run_state (disable_spi E) sw)) = fst sw"
  "fst (snd (run_state (transfer_byte E b) sw)) = fst sw"
  by (simp_all add: enable_spi_def disable_spi_def transfer_byte_def)

lemma send_bytes_obj [simp]: "fst (snd (run_state (send_bytes E bs) sw)) = fst sw"
  by (induction bs arbitrary: sw) (simp_all add: case_prod_beta)

lemma recv_bytes_obj [simp]: "fst (snd (run_state (recv_bytes E n) sw)) = fst sw"
  by (induction n arbitrary: sw) (simp_all add: case_prod_beta)

lemma length_recv_bytes [simp]: "length (fst (run_state (recv_bytes E n) sw)) = n"
  by (induction n arbitrary: sw) (simp_all add: case_prod_beta)

lemma commands_obj [simp]:
  "fst (snd (run_state (read_flash_status E) sw)) = fst sw"
  "fst (snd (run_state (enable_writing E) sw)) = fst sw"
  "fst (snd (run_state (disable_writing E) sw)) = fst sw"
  "fst (snd (run_state (erase_sector E n) sw)) = fst sw"
  "fst (snd (run_state (read_page E a buf) sw)) = fst sw"
  by (simp_all add: read_flash_status_def enable_writing_def disable_writing_def erase_sector_def read_page_def
      case_prod_beta)

text \<open>What holds before polling and is kept by reading the clock and the status register holds afterwards.\<close>

lemma busy_loop_inv:
  assumes "busy_loop E t0 T sw = Some (b, sw')" and "I sw"
    and "\<And>x. I x \<Longrightarrow> I (fst x, snd (sat_millis E (snd x)))"
    and "\<And>x. I x \<Longrightarrow> I (snd (run_state (read_flash_status E) x))"
  shows "I sw'"
proof -
  let ?P = "\<lambda>E' t0 T sw y. E' = E \<longrightarrow> I sw \<longrightarrow> I (snd y)"
  have "?P E t0 T sw (b, sw')"
  proof (rule busy_loop.raw_induct [where P = ?P, OF _ assms(1)])
    fix rec E' t0 T sw and y :: "bool \<times> (xflash \<times> 'a)"
    assume IH: "\<And>E' t0 T sw y. rec E' t0 T sw = Some y \<Longrightarrow> ?P E' t0 T sw y"
      and run: "(let c = run_state (ext (sat_millis E')) sw
       in if \<not> fst c - t0 < T then Some (False, snd c)
          else let st = run_state (read_flash_status E') (snd c)
               in if fst st AND 1 = 0 then Some (True, snd st) else rec E' t0 T (snd st)) = Some y"
    let ?c = "run_state (ext (sat_millis E')) sw"
    let ?st = "run_state (read_flash_status E') (snd ?c)"
    have "y = (False, snd ?c) \<or> y = (True, snd ?st) \<or> rec E' t0 T (snd ?st) = Some y"
      using run unfolding Let_def by (metis option.inject)
    then show "?P E' t0 T sw y"
      using IH [of E' t0 T "snd ?st" y] assms(3) [of sw] assms(4) [of "snd ?c"] by auto
  qed
  with assms(2) show ?thesis by simp
qed

lemma busy_loop_obj: "busy_loop E t0 T sw = Some (b, sw') \<Longrightarrow> fst sw' = fst sw"
  by (erule busy_loop_inv [where I = "\<lambda>x. fst x = fst sw"]) simp_all

lemma wait_obj: "wait_while_flash_busy E T sw = Some (b, sw') \<Longrightarrow> fst sw' = fst sw"
  by (auto simp: wait_while_flash_busy_def dest: busy_loop_obj)

lemma write_page_obj: "write_page E a buf sw = Some (b, sw') \<Longrightarrow> fst sw' = fst sw"
  by (auto simp: write_page_def total_run_def bind_eq_Some_conv case_prod_beta dest!: wait_obj split: if_splits)

section \<open>Polling ends\<close>

text \<open>\<open>clk\<close> is the time in milliseconds: \<open>millis\<close> reads it (modulo its width), no call takes more than a second, and
  transferring a byte takes some time.\<close>

definition clock_law :: "'w flash_env \<Rightarrow> ('w \<Rightarrow> nat) \<Rightarrow> bool" where
  "clock_law E clk \<longleftrightarrow>
     (\<forall>w. fst (sat_millis E w) = of_nat (clk w) \<and> clk w \<le> clk (snd (sat_millis E w)) \<and>
          clk (snd (sat_millis E w)) \<le> clk w + 1000) \<and>
     (\<forall>w. clk w \<le> clk (spi_enable E w) \<and> clk (spi_enable E w) \<le> clk w + 1000) \<and>
     (\<forall>w. clk w \<le> clk (spi_disable E w) \<and> clk (spi_disable E w) \<le> clk w + 1000) \<and>
     (\<forall>b w. clk w < clk (snd (spi_byte E b w)) \<and> clk (snd (spi_byte E b w)) \<le> clk w + 1000)"

lemma poll_clock:
  assumes "clock_law E clk"
  shows "clk (snd sw) < clk (snd (snd (run_state (read_flash_status E) sw)))"
    and "clk (snd (snd (run_state (read_flash_status E) sw))) \<le> clk (snd sw) + 4000"
proof -
  let ?w1 = "spi_enable E (snd sw)"
  let ?w2 = "snd (spi_byte E 5 ?w1)"
  let ?w3 = "snd (spi_byte E 0 ?w2)"
  have c: "clk (snd sw) \<le> clk ?w1" "clk ?w1 < clk ?w2" "clk ?w2 < clk ?w3" "clk ?w3 \<le> clk (spi_disable E ?w3)"
    "clk ?w1 \<le> clk (snd sw) + 1000" "clk ?w2 \<le> clk ?w1 + 1000" "clk ?w3 \<le> clk ?w2 + 1000"
    "clk (spi_disable E ?w3) \<le> clk ?w3 + 1000"
    using assms by (simp_all add: clock_law_def)
  have eq: "snd (snd (run_state (read_flash_status E) sw)) = spi_disable E ?w3"
    by (simp add: read_flash_status_def enable_spi_def disable_spi_def transfer_byte_def)
  show "clk (snd sw) < clk (snd (snd (run_state (read_flash_status E) sw)))"
    unfolding eq using c by linarith
  show "clk (snd (snd (run_state (read_flash_status E) sw))) \<le> clk (snd sw) + 4000"
    unfolding eq using c by linarith
qed

lemma elapsed_less_iff:
  assumes "t0 \<le> t" and "t - t0 < 2 ^ 32"
  shows "(of_nat t - of_nat t0 :: u32) < T \<longleftrightarrow> t - t0 < unat T"
proof -
  have "(of_nat t - of_nat t0 :: u32) = of_nat (t - t0)" using assms(1) by simp
  moreover have "unat (of_nat (t - t0) :: u32) = t - t0" using assms(2) by (simp add: unat_of_nat)
  ultimately show ?thesis by (simp only: word_less_nat_alt)
qed

lemma busy_loop_returns:
  assumes law: "clock_law E clk" and T: "unat T < 2 ^ 31"
  shows "t0 \<le> clk (snd sw) \<Longrightarrow> clk (snd sw) \<le> t0 + unat T + 5000 \<Longrightarrow>
    \<exists>b sw'. busy_loop E (of_nat t0) T sw = Some (b, sw') \<and> clk (snd sw') \<le> t0 + unat T + 6000"
proof (induction "t0 + unat T + 5000 - clk (snd sw)" arbitrary: sw rule: less_induct)
  case less
  let ?c = "run_state (ext (sat_millis E)) sw"
  let ?st = "run_state (read_flash_status E) (snd ?c)"
  have c: "fst ?c = of_nat (clk (snd sw))" "clk (snd sw) \<le> clk (snd (snd ?c))" "clk (snd (snd ?c)) \<le> clk (snd sw) + 1000"
    using law by (simp_all add: clock_law_def)
  have "clk (snd sw) - t0 < 2 ^ 32" using less.prems T by simp
  then have guard: "fst ?c - of_nat t0 < T \<longleftrightarrow> clk (snd sw) - t0 < unat T"
    using elapsed_less_iff [OF less.prems(1)] c(1) by metis
  note p = poll_clock [OF law, of "snd ?c"]
  show ?case
  proof (cases "fst ?c - of_nat t0 < T")
    case False
    then have "busy_loop E (of_nat t0) T sw = Some (False, snd ?c)"
      by (subst busy_loop.simps) (simp add: Let_def)
    moreover have "clk (snd (snd ?c)) \<le> t0 + unat T + 6000" using c(3) less.prems(2) by linarith
    ultimately show ?thesis by blast
  next
    case True
    then have le: "clk (snd sw) < t0 + unat T" using guard less.prems(1) by linarith
    then have up: "clk (snd (snd ?st)) \<le> t0 + unat T + 5000" using c(3) p(2) by linarith
    show ?thesis
    proof (cases "fst ?st AND 1 = 0")
      case True
      then have "busy_loop E (of_nat t0) T sw = Some (True, snd ?st)"
        using \<open>fst ?c - of_nat t0 < T\<close> by (subst busy_loop.simps) (simp add: Let_def)
      moreover have "clk (snd (snd ?st)) \<le> t0 + unat T + 6000" using up by linarith
      ultimately show ?thesis by blast
    next
      case False
      then have "busy_loop E (of_nat t0) T sw = busy_loop E (of_nat t0) T (snd ?st)"
        using \<open>fst ?c - of_nat t0 < T\<close> by (subst busy_loop.simps) (simp add: Let_def)
      moreover have "clk (snd sw) < clk (snd (snd ?st))" using c(2) p(1) by linarith
      ultimately show ?thesis using less.hyps [of "snd ?st"] less.prems up by auto
    qed
  qed
qed

lemma wait_returns:
  assumes "clock_law E clk" and "unat T < 2 ^ 31"
  shows "\<exists>b w'. wait_while_flash_busy E T (s, w) = Some (b, (s, w')) \<and> clk w' \<le> clk w + unat T + 6000"
proof -
  let ?w = "snd (sat_millis E w)"
  have m: "fst (sat_millis E w) = of_nat (clk w)" "clk w \<le> clk ?w" "clk ?w \<le> clk w + 1000"
    using assms(1) by (simp_all add: clock_law_def)
  obtain b sw' where r: "busy_loop E (of_nat (clk w)) T (s, ?w) = Some (b, sw')"
    "clk (snd sw') \<le> clk w + unat T + 6000"
    using busy_loop_returns [OF assms, of "clk w" "(s, ?w)"] m by auto
  moreover have "fst sw' = s" using busy_loop_obj [OF r(1)] by simp
  ultimately show ?thesis
    using m(1) by (cases sw') (simp add: wait_while_flash_busy_def)
qed


lemma ex_clock_law: "clock_law ex_flash_env (\<lambda>w. w)"
  by (simp add: clock_law_def ex_flash_env_def)

definition ex_xf :: xflash where
  "ex_xf = xflash_init (sat_init [0, 0, 0, 0] (replicate 259 0) True)"


section \<open>What goes over the bus\<close>

definition spi_trace :: "'w flash_env \<Rightarrow> ('w \<Rightarrow> u8 list list) \<Rightarrow> bool" where
  "spi_trace E tr \<longleftrightarrow>
     (\<forall>w. tr (spi_enable E w) = tr w @ [[]]) \<and> (\<forall>w. tr (spi_disable E w) = tr w) \<and>
     (\<forall>b w. tr (snd (spi_byte E b w)) = butlast (tr w) @ [last (tr w) @ [b]]) \<and>
     (\<forall>w. tr (snd (sat_millis E w)) = tr w)"

lemma send_bytes_trace:
  assumes "spi_trace E tr"
  shows "tr (snd sw) = fs @ [f] \<Longrightarrow> tr (snd (snd (run_state (send_bytes E bs) sw))) = fs @ [f @ bs]"
proof (induction bs arbitrary: sw f)
  case (Cons b bs)
  have "tr (snd (spi_byte E b (snd sw))) = fs @ [f @ [b]]"
    using assms Cons.prems by (simp add: spi_trace_def)
  then show ?case
    using Cons.IH [of "(fst sw, snd (spi_byte E b (snd sw)))" "f @ [b]"]
    by (simp add: transfer_byte_def case_prod_beta)
qed simp

text \<open>One selection of the chip during which \<open>bs\<close> are sent.\<close>

lemma frame_trace:
  assumes "spi_trace E tr"
  shows "tr (snd (snd (run_state (do { enable_spi E; send_bytes E bs; disable_spi E }) sw))) = tr (snd sw) @ [bs]"
proof -
  let ?sw = "(fst sw, spi_enable E (snd sw))"
  have "tr (snd (snd (run_state (send_bytes E bs) ?sw))) = tr (snd sw) @ [bs]"
    using send_bytes_trace [OF assms, of ?sw "tr (snd sw)" "[]" bs] assms by (simp add: spi_trace_def)
  moreover have "tr (spi_disable E w) = tr w" for w using assms by (simp add: spi_trace_def)
  ultimately show ?thesis by (simp add: enable_spi_def disable_spi_def case_prod_beta)
qed

lemma status_trace:
  assumes "spi_trace E tr"
  shows "tr (snd (snd (run_state (read_flash_status E) sw))) = tr (snd sw) @ [[5, 0]]"
  using assms
  by (simp add: read_flash_status_def enable_spi_def disable_spi_def transfer_byte_def spi_trace_def)

lemma enable_writing_trace:
  assumes "spi_trace E tr"
  shows "tr (snd (snd (run_state (enable_writing E) sw))) = tr (snd sw) @ [[6], [5, 0]]"
proof -
  have "tr (spi_disable E (snd (spi_byte E 6 (spi_enable E w)))) = tr w @ [[6]]" for w
    using assms by (simp add: spi_trace_def)
  then show ?thesis
    by (simp add: enable_writing_def enable_spi_def disable_spi_def transfer_byte_def case_prod_beta
        status_trace [OF assms])
qed

lemma busy_loop_trace:
  assumes "spi_trace E tr" and "busy_loop E t0 T sw = Some (b, sw')"
  shows "\<exists>k. tr (snd sw') = tr (snd sw) @ replicate k [5, 0]"
proof (rule busy_loop_inv [OF assms(2), where I = "\<lambda>x. \<exists>k. tr (snd x) = tr (snd sw) @ replicate k [5, 0]"])
  show "\<exists>k. tr (snd sw) = tr (snd sw) @ replicate k [5, 0]" by (rule exI [of _ 0]) simp
next
  fix x :: "xflash \<times> 'a" assume "\<exists>k. tr (snd x) = tr (snd sw) @ replicate k [5, 0]"
  then obtain k where "tr (snd x) = tr (snd sw) @ replicate k [5, 0]" by blast
  then have "tr (snd (snd (run_state (read_flash_status E) x))) = tr (snd sw) @ replicate (Suc k) [5, 0]"
    by (simp add: status_trace [OF assms(1)] replicate_append_same)
  then show "\<exists>k. tr (snd (snd (run_state (read_flash_status E) x))) = tr (snd sw) @ replicate k [5, 0]" by blast
qed (use assms(1) in \<open>simp add: spi_trace_def\<close>)

lemma wait_trace:
  assumes "spi_trace E tr" and "wait_while_flash_busy E T sw = Some (b, sw')"
  shows "\<exists>k. tr (snd sw') = tr (snd sw) @ replicate k [5, 0]"
  using busy_loop_trace [OF assms(1), of _ T "(fst sw, snd (sat_millis E (snd sw)))" b sw'] assms
  by (auto simp: wait_while_flash_busy_def spi_trace_def)

lemma unat_byte: "unat (ucast (drop_bit k (a :: u32) AND 0xFF) :: u8) = (unat a div 2 ^ k) mod 256"
proof -
  have "take_bit 32 (unat a) = unat a"
    using unsigned_less [of a, where ?'a = nat] by (simp add: take_bit_nat_eq_self_iff)
  then have "unat (ucast (drop_bit k a AND 0xFF) :: u8) = take_bit 8 (drop_bit k (unat a))"
    by (simp add: mask_simps unsigned_ucast_eq unsigned_take_bit_eq unsigned_drop_bit_eq)
  then show ?thesis by (simp add: take_bit_eq_mod drop_bit_eq_div)
qed

lemma addr_bytes_value:
  assumes "a < 2 ^ 24"
  shows "\<exists>b2 b1 b0. addr_bytes a = [b2, b1, b0] \<and> unat a = 65536 * unat b2 + 256 * unat b1 + unat b0"
proof -
  let ?n = "unat a"
  have "?n < 2 ^ 24" using assms by (simp add: word_less_nat_alt)
  then have top: "?n div 65536 mod 256 = ?n div 65536" by (simp add: less_mult_imp_div_less)
  have "?n div 65536 = ?n div 256 div 256" by (simp add: div_mult2_eq [symmetric])
  then have "?n = 65536 * (?n div 65536) + 256 * (?n div 256 mod 256) + ?n mod 256"
    using mult_div_mod_eq [of 256 ?n] mult_div_mod_eq [of 256 "?n div 256"] by linarith
  then show ?thesis
    using unat_byte [of 8 a] unat_byte [of 16 a] unat_byte [of 0 a] top
    by (simp add: addr_bytes_def le32_bytes_def)
qed

section \<open>Erasing\<close>

lemma sectors_left_eq:
  assumes "-1 \<le> current_sector s" and "current_sector s \<le> uint (total_sectors_to_erase s)"
    and "total_sectors_to_erase s \<le> 4096"
  shows "sectors_left s = uint (total_sectors_to_erase s) - current_sector s"
proof -
  let ?d = "uint (total_sectors_to_erase s) - current_sector s"
  have eq: "total_sectors_to_erase s - word_of_int (current_sector s) = word_of_int ?d"
    by (simp add: wi_hom_syms)
  have "uint (total_sectors_to_erase s) \<le> 4096" using assms(3) by (simp add: word_le_def)
  then have "signed_take_bit 31 ?d = ?d"
    using assms(1,2) by (intro signed_take_bit_int_eq_self) simp_all
  then show ?thesis unfolding sectors_left_def eq by (subst signed_of_int) simp
qed

lemma sector_address:
  assumes "0 \<le> n" and "n < 4096"
  shows "(word_of_int n * FLASH_SECTOR_SIZE :: u32) < 2 ^ 24"
    and "uint (word_of_int n * FLASH_SECTOR_SIZE :: u32) = 4096 * n"
proof -
  have "uint (word_of_int n * FLASH_SECTOR_SIZE :: u32) = n * 4096 mod 2 ^ 32"
    by (simp add: FLASH_SECTOR_SIZE_def uint_word_ariths unsigned_of_int take_bit_eq_mod mod_mult_left_eq)
  also have "\<dots> = 4096 * n" using assms by simp
  finally show *: "uint (word_of_int n * FLASH_SECTOR_SIZE :: u32) = 4096 * n" .
  show "(word_of_int n * FLASH_SECTOR_SIZE :: u32) < 2 ^ 24"
    using assms by (simp add: word_less_def *)
qed

lemma erase_sector_trace:
  assumes "spi_trace E tr"
  shows "run_state (erase_sector E n) (s, w) = (ok, (s', w')) \<Longrightarrow>
    tr w' = tr w @ [[6], [5, 0]] @ (if ok then [0x20 # addr_bytes (word_of_int n * FLASH_SECTOR_SIZE)] else [])"
proof -
  assume run: "run_state (erase_sector E n) (s, w) = (ok, (s', w'))"
  let ?e = "run_state (enable_writing E) (s, w)"
  have e: "tr (snd (snd ?e)) = tr w @ [[6], [5, 0]]" using enable_writing_trace [OF assms, of "(s, w)"] by simp
  show ?thesis
    using run e frame_trace [OF assms, of "0x20 # addr_bytes (word_of_int n * FLASH_SECTOR_SIZE)" "snd ?e"]
    by (auto simp: erase_sector_def case_prod_beta split: if_splits)
qed

text \<open>Erasing goes through the sectors in order, one at a time. A turn either finds the chip busy and only polls;
  or moves to the next sector and sends exactly one erase command, whose address is that sector's first byte;
  or cannot enable writing and reports an error; or, after the last sector's erasure is over, reports that nothing
  remains. The returned number is the number of sectors left.\<close>

theorem erasing_step_in_order:
  assumes tr: "spi_trace E tr" and cur: "-1 \<le> current_sector s" "current_sector s < uint (total_sectors_to_erase s)"
    and total: "total_sectors_to_erase s \<le> 4096" and run: "erasing_step E (s, w) = Some (r, (s', w'))"
  shows "\<exists>k b2 b1 b0. let n = current_sector s + 1; left = uint (total_sectors_to_erase s) - n; polls = replicate k [5, 0]
    in (s' = s \<and> r = left + 1 \<and> tr w' = tr w @ polls) \<or>
       (s' = s\<lparr>current_sector := n\<rparr> \<and> 0 < left \<and> r = left \<and>
          tr w' = tr w @ polls @ [[6], [5, 0], [0x20, b2, b1, b0]] \<and>
          int (65536 * unat b2 + 256 * unat b1 + unat b0) = 4096 * n) \<or>
       (s' = s\<lparr>current_sector := n, error_code := WRITE_TO_FLASH_ERROR\<rparr> \<and> 0 < left \<and> r = -1 \<and>
          tr w' = tr w @ polls @ [[6], [5, 0]]) \<or>
       (s' = s\<lparr>current_sector := n\<rparr> \<and> left = 0 \<and> r = 0 \<and> tr w' = tr w @ polls)"
proof -
  let ?n = "current_sector s + 1"
  let ?t = "uint (total_sectors_to_erase s)"
  let ?s2 = "s\<lparr>current_sector := ?n\<rparr>"
  have t: "?t \<le> 4096" using total by (simp add: word_le_def)
  obtain ready s1 w1 where wait: "wait_while_flash_busy E 1 (s, w) = Some (ready, (s1, w1))"
    using run by (auto simp: erasing_step_def bind_eq_Some_conv)
  have s1: "s1 = s" using wait_obj [OF wait] by simp
  obtain k where k: "tr w1 = tr w @ replicate k [5, 0]" using wait_trace [OF tr wait] by auto
  have left: "sectors_left s = ?t - current_sector s" "sectors_left ?s2 = ?t - ?n"
    using sectors_left_eq [of s] sectors_left_eq [of ?s2] cur total by simp_all
  have less: "(word_of_int ?n :: u32) < total_sectors_to_erase s \<longleftrightarrow> ?n < ?t"
  proof -
    have "uint (word_of_int m :: u32) = m" if "0 \<le> m" "m \<le> 4096" for m
      using that by (simp add: unsigned_of_int take_bit_int_eq_self)
    from this [of ?n] have "uint (word_of_int ?n :: u32) = ?n" using cur t by linarith
    then show ?thesis by (simp only: word_less_def)
  qed
  show ?thesis
  proof (cases ready)
    case False
    then have "s' = s \<and> r = ?t - ?n + 1 \<and> tr w' = tr w @ replicate k [5, 0]"
      using run wait k left(1) by (auto simp: erasing_step_def s1)
    then show ?thesis unfolding Let_def by blast
  next
    case ready: True
    show ?thesis
    proof (cases "?n < ?t")
      case False
      then have "s' = ?s2 \<and> ?t - ?n = 0 \<and> r = 0 \<and> tr w' = tr w @ replicate k [5, 0]"
        using run wait k left(2) less ready cur by (auto simp: erasing_step_def s1 Let_def)
      then show ?thesis unfolding Let_def by blast
    next
      case True
      obtain ok s3 w3 where e: "run_state (erase_sector E ?n) (?s2, w1) = (ok, (s3, w3))" by (metis prod.exhaust)
      have s3: "s3 = ?s2" using commands_obj(4) [of E ?n "(?s2, w1)"] e by simp
      obtain b2 b1 b0 where b: "addr_bytes (word_of_int ?n * FLASH_SECTOR_SIZE) = [b2, b1, b0]"
        "unat (word_of_int ?n * FLASH_SECTOR_SIZE :: u32) = 65536 * unat b2 + 256 * unat b1 + unat b0"
        using addr_bytes_value [OF sector_address(1) [of ?n]] cur True t by auto
      have addr: "int (65536 * unat b2 + 256 * unat b1 + unat b0) = 4096 * ?n"
        unfolding b(2) [symmetric] using sector_address(2) [of ?n] cur True t by simp
      note trace = erase_sector_trace [OF tr e]
      show ?thesis
      proof (cases ok)
        case True
        then have "s' = ?s2 \<and> 0 < ?t - ?n \<and> r = ?t - ?n \<and>
            tr w' = tr w @ replicate k [5, 0] @ [[6], [5, 0], [0x20, b2, b1, b0]]"
          using run wait k left(2) less ready \<open>?n < ?t\<close> e s3 trace b(1) by (auto simp: erasing_step_def s1 Let_def)
        then show ?thesis unfolding Let_def using addr by blast
      next
        case False
        then have "s' = s\<lparr>current_sector := ?n, error_code := WRITE_TO_FLASH_ERROR\<rparr> \<and> 0 < ?t - ?n \<and> r = -1 \<and>
            tr w' = tr w @ replicate k [5, 0] @ [[6], [5, 0]]"
          using run wait k less ready \<open>?n < ?t\<close> e s3 trace by (auto simp: erasing_step_def s1 Let_def)
        then show ?thesis unfolding Let_def by blast
      qed
    qed
  qed
qed

text \<open>A chip that is never busy and always lets itself be written; the world is the list of the selections.\<close>

definition ex_trace_env :: "u8 list list flash_env" where
  "ex_trace_env =
     \<lparr>spi_setup = (\<lambda>w. w), spi_enable = (\<lambda>w. w @ [[]]), spi_disable = (\<lambda>w. w),
      spi_byte = (\<lambda>b w. (2, butlast w @ [last w @ [b]])), spi_xfer = (\<lambda>bs w. (bs, w)), task_delay = (\<lambda>n w. w),
      sat_millis = (\<lambda>w. (0, w)), rst_pin_setup = (\<lambda>w. w), rst_pin_write = (\<lambda>b w. w), sat_callback = (\<lambda>s w. w),
      raw_version_resp = [0, 0, 0, 0, 0], http_get = (\<lambda>u w. (None, w)), http_content_length = (\<lambda>c w. 0),
      http_bytes_read = (\<lambda>c w. 0), http_read = (\<lambda>c n w. ((0, []), w)), http_end = (\<lambda>c w. w), feed_and_yield = (\<lambda>w. w),
      mf_callback = (\<lambda>m w. w), md5_hex = (\<lambda>bs. ''abc''), malloc_page = (\<lambda>w. (Some (replicate 256 0), w)),
      free_page = (\<lambda>w. w)\<rparr>"

lemma ex_spi_trace: "spi_trace ex_trace_env (\<lambda>w. w)"
  by (simp add: spi_trace_def ex_trace_env_def)

theorem erasing_step_in_order_witness:
  "\<exists>r s' w'. erasing_step ex_trace_env (ex_xf\<lparr>total_sectors_to_erase := 2\<rparr>, []) = Some (r, (s', w')) \<and>
     (current_sector s' = -1 \<or> current_sector s' = 0)"
proof -
  let ?s = "ex_xf\<lparr>total_sectors_to_erase := 2\<rparr>"
  have s: "-1 \<le> current_sector ?s" "current_sector ?s < uint (total_sectors_to_erase ?s)" "total_sectors_to_erase ?s \<le> 4096"
    "current_sector ?s = -1"
    by (simp_all add: ex_xf_def xflash_init_def mflash.defs mflash_init_def)
  have st: "run_state (read_flash_status ex_trace_env) (?s, []) = (2, (?s, [[5, 0]]))"
    by (simp add: read_flash_status_def enable_spi_def disable_spi_def transfer_byte_def ex_trace_env_def)
  have m: "sat_millis ex_trace_env w = (0, w)" for w by (simp add: ex_trace_env_def)
  have "busy_loop ex_trace_env 0 1 (?s, []) = Some (True, (?s, [[5, 0]]))"
    by (subst busy_loop.simps) (simp add: Let_def st m)
  then have "wait_while_flash_busy ex_trace_env 1 (?s, []) = Some (True, (?s, [[5, 0]]))"
    by (simp add: wait_while_flash_busy_def m)
  then have "erasing_step ex_trace_env (?s, []) \<noteq> None"
    by (simp add: erasing_step_def Let_def split: prod.splits)
  then obtain r s' w' where run: "erasing_step ex_trace_env (?s, []) = Some (r, (s', w'))" by auto
  from erasing_step_in_order [OF ex_spi_trace s(1-3) run] s(4)
  have "current_sector s' = -1 \<or> current_sector s' = 0" by (auto simp: Let_def)
  with run show ?thesis by blast
qed

section \<open>Pages\<close>

lemma read_back_run:
  assumes "a AND (FLASH_PAGE_SIZE - 1) = 0 \<or> length (the (compare_buffer s)) = 256"
  shows "\<exists>cb w'. run_state (read_back E a) (s, w) = ((), (s\<lparr>compare_buffer := Some cb\<rparr>, w')) \<and> length cb = 256"
proof -
  let ?r = "run_state (read_page E a (the (compare_buffer s))) (s, w)"
  have "length (snd (fst ?r)) = 256"
    using assms by (auto simp: read_page_def case_prod_beta FLASH_PAGE_SIZE_def)
  moreover have "run_state (read_back E a) (s, w) = ((), (s\<lparr>compare_buffer := Some (snd (fst ?r))\<rparr>, snd (snd ?r)))"
    by (simp add: read_back_def case_prod_beta)
  ultimately show ?thesis by blast
qed

text \<open>Programming a page changes the compare buffer (and the error code when it fails) and nothing else; it succeeds
  only if the page was read back.\<close>

lemma program_page_spec:
  assumes "program_page E a page (s, w) = Some (ok, (s', w'))" and "length (the (compare_buffer s)) = 256"
  shows "\<exists>cb e. s' = s\<lparr>compare_buffer := Some cb, error_code := e\<rparr> \<and> length cb = 256 \<and>
    (ok \<longrightarrow> cb = page \<and> e = error_code s) \<and> (\<not> ok \<longrightarrow> e = WRITE_TO_FLASH_ERROR)"
proof -
  obtain b1 w1 where 1: "write_page E a page (s, w) = Some (b1, (s, w1))"
    using assms(1) write_page_obj by (fastforce simp: program_page_def bind_eq_Some_conv)
  obtain cb w2 where 2: "run_state (read_back E a) (s, w1) = ((), (s\<lparr>compare_buffer := Some cb\<rparr>, w2))" "length cb = 256"
    using read_back_run [of a s E w1] assms(2) by blast
  let ?s = "s\<lparr>compare_buffer := Some cb\<rparr>"
  show ?thesis
  proof (cases "cb = page")
    case True
    then have "ok \<and> s' = ?s"
      using assms(1) 1 2 by (auto simp: program_page_def total_run_def)
    then show ?thesis using True 2(2) by (intro exI [of _ page] exI [of _ "error_code s"]) simp
  next
    case False
    obtain b3 w3 where 3: "write_page E a page (?s, w2) = Some (b3, (?s, w3))"
      using assms(1) 1 2 False write_page_obj
      by (fastforce simp: program_page_def total_run_def bind_eq_Some_conv)
    obtain cb' w4 where 4: "run_state (read_back E a) (?s, w3) = ((), (s\<lparr>compare_buffer := Some cb'\<rparr>, w4))"
      "length cb' = 256"
      using read_back_run [of a ?s E w3] 2(2) by auto
    show ?thesis
    proof (cases b3)
      case True
      then have "if cb' = page then ok \<and> s' = s\<lparr>compare_buffer := Some cb'\<rparr>
          else \<not> ok \<and> s' = s\<lparr>compare_buffer := Some cb', error_code := WRITE_TO_FLASH_ERROR\<rparr>"
        using assms(1) 1 2 3 4 \<open>cb \<noteq> page\<close> by (auto simp: program_page_def total_run_def split: if_splits)
      then show ?thesis
        using 4(2) by (intro exI [of _ cb'] exI [of _ "if cb' = page then error_code s else WRITE_TO_FLASH_ERROR"])
          (simp split: if_splits)
    next
      case False
      then have "\<not> ok \<and> s' = s\<lparr>compare_buffer := Some cb, error_code := WRITE_TO_FLASH_ERROR\<rparr>"
        using assms(1) 1 2 3 \<open>cb \<noteq> page\<close> by (auto simp: program_page_def total_run_def)
      then show ?thesis using 2(2) by blast
    qed
  qed
qed

lemma length_page_of:
  assumes "length buf = 256" and "length bs \<le> 256"
  shows "n \<le> 256 \<Longrightarrow> length (page_of n bs buf) = 256"
proof -
  assume "n \<le> 256"
  moreover have "length (write_at 0 bs buf) = 256" using assms by simp
  ultimately show ?thesis by (auto simp: page_of_def Let_def FLASH_PAGE_SIZE_def)
qed

text \<open>A turn of flashing that does not fail: the page is the block just read (padded), it has been programmed and read
  back, and if nothing remains the MD5 sum of everything received matches.\<close>

lemma flashing_step_ok:
  assumes run: "flashing_step E (s, w) = Some (r, (s', w'))" and r: "0 \<le> r"
    and buf: "fl_reader s = Some rd" "reader_buffer s = Some buf" "compare_buffer s = Some cbuf" "length cbuf = 256"
  shows "\<exists>n bs rd' w1 mc. let page = page_of n bs buf; left = bytes_remaining s - word_of_int n;
      md5_in = md5_receive s @ take (nat n) (write_at 0 bs buf)
    in read_image_block E rd FLASH_PAGE_SIZE w = Some (n, bs, rd', w1) \<and> 0 \<le> n \<and> (n = 256 \<or> left = 0) \<and>
      s' = s\<lparr>fl_reader := Some rd', md5_receive := md5_in, bytes_remaining := left, reader_buffer := Some page,
             compare_buffer := Some page, page_pos := page_pos s + 256, md5_computed := mc\<rparr> \<and>
      r = sint left \<and> (left = 0 \<longrightarrow> strncmp_eq MD5_SIZE (md5_hex E md5_in) (md5_expected s)) \<and>
      (\<exists>s3 s4. program_page E (word_of_int (page_pos s)) page (s3, w1) = Some (True, (s4, w')))"
proof -
  obtain n bs rd' w1 where rdb: "read_image_block E rd FLASH_PAGE_SIZE w = Some (n, bs, rd', w1)"
    using run buf by (auto simp: flashing_step_def bind_eq_Some_conv)
  let ?page = "page_of n bs buf"
  let ?left = "bytes_remaining s - word_of_int n"
  let ?in = "md5_receive s @ take (nat n) (write_at 0 bs buf)"
  let ?s3 = "s\<lparr>fl_reader := Some rd', md5_receive := ?in, bytes_remaining := ?left, reader_buffer := Some ?page\<rparr>"
  have n: "0 \<le> n" "n = uint FLASH_PAGE_SIZE \<or> ?left = 0"
    using run buf rdb r by (auto simp: flashing_step_def Let_def split: if_splits)
  then obtain ok s4 w4 where p: "program_page E (word_of_int (page_pos s)) ?page (?s3, w1) = Some (ok, (s4, w4))"
    using run buf rdb by (auto simp: flashing_step_def Let_def bind_eq_Some_conv)
  have ok: "ok" using run buf rdb n p r by (auto simp: flashing_step_def Let_def split: if_splits)
  have "s4 = ?s3\<lparr>compare_buffer := Some ?page\<rparr>"
    using program_page_spec [OF p] ok buf(3,4) by auto
  with run buf rdb n p ok have fin:
    "if ?left = 0
     then strncmp_eq MD5_SIZE (md5_hex E ?in) (md5_expected s) \<and> r = sint ?left \<and>
       s' = ?s3\<lparr>compare_buffer := Some ?page, page_pos := page_pos s + 256, md5_computed := md5_hex E ?in\<rparr>
     else r = sint ?left \<and>
       s' = ?s3\<lparr>compare_buffer := Some ?page, page_pos := page_pos s + 256\<rparr>"
    using r by (auto simp: flashing_step_def Let_def FLASH_PAGE_SIZE_def split: if_splits)
  have "w4 = w'"
    using run buf rdb n p ok r by (auto simp: flashing_step_def Let_def split: if_splits)
  then have pp: "\<exists>s3 s4. program_page E (word_of_int (page_pos s)) ?page (s3, w1) = Some (True, (s4, w'))"
    using p ok by (intro exI [of _ ?s3] exI [of _ s4]) simp
  show ?thesis
    unfolding Let_def
    apply (intro exI [of _ n] exI [of _ bs] exI [of _ rd'] exI [of _ w1]
        exI [of _ "if ?left = 0 then md5_hex E ?in else md5_computed s"] conjI)
    using rdb n fin pp by (simp_all add: FLASH_PAGE_SIZE_def split: if_splits)
qed

end
