(* ===== verification/Xmos_Flash_Image.thy ===== *)
theory Xmos_Flash_Image
  imports Xmos_Flasher_Correct
begin

text \<open>
  Whole runs of the XMOS flasher on the image embedded in the firmware: the main loop is run turn by turn
  (\<open>loop_turns\<close>) from \<open>flash_embedded_image\<close>. A run that reports success has checked the MD5 sum of the whole image
  and has put the image into the flash; no turn of such a run gets stuck; and the two ways in which a run can go wrong
  are shown as the code has them.

  Named hypotheses about code and hardware outside the repository: \<open>malloc_law\<close> (an allocated page has 256 bytes),
  \<open>nor_flash\<close> (the serial flash chip), and \<open>clock_law\<close> of the previous theory.
\<close>

section \<open>Flashing the embedded image\<close>

text \<open>\<open>malloc\<close> gives a page or nothing.\<close>

definition malloc_law :: "'w flash_env \<Rightarrow> bool" where
  "malloc_law E \<longleftrightarrow> (\<forall>w b. fst (malloc_page E w) = Some b \<longrightarrow> length b = 256)"

text \<open>While an image is being flashed: the reader stands at a position of the image, everything before it has gone into the
  MD5 sum, everything after it remains, and both buffers are there.\<close>

definition emb_inv :: "flash_image \<Rightarrow> string \<Rightarrow> xflash \<Rightarrow> bool" where
  "emb_inv img m s \<longleftrightarrow>
     (\<exists>pos. fl_reader s = Some (EmbeddedImageReader img pos) \<and> embedded_ok (img, pos) \<and>
        md5_receive s = take (unat pos) (fi_data img) \<and> bytes_remaining s = fi_length img - pos) \<and>
     (\<exists>b. reader_buffer s = Some b \<and> length b = 256) \<and> (\<exists>b. compare_buffer s = Some b \<and> length b = 256) \<and>
     md5_expected s = m \<and> requested_action s = ACTION_FLASH_EMBEDDED_IMAGE"

lemma emb_inv_upd [simp]:
  "emb_inv img m (s\<lparr>current_sector := c\<rparr>) = emb_inv img m s"
  "emb_inv img m (s\<lparr>error_code := e\<rparr>) = emb_inv img m s"
  "emb_inv img m (s\<lparr>flashing_progress := p\<rparr>) = emb_inv img m s"
  "emb_inv img m (s\<lparr>last_published := t\<rparr>) = emb_inv img m s"
  "emb_inv img m (s\<lparr>fl_state := st\<rparr>) = emb_inv img m s"
  by (simp_all add: emb_inv_def)

text \<open>One turn of flashing the embedded image that does not fail: the next block of the image has been programmed and
  verified at \<open>page_pos_\<close>.\<close>

lemma emb_flashing:
  assumes run: "flashing_step E (s, w) = Some (r, (s', w'))" and r: "0 \<le> r"
    and pos: "fl_reader s = Some (EmbeddedImageReader img pos)" "embedded_ok (img, pos)"
      "md5_receive s = take (unat pos) (fi_data img)" "bytes_remaining s = fi_length img - pos"
    and buf: "reader_buffer s = Some buf" "length buf = 256" "compare_buffer s = Some cbuf" "length cbuf = 256"
  shows "\<exists>pos' mc s3 s4. let bs = take 256 (drop (unat pos) (fi_data img)); page = page_of (int (length bs)) bs buf
    in unat pos' = unat pos + length bs \<and> embedded_ok (img, pos') \<and>
      s' = s\<lparr>fl_reader := Some (EmbeddedImageReader img pos'), md5_receive := take (unat pos') (fi_data img),
        bytes_remaining := fi_length img - pos', reader_buffer := Some page, compare_buffer := Some page,
        page_pos := page_pos s + 256, md5_computed := mc\<rparr> \<and>
      r = sint (fi_length img - pos') \<and> (length bs = 256 \<or> fi_length img = pos') \<and> length page = 256 \<and>
      (fi_length img = pos' \<longrightarrow> strncmp_eq MD5_SIZE (md5_hex E (fi_data img)) (md5_expected s)) \<and>
      program_page E (word_of_int (page_pos s)) page (s3, w) = Some (True, (s4, w'))"
proof -
  let ?bs = "take 256 (drop (unat pos) (fi_data img))"
  obtain n pos' where rd: "embedded_read img pos 256 = (n, ?bs, pos')"
    using embedded_read_spec(1) [OF pos(2)] by (cases "embedded_read img pos 256") (auto simp: embedded_rest_def)
  note spec = embedded_read_spec [OF pos(2), unfolded rd, simplified]
  have len: "length (fi_data img) = unat (fi_length img)" using pos(2) by (simp add: embedded_ok_def)
  have sn: "sint n = int (length ?bs)"
    using spec(3) by (simp add: signed_of_nat signed_take_bit_int_eq_self min_def)
  have p': "pos' = pos + n" using rd by (auto simp: embedded_read_def Let_def)
  have full: "take (length ?bs) (write_at 0 ?bs buf) = ?bs"
    unfolding write_at_def by (cases "length (fi_data img) - unat pos \<le> 256") simp_all
  have up: "unat pos' = unat pos + length ?bs" using spec(2) by simp
  have "take (length (take 256 xs)) xs = take 256 xs" for xs :: "u8 list" by (simp add: min_def)
  then have md5: "take (unat pos) (fi_data img) @ ?bs = take (unat pos') (fi_data img)"
    unfolding up take_add by (rule arg_cong [symmetric])
  have left: "bytes_remaining s - word_of_int (sint n) = fi_length img - pos'"
    using pos(4) by (simp add: p')
  obtain n' bs' rd' w1 mc s3 s4 where
    f1: "read_image_block E (EmbeddedImageReader img pos) FLASH_PAGE_SIZE w = Some (n', bs', rd', w1)"
      "n' = 256 \<or> bytes_remaining s - word_of_int n' = 0"
    and f2: "s' = s\<lparr>fl_reader := Some rd', md5_receive := md5_receive s @ take (nat n') (write_at 0 bs' buf),
      bytes_remaining := bytes_remaining s - word_of_int n', reader_buffer := Some (page_of n' bs' buf),
      compare_buffer := Some (page_of n' bs' buf), page_pos := page_pos s + 256, md5_computed := mc\<rparr>"
    and f3: "r = sint (bytes_remaining s - word_of_int n')"
      "bytes_remaining s - word_of_int n' = 0 \<longrightarrow>
       strncmp_eq MD5_SIZE (md5_hex E (md5_receive s @ take (nat n') (write_at 0 bs' buf))) (md5_expected s)"
      "program_page E (word_of_int (page_pos s)) (page_of n' bs' buf) (s3, w1) = Some (True, (s4, w'))"
    using flashing_step_ok [OF run r pos(1) buf(1,3,4)] unfolding Let_def by blast
  have eqs: "n' = sint n" "bs' = ?bs" "rd' = EmbeddedImageReader img pos'" "nat (int (length ?bs)) = length ?bs" "w1 = w"
    using f1 rd by (auto simp: read_image_block_def FLASH_PAGE_SIZE_def)
  note f = f1(2) f2 f3
  note f' = f [unfolded eqs(1-3,5), unfolded left, unfolded sn, unfolded eqs(4) full pos(3) md5]
  have "length (page_of (int (length ?bs)) ?bs buf) = 256"
    using buf(2) by (intro length_page_of) simp_all
  moreover have "fi_length img = pos' \<longrightarrow> take (unat pos') (fi_data img) = fi_data img" using len by simp
  ultimately show ?thesis
    unfolding Let_def using up spec(5) f'
    by (intro exI [of _ pos'] exI [of _ mc] exI [of _ s3] exI [of _ s4]) (auto simp del: length_take)
qed

lemma emb_inv_flashing:
  assumes inv: "emb_inv img m s" and run: "flashing_step E (s, w) = Some (r, (s', w'))" and r: "0 \<le> r"
  shows "emb_inv img m s' \<and> fl_state s' = fl_state s \<and> (r = 0 \<longrightarrow> strncmp_eq MD5_SIZE (md5_hex E (fi_data img)) m)"
proof -
  obtain pos buf cbuf where *: "fl_reader s = Some (EmbeddedImageReader img pos)" "embedded_ok (img, pos)"
      "md5_receive s = take (unat pos) (fi_data img)" "bytes_remaining s = fi_length img - pos"
      "reader_buffer s = Some buf" "length buf = 256" "compare_buffer s = Some cbuf" "length cbuf = 256"
    and m: "md5_expected s = m" "requested_action s = ACTION_FLASH_EMBEDDED_IMAGE"
    using inv by (auto simp: emb_inv_def)
  obtain pos' mc page where s': "embedded_ok (img, pos')"
      "s' = s\<lparr>fl_reader := Some (EmbeddedImageReader img pos'), md5_receive := take (unat pos') (fi_data img),
        bytes_remaining := fi_length img - pos', reader_buffer := Some page, compare_buffer := Some page,
        page_pos := page_pos s + 256, md5_computed := mc\<rparr>"
      "r = sint (fi_length img - pos')" "length page = 256"
      "fi_length img = pos' \<longrightarrow> strncmp_eq MD5_SIZE (md5_hex E (fi_data img)) (md5_expected s)"
    using emb_flashing [OF run r *] unfolding Let_def by blast
  have "r = 0 \<longrightarrow> fi_length img = pos'" using s'(3) by (simp add: signed_eq_0_iff)
  then show ?thesis using s' m by (simp add: emb_inv_def)
qed

lemma erasing_step_obj:
  assumes "erasing_step E (s, w) = Some (r, (s', w'))"
  shows "\<exists>c e. s' = s\<lparr>current_sector := c, error_code := e\<rparr>"
proof -
  obtain ready w1 where wait: "wait_while_flash_busy E 1 (s, w) = Some (ready, (s, w1))"
    using assms wait_obj [of E 1 "(s, w)"] by (fastforce simp: erasing_step_def bind_eq_Some_conv)
  let ?s2 = "s\<lparr>current_sector := current_sector s + 1\<rparr>"
  obtain ok w3 where e: "run_state (erase_sector E (current_sector ?s2)) (?s2, w1) = (ok, (?s2, w3))"
    using commands_obj(4) [of E "current_sector ?s2" "(?s2, w1)"] by (metis fst_conv prod.collapse)
  have "s' = s \<or> s' = ?s2 \<or> s' = ?s2\<lparr>error_code := WRITE_TO_FLASH_ERROR\<rparr>"
    using assms wait e by (auto simp: erasing_step_def Let_def split: if_splits)
  moreover have "s = s\<lparr>current_sector := current_sector s, error_code := error_code s\<rparr>"
    "?s2 = s\<lparr>current_sector := current_sector s + 1, error_code := error_code s\<rparr>" by simp_all
  ultimately show ?thesis by metis
qed

lemma publish_progress_obj:
  assumes "publish_progress E (s, w) = Some (u, (s', w'))"
  shows "\<exists>p t. s' = s\<lparr>flashing_progress := p, last_published := t\<rparr>"
proof (cases "fst (sat_millis E w) - last_published s > 1000")
  case True
  then have "\<exists>p. s' = s\<lparr>flashing_progress := p, last_published := fst (sat_millis E w)\<rparr>"
    using assms
    by (simp add: publish_progress_def total_run_def mf_publish_def Let_def split: if_splits; blast)
  then show ?thesis by blast
next
  case False
  then have "s' = s" using assms by (simp add: publish_progress_def)
  then show ?thesis by (intro exI [of _ "flashing_progress s"] exI [of _ "last_published s"]) simp
qed

text \<open>What the flasher's own state asks for while the embedded image \<open>img\<close> is being flashed with expected sum \<open>m\<close>.\<close>

definition emb_run :: "'w flash_env \<Rightarrow> flash_image \<Rightarrow> string \<Rightarrow> xflash \<Rightarrow> bool" where
  "emb_run E img m s \<longleftrightarrow>
     (case fl_state s of
        FLASHER_INITIALIZING \<Rightarrow> requested_action s = ACTION_FLASH_EMBEDDED_IMAGE \<and> embedded_image s = img \<and> md5_expected s = m
      | FLASHER_ERASING \<Rightarrow> emb_inv img m s
      | FLASHER_FLASHING \<Rightarrow> emb_inv img m s
      | FLASHER_SUCCESS_STATE \<Rightarrow> strncmp_eq MD5_SIZE (md5_hex E (fi_data img)) m
      | _ \<Rightarrow> True)"

lemma emb_inv_init:
  assumes "malloc_law E" and "length (fi_data img) = unat (fi_length img)"
    and "requested_action s = ACTION_FLASH_EMBEDDED_IMAGE" "embedded_image s = img" "md5_expected s = m"
    and "run_state (init_flashing E) (s, w) = (True, (s', w'))"
  shows "emb_inv img m s'"
proof -
  let ?i = "snd (run_state (init_flasher E) (s, w))"
  have i: "requested_action (fst ?i) = requested_action s" "embedded_image (fst ?i) = embedded_image s"
    "md5_expected (fst ?i) = md5_expected s" "fst (run_state (init_flasher E) (s, w))"
    by (simp_all add: init_flasher_def on_parent_def read_jedec_id_def case_prod_beta)
  have len: "\<And>w b. fst (malloc_page E w) = Some b \<Longrightarrow> length b = 256" using assms(1) by (simp add: malloc_law_def)
  have "embedded_ok (img, 0)" using assms(2) by (simp add: embedded_ok_def)
  then show ?thesis
    using assms(3-6) i len
    by (auto simp: init_flashing_def case_prod_beta emb_inv_def init_reader_def get_image_size_def split: if_splits)
qed
lemma flasher_loop_erasing:
  assumes "flasher_loop E (s, w) = Some (u, (s', w'))" and "fl_state s = FLASHER_ERASING"
    and "requested_action s \<noteq> ACTION_FULL_ERASE"
  shows "\<exists>c e p t st. s' = s\<lparr>current_sector := c, error_code := e, flashing_progress := p, last_published := t, fl_state := st\<rparr> \<and>
    st \<in> {FLASHER_ERASING, FLASHER_FLASHING, FLASHER_ERROR_STATE}"
proof -
  obtain r s1 w1 s2 w2 where er: "erasing_step E (s, w) = Some (r, (s1, w1))"
    and pp: "publish_progress E (s1, w1) = Some ((), (s2, w2))"
    using assms(1,2) by (auto simp: flasher_loop_def bind_eq_Some_conv)
  obtain c e p t where s2: "s2 = s\<lparr>current_sector := c, error_code := e, flashing_progress := p, last_published := t\<rparr>"
    using erasing_step_obj [OF er] publish_progress_obj [OF pp] by auto
  have "\<exists>st. s' = s2\<lparr>fl_state := st\<rparr> \<and> st \<in> {FLASHER_ERASING, FLASHER_FLASHING, FLASHER_ERROR_STATE}"
  proof (cases "0 < r")
    case True
    then have "s' = s2" using assms er pp by (simp add: flasher_loop_def s2)
    then show ?thesis using assms(2) by (intro exI [of _ FLASHER_ERASING]) (simp add: s2)
  next
    case False
    then have "s' = s2\<lparr>fl_state := if r = 0 then FLASHER_FLASHING else FLASHER_ERROR_STATE\<rparr>"
      using assms er pp by (auto simp: flasher_loop_def s2 set_fl_state_def)
    then show ?thesis by auto
  qed
  with s2 show ?thesis by blast
qed

lemma emb_run_loop:
  assumes env: "malloc_law E" "length (fi_data img) = unat (fi_length img)"
    and inv: "emb_run E img m s" and run: "flasher_loop E (s, w) = Some (u, (s', w'))"
  shows "emb_run E img m s'"
proof (cases "fl_state s")
  case FLASHER_INITIALIZING
  then have pre: "requested_action s = ACTION_FLASH_EMBEDDED_IMAGE" "embedded_image s = img" "md5_expected s = m"
    using inv by (simp_all add: emb_run_def)
  obtain ok s1 w1 where i: "run_state (init_flashing E) (s, w) = (ok, (s1, w1))" by (metis prod.exhaust)
  show ?thesis
  proof (cases ok)
    case True
    then have "emb_inv img m s1" using emb_inv_init [OF env pre, of w s1 w1] i by simp
    moreover have "s' = s1\<lparr>fl_state := FLASHER_ERASING\<rparr>"
      using run FLASHER_INITIALIZING i True by (auto simp: flasher_loop_def set_fl_state_def)
    ultimately show ?thesis by (simp add: emb_run_def)
  next
    case False
    then have "fl_state s' = FLASHER_ERROR_STATE"
      using run FLASHER_INITIALIZING i by (auto simp: flasher_loop_def set_fl_state_def total_run_def case_prod_beta)
    then show ?thesis by (simp add: emb_run_def)
  qed
next
  case FLASHER_ERASING
  then have pre: "emb_inv img m s" "requested_action s \<noteq> ACTION_FULL_ERASE"
    using inv by (simp_all add: emb_run_def emb_inv_def)
  show ?thesis
    using flasher_loop_erasing [OF run FLASHER_ERASING pre(2)] pre(1) by (auto simp: emb_run_def)
next
  case FLASHER_FLASHING
  then have pre: "emb_inv img m s" using inv by (simp add: emb_run_def)
  obtain r s1 w1 s2 w2 where fl: "flashing_step E (s, w) = Some (r, (s1, w1))"
    and pp: "publish_progress E (s1, w1) = Some ((), (s2, w2))"
    using run FLASHER_FLASHING by (auto simp: flasher_loop_def bind_eq_Some_conv)
  consider "r < 0" | "r = 0" | "0 < r" by linarith
  then show ?thesis
  proof cases
    case 1
    then have "fl_state s' = FLASHER_ERROR_STATE"
      using run FLASHER_FLASHING fl pp by (auto simp: flasher_loop_def set_fl_state_def total_run_def case_prod_beta)
    then show ?thesis by (simp add: emb_run_def)
  next
    case 2
    then have "fl_state s' = FLASHER_SUCCESS_STATE"
      using run FLASHER_FLASHING fl pp by (auto simp: flasher_loop_def set_fl_state_def total_run_def case_prod_beta)
    then show ?thesis using emb_inv_flashing [OF pre fl] 2 by (simp add: emb_run_def)
  next
    case 3
    then have s': "s' = s2" using run FLASHER_FLASHING fl pp by (auto simp: flasher_loop_def)
    have "emb_inv img m s2" "fl_state s2 = FLASHER_FLASHING"
      using emb_inv_flashing [OF pre fl] 3 publish_progress_obj [OF pp] FLASHER_FLASHING by auto
    then show ?thesis by (simp add: emb_run_def s')
  qed
next
  case FLASHER_IDLE
  then show ?thesis using run by (auto simp: flasher_loop_def emb_run_def)
next
  case FLASHER_RECEIVING_IMG_INFO
  then show ?thesis using run by (auto simp: flasher_loop_def emb_run_def)
next
  case FLASHER_SUCCESS_STATE
  then show ?thesis using run by (auto simp: flasher_loop_def emb_run_def set_fl_state_def total_run_def case_prod_beta)
next
  case FLASHER_ERROR_STATE
  then show ?thesis using run by (auto simp: flasher_loop_def emb_run_def set_fl_state_def total_run_def case_prod_beta)
qed

text \<open>Turns of the main loop.\<close>

fun loop_turns :: "'w flash_env \<Rightarrow> nat \<Rightarrow> xflash \<times> 'w \<Rightarrow> (xflash \<times> 'w) option" where
  "loop_turns E 0 sw = Some sw"
| "loop_turns E (Suc n) sw = do { (_, sw1) \<leftarrow> flasher_loop E sw; loop_turns E n sw1 }"

lemma emb_run_turns:
  assumes "malloc_law E" "length (fi_data img) = unat (fi_length img)"
  shows "emb_run E img m (fst sw) \<Longrightarrow> loop_turns E n sw = Some sw' \<Longrightarrow> emb_run E img m (fst sw')"
proof (induction n arbitrary: sw)
  case (Suc n)
  obtain sw1 where 1: "flasher_loop E sw = Some ((), sw1)" "loop_turns E n sw1 = Some sw'"
    using Suc.prems(2) by (auto simp: bind_eq_Some_conv)
  have "emb_run E img m (fst sw1)"
    using emb_run_loop [OF assms, of m "fst sw" "snd sw" "()" "fst sw1" "snd sw1"] Suc.prems(1) 1(1) by simp
  then show ?case using Suc.IH 1(2) by blast
qed simp

text \<open>Flashing the embedded image succeeds only with the right MD5 sum. Start \<open>flash_embedded_image\<close> on an idle flasher
  and let the main loop run for any number of turns; if the flasher is then in the success state, the MD5 sum of the whole
  embedded image agrees with the sum the image was configured with.\<close>

theorem embedded_flash_success_md5:
  assumes "malloc_law E" and "length (fi_data img) = unat (fi_length img)" and "fl_state s = FLASHER_IDLE"
    and "embedded_image s = img" and "loop_turns E n (snd (run_state flash_embedded_image (s, w))) = Some (s', w')"
    and "fl_state s' = FLASHER_SUCCESS_STATE"
  shows "strncmp_eq MD5_SIZE (md5_hex E (fi_data img)) (fi_md5 img)"
proof -
  have "emb_run E img (fi_md5 img) (fst (snd (run_state flash_embedded_image (s, w))))"
    using assms(3,4) by (simp add: flash_embedded_image_def emb_run_def)
  from emb_run_turns [OF assms(1,2) this assms(5)] show ?thesis
    using assms(6) by (simp add: emb_run_def)
qed

section \<open>The flash memory\<close>

text \<open>The serial flash chip as its data sheet describes it: \<open>cur\<close> is what was sent since the chip was selected and \<open>mem\<close>
  its contents. A fast read (\<open>0x0B\<close>, three address bytes, a dummy byte) answers the contents byte by byte; a page
  program (\<open>0x02\<close>) changes at most the page of its address, when the chip is deselected; reading the status
  (\<open>0x05\<close>), enabling and disabling writing (\<open>0x06\<close>, \<open>0x04\<close>) change no contents. Nothing but SPI traffic changes them.\<close>

definition frame_addr :: "u8 list \<Rightarrow> nat" where
  "frame_addr f = 65536 * unat (f ! 1) + 256 * unat (f ! 2) + unat (f ! 3)"

definition frame_keeps :: "u8 list \<Rightarrow> nat \<Rightarrow> bool" where
  "frame_keeps f i \<longleftrightarrow> f \<noteq> [] \<and>
     (hd f \<in> {0x04, 0x05, 0x06, 0x0B} \<or> (hd f = 0x02 \<and> 4 \<le> length f \<and> i div 256 \<noteq> frame_addr f div 256))"

definition nor_flash :: "'w flash_env \<Rightarrow> ('w \<Rightarrow> u8 list) \<Rightarrow> ('w \<Rightarrow> nat \<Rightarrow> u8) \<Rightarrow> bool" where
  "nor_flash E cur mem \<longleftrightarrow>
     (\<forall>w. cur (spi_enable E w) = [] \<and> mem (spi_enable E w) = mem w) \<and>
     (\<forall>b w. cur (snd (spi_byte E b w)) = cur w @ [b] \<and> mem (snd (spi_byte E b w)) = mem w) \<and>
     (\<forall>b w. 5 \<le> length (cur w) \<and> hd (cur w) = 0x0B \<longrightarrow>
        fst (spi_byte E b w) = mem w (frame_addr (cur w) + (length (cur w) - 5))) \<and>
     (\<forall>w i. frame_keeps (cur w) i \<longrightarrow> mem (spi_disable E w) i = mem w i) \<and>
     (\<forall>w n b c. mem (snd (sat_millis E w)) = mem w \<and> mem (task_delay E n w) = mem w \<and> mem (free_page E w) = mem w \<and>
        mem (rst_pin_write E b w) = mem w \<and> mem (mf_callback E c w) = mem w) \<and>
     (\<forall>w s. mem (sat_callback E s w) = mem w)"

lemma nor_send:
  assumes "nor_flash E cur mem"
  shows "cur (snd (snd (run_state (send_bytes E bs) sw))) = cur (snd sw) @ bs \<and>
    mem (snd (snd (run_state (send_bytes E bs) sw))) = mem (snd sw)"
  using assms by (induction bs arbitrary: sw) (simp_all add: case_prod_beta transfer_byte_def nor_flash_def)

lemma nor_recv:
  assumes law: "nor_flash E cur mem"
  shows "length (cur (snd sw)) = 5 + k \<Longrightarrow> hd (cur (snd sw)) = 0x0B \<Longrightarrow>
    run_state (recv_bytes E n) sw = (bs, sw') \<Longrightarrow>
    mem (snd sw') = mem (snd sw) \<and> cur (snd sw') = cur (snd sw) @ replicate n 0 \<and>
    bs = map (\<lambda>i. mem (snd sw) (frame_addr (cur (snd sw)) + (k + i))) [0..<n]"
proof (induction n arbitrary: sw bs sw' k)
  case (Suc n)
  let ?w = "snd sw"
  let ?sw1 = "(fst sw, snd (spi_byte E 0 ?w))"
  obtain cs where rec: "run_state (recv_bytes E n) ?sw1 = (cs, sw')" and bs: "bs = fst (spi_byte E 0 ?w) # cs"
    using Suc.prems(3) by (auto simp: transfer_byte_def case_prod_beta prod_eq_iff)
  have step: "cur (snd ?sw1) = cur ?w @ [0]" "mem (snd ?sw1) = mem ?w"
    "fst (spi_byte E 0 ?w) = mem ?w (frame_addr (cur ?w) + k)"
    using law Suc.prems(1,2) by (simp_all add: nor_flash_def)
  have addr: "frame_addr (cur ?w @ [0]) = frame_addr (cur ?w)"
    using Suc.prems(1) by (simp add: frame_addr_def nth_append)
  have hd: "hd (cur ?w @ [0]) = 0x0B" using Suc.prems(1,2) by (cases "cur ?w") simp_all
  note IH = Suc.IH [OF _ _ rec, unfolded step addr, of "Suc k"]
  have "[0..<Suc n] = 0 # map Suc [0..<n]" by (simp add: map_Suc_upt upt_conv_Cons del: upt_Suc)
  then show ?case
    using IH Suc.prems(1) hd by (simp add: bs step(3) comp_def del: upt_Suc)
qed simp

lemma nor_frame:
  assumes "nor_flash E cur mem" and "frame_keeps bs i"
  shows "mem (snd (snd (run_state (do { enable_spi E; send_bytes E bs; disable_spi E }) sw))) i = mem (snd sw) i"
  using assms nor_send [OF assms(1), of bs "(fst sw, spi_enable E (snd sw))"]
  by (simp add: enable_spi_def disable_spi_def nor_flash_def case_prod_beta)

lemma nor_status:
  assumes "nor_flash E cur mem"
  shows "mem (snd (snd (run_state (read_flash_status E) sw))) = mem (snd sw)"
proof
  fix i
  show "mem (snd (snd (run_state (read_flash_status E) sw))) i = mem (snd sw) i"
    using nor_frame [OF assms, of "[5, 0]" i sw]
    by (simp add: frame_keeps_def read_flash_status_def case_prod_beta)
qed

lemma nor_enable_writing:
  assumes "nor_flash E cur mem"
  shows "mem (snd (snd (run_state (enable_writing E) sw))) = mem (snd sw)"
proof
  fix i
  let ?sw = "snd (run_state (do { enable_spi E; send_bytes E [6]; disable_spi E }) sw)"
  have "run_state (enable_writing E) sw = (let st = run_state (read_flash_status E) ?sw in (fst st AND 2 \<noteq> 0, snd st))"
    by (simp add: enable_writing_def case_prod_beta Let_def)
  then show "mem (snd (snd (run_state (enable_writing E) sw))) i = mem (snd sw) i"
    using nor_status [OF assms, of ?sw] nor_frame [OF assms, of "[6]" i sw] by (simp add: Let_def frame_keeps_def)
qed

lemma nor_disable_writing:
  assumes "nor_flash E cur mem"
  shows "mem (snd (snd (run_state (disable_writing E) sw))) = mem (snd sw)"
proof
  fix i
  show "mem (snd (snd (run_state (disable_writing E) sw))) i = mem (snd sw) i"
    using nor_frame [OF assms, of "[4]" i sw] by (simp add: frame_keeps_def disable_writing_def case_prod_beta)
qed

lemma nor_wait:
  assumes "nor_flash E cur mem" and "wait_while_flash_busy E T sw = Some (b, sw')"
  shows "mem (snd sw') = mem (snd sw)"
proof -
  have m: "mem (snd (sat_millis E w)) = mem w" for w using assms(1) by (simp add: nor_flash_def)
  have run: "busy_loop E (fst (sat_millis E (snd sw))) T (fst sw, snd (sat_millis E (snd sw))) = Some (b, sw')"
    using assms(2) by (simp add: wait_while_flash_busy_def)
  show ?thesis
    by (rule busy_loop_inv [OF run, where I = "\<lambda>x. mem (snd x) = mem (snd sw)"]) (simp_all add: m nor_status [OF assms(1)])
qed

text \<open>Writing a page changes at most that page; reading one answers its contents.\<close>

lemma frame_addr_page:
  assumes "a < 2 ^ 24"
  shows "frame_addr (c # addr_bytes a @ bs) = unat a" and "length (addr_bytes a) = 3"
  using addr_bytes_value [OF assms] by (auto simp: frame_addr_def)

lemma nor_write_page:
  assumes law: "nor_flash E cur mem" and a: "a < 2 ^ 24" and run: "write_page E a buf sw = Some (b, sw')"
    and i: "i div 256 \<noteq> unat a div 256"
  shows "mem (snd sw') i = mem (snd sw) i"
proof -
  let ?e = "run_state (enable_writing E) sw"
  let ?sw2 = "snd (run_state (do { enable_spi E; send_bytes E (0x02 # addr_bytes a @ buf); disable_spi E }) (snd ?e))"
  have e: "mem (snd (snd ?e)) = mem (snd sw)" by (rule nor_enable_writing [OF law])
  have "frame_keeps (0x02 # addr_bytes a @ buf) i" using i frame_addr_page [OF a] by (simp add: frame_keeps_def)
  from nor_frame [OF law this, of "snd ?e"] have p: "mem (snd ?sw2) i = mem (snd sw) i" by (simp add: e)
  from run consider "sw' = sw" | "sw' = snd ?e"
    | r sw3 where "wait_while_flash_busy E 15 ?sw2 = Some (r, sw3)" "sw' = sw3 \<or> sw' = snd (run_state (disable_writing E) sw3)"
    by (auto simp: write_page_def total_run_def bind_eq_Some_conv case_prod_beta split: if_splits)
  then show ?thesis
  proof cases
    case 3
    then show ?thesis using nor_wait [OF law 3(1)] nor_disable_writing [OF law, of sw3] p by auto
  qed (simp_all add: e)
qed

lemma nor_read_page:
  assumes law: "nor_flash E cur mem" and a: "a < 2 ^ 24" "a AND (FLASH_PAGE_SIZE - 1) = 0"
    and run: "run_state (read_page E a buf) sw = ((ok, bs), sw')"
  shows "mem (snd sw') = mem (snd sw) \<and> bs = map (mem (snd sw)) [unat a..<unat a + 256]"
proof -
  let ?f = "0x0B # addr_bytes a @ [0]"
  let ?w1 = "spi_enable E (snd sw)"
  let ?sw2 = "snd (run_state (send_bytes E ?f) (fst sw, ?w1))"
  have w1: "cur ?w1 = []" "mem ?w1 = mem (snd sw)" using law by (simp_all add: nor_flash_def)
  have sw2: "cur (snd ?sw2) = ?f" "mem (snd ?sw2) = mem (snd sw)"
    using nor_send [OF law, of ?f "(fst sw, ?w1)"] w1 by simp_all
  obtain cs sw3 where rec: "run_state (recv_bytes E 256) ?sw2 = (cs, sw3)" by (metis prod.exhaust)
  have len: "length ?f = 5" using frame_addr_page(2) [OF a(1)] by simp
  have r: "mem (snd sw3) = mem (snd sw)" "cur (snd sw3) = ?f @ replicate 256 0"
    "cs = map (\<lambda>i. mem (snd sw) (unat a + i)) [0..<256]"
    using nor_recv [OF law _ _ rec, of 0, unfolded sw2] len frame_addr_page(1) [OF a(1), of "0x0B" "[0]"]
    by (simp_all del: upt_rec_numeral)
  have run': "snd sw' = spi_disable E (snd sw3)" "bs = cs"
    using run rec a(2)
    by (auto simp add: read_page_def enable_spi_def disable_spi_def case_prod_beta FLASH_PAGE_SIZE_def simp del: send_bytes.simps)
  have keep: "frame_keeps (cur (snd sw3)) i" for i by (simp add: r(2) frame_keeps_def)
  have "mem (spi_disable E (snd sw3)) = mem (snd sw3)"
  proof
    fix i
    show "mem (spi_disable E (snd sw3)) i = mem (snd sw3) i" using law keep [of i] by (simp add: nor_flash_def)
  qed
  moreover have "map (\<lambda>i. mem (snd sw) (unat a + i)) [0..<256] = map (mem (snd sw)) [unat a..<unat a + 256]"
    by (rule nth_equalityI) (simp_all del: upt_rec_numeral)
  ultimately show ?thesis by (simp add: run' r)
qed

lemma nor_read_back:
  assumes "nor_flash E cur mem" and "a < 2 ^ 24" "a AND (FLASH_PAGE_SIZE - 1) = 0"
    and "run_state (read_back E a) (s, w) = (u, (s', w'))"
  shows "mem w' = mem w \<and> compare_buffer s' = Some (map (mem w) [unat a..<unat a + 256])"
proof -
  obtain ok bs sw' where r: "run_state (read_page E a (the (compare_buffer s))) (s, w) = ((ok, bs), sw')"
    by (metis prod.exhaust)
  then have "w' = snd sw' \<and> compare_buffer s' = Some bs"
    using assms(4) by (auto simp: read_back_def)
  with nor_read_page [OF assms(1-3) r] show ?thesis by simp
qed

text \<open>A page that was programmed and verified is in the memory, and the other pages are what they were.\<close>

lemma nor_program_page:
  assumes law: "nor_flash E cur mem" and a: "a < 2 ^ 24" "a AND (FLASH_PAGE_SIZE - 1) = 0"
    and run: "program_page E a page (s, w) = Some (True, (s', w'))"
  shows "page = map (mem w') [unat a..<unat a + 256] \<and> (\<forall>i. i div 256 \<noteq> unat a div 256 \<longrightarrow> mem w' i = mem w i)"
proof -
  obtain b1 s1 w1 where 1: "write_page E a page (s, w) = Some (b1, (s1, w1))"
    using run by (auto simp: program_page_def bind_eq_Some_conv)
  obtain s2 w2 where 2: "run_state (read_back E a) (s1, w1) = ((), (s2, w2))" by (metis old.unit.exhaust prod.exhaust)
  have m1: "i div 256 \<noteq> unat a div 256 \<longrightarrow> mem w2 i = mem w i" for i
    using nor_write_page [OF law a(1) 1] nor_read_back [OF law a 2] by auto
  show ?thesis
  proof (cases "compare_buffer s2 = Some page")
    case True
    then have "w' = w2" using run 1 2 by (simp add: program_page_def total_run_def)
    then show ?thesis using True nor_read_back [OF law a 2] m1 by simp
  next
    case False
    then obtain s3 w3 where 3: "write_page E a page (s2, w2) = Some (True, (s3, w3))"
      using run 1 2 by (auto simp: program_page_def total_run_def bind_eq_Some_conv split: if_splits)
    obtain s4 w4 where 4: "run_state (read_back E a) (s3, w3) = ((), (s4, w4))" by (metis old.unit.exhaust prod.exhaust)
    have "w' = w4 \<and> compare_buffer s4 = Some page"
      using run 1 2 3 4 False by (auto simp: program_page_def total_run_def split: if_splits)
    then show ?thesis using nor_read_back [OF law a 4] nor_write_page [OF law a(1) 3] m1 by auto
  qed
qed

section \<open>What the flash holds\<close>

text \<open>While the image is being flashed, everything in front of the page position is in the flash.\<close>

definition emb_mem :: "('w \<Rightarrow> nat \<Rightarrow> u8) \<Rightarrow> flash_image \<Rightarrow> xflash \<Rightarrow> 'w \<Rightarrow> bool" where
  "emb_mem mem img s w \<longleftrightarrow>
     (\<exists>pos. fl_reader s = Some (EmbeddedImageReader img pos) \<and> page_pos s = int (unat pos) \<and> 256 dvd unat pos \<and>
        unat pos < length (fi_data img) \<and> (\<forall>i<unat pos. mem w i = fi_data img ! i))"

lemma aligned_and:
  fixes a :: u32
  assumes "256 dvd unat a"
  shows "a AND (FLASH_PAGE_SIZE - 1) = 0"
proof -
  have "unat (take_bit 8 a) = 0" using assms by (simp add: unsigned_take_bit_eq) (simp add: take_bit_eq_mod dvd_eq_mod_eq_0)
  then show ?thesis by (simp add: FLASH_PAGE_SIZE_def take_bit_eq_mask mask_numeral unsigned_eq_0_iff)
qed

lemma nth_page_of:
  assumes "length bs \<le> 256" and "i < length bs" and "length buf = 256"
  shows "page_of (int (length bs)) bs buf ! i = bs ! i"
  using assms by (simp add: page_of_def Let_def write_at_def nth_append FLASH_PAGE_SIZE_def)

lemma emb_mem_flashing:
  assumes law: "nor_flash E cur mem" and inv: "emb_inv img m s" and mem: "emb_mem mem img s w"
    and small: "length (fi_data img) \<le> 2 ^ 24"
    and run: "flashing_step E (s, w) = Some (r, (s', w'))" and r: "0 \<le> r"
  shows "if r = 0 then \<forall>i<length (fi_data img). mem w' i = fi_data img ! i else emb_mem mem img s' w'"
proof -
  obtain pos where pos: "fl_reader s = Some (EmbeddedImageReader img pos)" "page_pos s = int (unat pos)" "256 dvd unat pos"
      "unat pos < length (fi_data img)" "\<forall>i<unat pos. mem w i = fi_data img ! i"
    using mem by (auto simp: emb_mem_def)
  obtain buf cbuf where *: "embedded_ok (img, pos)" "md5_receive s = take (unat pos) (fi_data img)"
      "bytes_remaining s = fi_length img - pos"
      "reader_buffer s = Some buf" "length buf = 256" "compare_buffer s = Some cbuf" "length cbuf = 256"
    using inv pos(1) by (auto simp: emb_inv_def)
  let ?bs = "take 256 (drop (unat pos) (fi_data img))"
  let ?page = "page_of (int (length ?bs)) ?bs buf"
  obtain pos' mc s3 s4 where st: "unat pos' = unat pos + length ?bs" "embedded_ok (img, pos')"
      "fl_reader s' = Some (EmbeddedImageReader img pos')" "page_pos s' = page_pos s + 256"
      "r = sint (fi_length img - pos')" "length ?bs = 256 \<or> fi_length img = pos'"
      "program_page E (word_of_int (page_pos s)) ?page (s3, w) = Some (True, (s4, w'))"
    using emb_flashing [OF run r pos(1) *] unfolding Let_def by auto
  have a: "word_of_int (page_pos s) = pos" using pos(2) by simp
  have lt: "pos < 2 ^ 24" using pos(4) small by (simp add: word_less_nat_alt)
  have prog: "?page = map (mem w') [unat pos..<unat pos + 256]"
      "\<And>i. i div 256 \<noteq> unat pos div 256 \<Longrightarrow> mem w' i = mem w i"
    using nor_program_page [OF law lt aligned_and [OF pos(3)] st(7) [unfolded a]] by auto
  have new: "mem w' i = fi_data img ! i" if "i < unat pos'" for i
  proof (cases "i < unat pos")
    case True
    then have "i div 256 < unat pos div 256" using pos(3) by (auto simp: less_mult_imp_div_less)
    then show ?thesis using prog(2) [of i] pos(5) True by simp
  next
    case False
    then have k: "i - unat pos < length ?bs" "i - unat pos < 256" using that st(1) by auto
    have "mem w' i = ?page ! (i - unat pos)" using k(2) False by (subst prog(1)) simp
    also have "\<dots> = ?bs ! (i - unat pos)" using k(1) *(5) by (intro nth_page_of) simp_all
    also have "\<dots> = fi_data img ! i" using k False by simp
    finally show ?thesis .
  qed
  show ?thesis
  proof (cases "r = 0")
    case True
    then have "fi_length img = pos'" using st(5) by (simp add: signed_eq_0_iff)
    then show ?thesis using True new st(2) by (simp add: embedded_ok_def)
  next
    case False
    then have ne: "fi_length img \<noteq> pos'" using st(5) by auto
    then have 256: "length ?bs = 256" using st(6) by blast
    have "unat pos' < length (fi_data img)" using st(2) ne by (auto simp: embedded_ok_def word_le_nat_alt le_less word_unat_eq_iff)
    then show ?thesis
      using False st(3,4) new pos(2,3) st(1) unfolding 256 by (auto simp add: emb_mem_def simp del: of_nat_unat)
  qed
qed

lemma nor_publish:
  assumes "nor_flash E cur mem" and "publish_progress E (s, w) = Some (u, (s', w'))"
  shows "mem w' = mem w"
  using assms
  by (auto simp: publish_progress_def total_run_def mf_publish_def Let_def nor_flash_def split: if_splits)

lemma nor_deinit:
  assumes "nor_flash E cur mem" and "fl_reader s = Some (EmbeddedImageReader img pos)"
  shows "mem (snd (snd (run_state (deinit_flashing E) (s, w)))) = mem w"
  using assms
  by (simp add: deinit_flashing_def deinit_flasher_def on_parent_def set_spi_flash_direct_access_mode_def
      call_state_callback_def deinit_reader_def sat_env_of_def sat_env.truncate_def nor_flash_def case_prod_beta)

text \<open>What the flash holds in each state of the flasher while \<open>img\<close> is being flashed.\<close>

definition emb_flash :: "('w \<Rightarrow> nat \<Rightarrow> u8) \<Rightarrow> flash_image \<Rightarrow> xflash \<Rightarrow> 'w \<Rightarrow> bool" where
  "emb_flash mem img s w \<longleftrightarrow>
     (case fl_state s of
        FLASHER_ERASING \<Rightarrow> fl_reader s = Some (EmbeddedImageReader img 0) \<and> page_pos s = 0
      | FLASHER_FLASHING \<Rightarrow> emb_mem mem img s w
      | FLASHER_SUCCESS_STATE \<Rightarrow> \<forall>i<length (fi_data img). mem w i = fi_data img ! i
      | _ \<Rightarrow> True)"

lemma emb_flash_init:
  assumes "requested_action s = ACTION_FLASH_EMBEDDED_IMAGE" "embedded_image s = img"
    and "run_state (init_flashing E) (s, w) = (True, (s', w'))"
  shows "fl_reader s' = Some (EmbeddedImageReader img 0) \<and> page_pos s' = 0"
proof -
  let ?i = "snd (run_state (init_flasher E) (s, w))"
  have i: "requested_action (fst ?i) = requested_action s" "embedded_image (fst ?i) = embedded_image s"
    "fst (run_state (init_flasher E) (s, w))"
    by (simp_all add: init_flasher_def on_parent_def read_jedec_id_def case_prod_beta)
  show ?thesis
    using assms i by (auto simp: init_flashing_def case_prod_beta init_reader_def get_image_size_def split: if_splits)
qed

lemma emb_mem_publish:
  assumes "nor_flash E cur mem" and "emb_mem mem img s w" and "publish_progress E (s, w) = Some (u, (s', w'))"
  shows "emb_mem mem img s' w'"
  using publish_progress_obj [OF assms(3)] nor_publish [OF assms(1,3)] assms(2) by (auto simp: emb_mem_def)

lemma emb_flash_loop:
  assumes law: "nor_flash E cur mem" and img: "fi_data img \<noteq> []" "length (fi_data img) \<le> 2 ^ 24"
    and inv: "emb_run E img m s" "emb_flash mem img s w" and run: "flasher_loop E (s, w) = Some (u, (s', w'))"
  shows "emb_flash mem img s' w'"
proof (cases "fl_state s")
  case FLASHER_INITIALIZING
  then have pre: "requested_action s = ACTION_FLASH_EMBEDDED_IMAGE" "embedded_image s = img"
    using inv by (simp_all add: emb_run_def)
  obtain ok s1 w1 where i: "run_state (init_flashing E) (s, w) = (ok, (s1, w1))" by (metis prod.exhaust)
  show ?thesis
  proof (cases ok)
    case True
    moreover have "s' = s1\<lparr>fl_state := FLASHER_ERASING\<rparr>"
      using run FLASHER_INITIALIZING i True by (auto simp: flasher_loop_def set_fl_state_def)
    ultimately show ?thesis using emb_flash_init [OF pre, of E w s1 w1] i by (simp add: emb_flash_def)
  next
    case False
    then have "fl_state s' = FLASHER_ERROR_STATE"
      using run FLASHER_INITIALIZING i by (auto simp: flasher_loop_def set_fl_state_def total_run_def case_prod_beta)
    then show ?thesis by (simp add: emb_flash_def)
  qed
next
  case FLASHER_ERASING
  then have pre: "fl_reader s = Some (EmbeddedImageReader img 0)" "page_pos s = 0" "requested_action s \<noteq> ACTION_FULL_ERASE"
    using inv by (simp_all add: emb_run_def emb_inv_def emb_flash_def)
  show ?thesis
    using flasher_loop_erasing [OF run FLASHER_ERASING pre(3)] pre(1,2) img(1)
    by (auto simp: emb_flash_def emb_mem_def)
next
  case FLASHER_FLASHING
  then have pre: "emb_inv img m s" "emb_mem mem img s w" using inv by (simp_all add: emb_run_def emb_flash_def)
  obtain r s1 w1 s2 w2 where fl: "flashing_step E (s, w) = Some (r, (s1, w1))"
    and pp: "publish_progress E (s1, w1) = Some ((), (s2, w2))"
    using run FLASHER_FLASHING by (auto simp: flasher_loop_def bind_eq_Some_conv)
  note step = emb_mem_flashing [OF law pre img(2) fl]
  consider "r < 0" | "r = 0" | "0 < r" by linarith
  then show ?thesis
  proof cases
    case 1
    then have "fl_state s' = FLASHER_ERROR_STATE"
      using run FLASHER_FLASHING fl pp by (auto simp: flasher_loop_def set_fl_state_def total_run_def case_prod_beta)
    then show ?thesis by (simp add: emb_flash_def)
  next
    case 2
    then have s': "fl_state s' = FLASHER_SUCCESS_STATE" "w' = snd (snd (run_state (deinit_flashing E) (s2, w2)))"
      using run FLASHER_FLASHING fl pp by (auto simp: flasher_loop_def set_fl_state_def total_run_def case_prod_beta)
    obtain pos where "fl_reader s2 = Some (EmbeddedImageReader img pos)"
      using emb_inv_flashing [OF pre(1) fl] 2 publish_progress_obj [OF pp] by (auto simp: emb_inv_def)
    then have "mem w' = mem w1" using nor_deinit [OF law] nor_publish [OF law pp] s'(2) by simp
    then show ?thesis using step 2 s'(1) by (simp add: emb_flash_def)
  next
    case 3
    then have s': "s' = s2" "w' = w2" using run FLASHER_FLASHING fl pp by (auto simp: flasher_loop_def)
    have "emb_mem mem img s2 w2" using emb_mem_publish [OF law _ pp] step 3 by simp
    moreover have "fl_state s2 = FLASHER_FLASHING"
      using emb_inv_flashing [OF pre(1) fl] 3 publish_progress_obj [OF pp] FLASHER_FLASHING by auto
    ultimately show ?thesis by (simp add: emb_flash_def s')
  qed
next
  case FLASHER_IDLE
  then show ?thesis using run by (auto simp: flasher_loop_def emb_flash_def)
next
  case FLASHER_RECEIVING_IMG_INFO
  then show ?thesis using run by (auto simp: flasher_loop_def emb_flash_def)
next
  case FLASHER_SUCCESS_STATE
  then show ?thesis using run by (auto simp: flasher_loop_def emb_flash_def set_fl_state_def total_run_def case_prod_beta)
next
  case FLASHER_ERROR_STATE
  then show ?thesis using run by (auto simp: flasher_loop_def emb_flash_def set_fl_state_def total_run_def case_prod_beta)
qed

lemma emb_flash_turns:
  assumes "malloc_law E" "length (fi_data img) = unat (fi_length img)" "nor_flash E cur mem" "fi_data img \<noteq> []"
    "length (fi_data img) \<le> 2 ^ 24"
  shows "emb_run E img m (fst sw) \<Longrightarrow> emb_flash mem img (fst sw) (snd sw) \<Longrightarrow> loop_turns E n sw = Some sw' \<Longrightarrow>
    emb_flash mem img (fst sw') (snd sw')"
proof (induction n arbitrary: sw)
  case (Suc n)
  obtain sw1 where 1: "flasher_loop E sw = Some ((), sw1)" "loop_turns E n sw1 = Some sw'"
    using Suc.prems(3) by (auto simp: bind_eq_Some_conv)
  have "emb_run E img m (fst sw1)"
    using emb_run_loop [OF assms(1,2), of m "fst sw" "snd sw" "()" "fst sw1" "snd sw1"] Suc.prems(1) 1(1) by simp
  moreover have "emb_flash mem img (fst sw1) (snd sw1)"
    using emb_flash_loop [OF assms(3-5) Suc.prems(1,2), of "()" "fst sw1" "snd sw1"] 1(1) by simp
  ultimately show ?case using Suc.IH 1(2) by blast
qed simp


section \<open>A run that succeeds\<close>

text \<open>A chip full of twos, which answers every byte with 2 (so it is never busy and always writable), and an image of one
  page of twos, embedded or on a server. The world is what was sent since the chip was selected.\<close>

definition ex_nor_env :: "u8 list flash_env" where
  "ex_nor_env =
     \<lparr>spi_setup = id, spi_enable = (\<lambda>w. []), spi_disable = id, spi_byte = (\<lambda>b w. (2, w @ [b])),
      spi_xfer = Pair, task_delay = (\<lambda>n. id), sat_millis = Pair 0, rst_pin_setup = id, rst_pin_write = (\<lambda>b. id),
      sat_callback = (\<lambda>s. id), raw_version_resp = replicate 5 0, http_get = (\<lambda>u. Pair (Some 0)), http_content_length = (\<lambda>c w. 256),
      http_bytes_read = (\<lambda>c w. 0), http_read = (\<lambda>c n. Pair (int (min n 256), replicate (min n 256) 2)), http_end = (\<lambda>c. id), feed_and_yield = id,
      mf_callback = (\<lambda>m. id), md5_hex = (\<lambda>bs. ''abc''), malloc_page = Pair (Some (replicate 256 0)), free_page = id\<rparr>"

definition ex_page_image :: flash_image where
  "ex_page_image = \<lparr>fi_data = replicate 256 2, fi_length = 256, fi_md5 = ''abc'', fi_version = [1, 0, 0, 0, 0]\<rparr>"

lemma ex_nor_sel:
  "spi_enable ex_nor_env w = []" "spi_disable ex_nor_env w = w" "spi_byte ex_nor_env b w = (2, w @ [b])"
  "sat_millis ex_nor_env w = (0, w)" "task_delay ex_nor_env n w = w" "free_page ex_nor_env w = w"
  "rst_pin_write ex_nor_env v w = w" "mf_callback ex_nor_env c w = w" "sat_callback ex_nor_env s w = w"
  "malloc_page ex_nor_env w = (Some (replicate 256 0), w)" "md5_hex ex_nor_env bs = ''abc''"
  by (simp_all add: ex_nor_env_def)

lemma ex_nor_flash: "nor_flash ex_nor_env (\<lambda>w. w) (\<lambda>w i. 2)"
  by (simp add: nor_flash_def ex_nor_sel)

lemma ex_nor_malloc: "malloc_law ex_nor_env"
  by (auto simp: malloc_law_def ex_nor_sel)

lemma ex_nor_send: "run_state (send_bytes ex_nor_env bs) (s, w) = ((), (s, w @ bs))"
  by (induction bs arbitrary: w) (simp_all add: transfer_byte_def ex_nor_sel)

lemma ex_nor_recv: "run_state (recv_bytes ex_nor_env n) (s, w) = (replicate n 2, (s, w @ replicate n 0))"
  by (induction n arbitrary: w) (simp_all add: transfer_byte_def ex_nor_sel)

lemma ex_nor_status: "run_state (read_flash_status ex_nor_env) (s, w) = (2, (s, [5, 0]))"
  by (simp add: read_flash_status_def enable_spi_def disable_spi_def transfer_byte_def ex_nor_sel)

lemma ex_nor_enable: "run_state (enable_writing ex_nor_env) (s, w) = (True, (s, [5, 0]))"
  by (simp add: enable_writing_def enable_spi_def disable_spi_def transfer_byte_def ex_nor_sel ex_nor_status)

lemma ex_nor_wait: "0 < T \<Longrightarrow> wait_while_flash_busy ex_nor_env T (s, w) = Some (True, (s, [5, 0]))"
  by (simp add: wait_while_flash_busy_def ex_nor_sel) (subst busy_loop.simps; simp add: Let_def ex_nor_sel ex_nor_status)

lemma ex_nor_erase: "run_state (erase_sector ex_nor_env n) (s, w) =
    (True, (s, 0x20 # addr_bytes (word_of_int n * FLASH_SECTOR_SIZE)))"
  by (simp add: erase_sector_def ex_nor_enable enable_spi_def disable_spi_def ex_nor_sel ex_nor_send del: send_bytes.simps)

lemma ex_nor_write: "write_page ex_nor_env 0 buf (s, w) = Some (True, (s, [4]))"
  by (simp add: write_page_def ex_nor_enable enable_spi_def disable_spi_def disable_writing_def transfer_byte_def
      total_run_def ex_nor_sel ex_nor_send ex_nor_wait del: send_bytes.simps)

lemma ex_nor_read_back: "\<exists>w'. run_state (read_back ex_nor_env 0) (s, w) =
    ((), (s\<lparr>compare_buffer := Some (replicate 256 2)\<rparr>, w'))"
  by (simp add: read_back_def read_page_def enable_spi_def disable_spi_def ex_nor_sel ex_nor_send ex_nor_recv
      FLASH_PAGE_SIZE_def del: send_bytes.simps)

lemma ex_nor_program: "\<exists>w'. program_page ex_nor_env 0 (replicate 256 2) (s, w) =
    Some (True, (s\<lparr>compare_buffer := Some (replicate 256 2)\<rparr>, w'))"
  using ex_nor_read_back [of s "[4]"] by (auto simp: program_page_def ex_nor_write total_run_def)

definition ex_idle :: xflash where
  "ex_idle = ex_xf\<lparr>embedded_image := ex_page_image\<rparr>"

lemma ex_turn_init: "\<exists>s1 w1. flasher_loop ex_nor_env (snd (run_state flash_embedded_image (ex_idle\<lparr>fl_parent := p\<rparr>, w))) = Some ((), (s1, w1)) \<and>
    fl_state s1 = FLASHER_ERASING \<and> total_sectors_to_erase s1 = 1 \<and> current_sector s1 = -1 \<and>
    fl_reader s1 = Some (EmbeddedImageReader ex_page_image 0) \<and> reader_buffer s1 = Some (replicate 256 0) \<and>
    compare_buffer s1 = Some (replicate 256 0) \<and> bytes_remaining s1 = 256 \<and> page_pos s1 = 0 \<and> md5_expected s1 = ''abc'' \<and>
    requested_action s1 = ACTION_FLASH_EMBEDDED_IMAGE \<and> last_published s1 = 0"
  by (simp add: flash_embedded_image_def flasher_loop_def ex_idle_def ex_xf_def xflash_init_def mflash_init_def mflash.defs
      init_flashing_def init_flasher_def on_parent_def set_spi_flash_direct_access_mode_def call_state_callback_def
      read_jedec_id_def enable_spi_def disable_spi_def transfer_byte_def ex_nor_sel sat_env_of_def sat_env.defs
      init_reader_def get_image_size_def ex_page_image_def size_in_sectors_def size_in_pages_def FLASH_PAGE_SIZE_def
      FLASH_SECTOR_SIZE_def set_fl_state_def case_prod_beta)

lemma ex_publish: "last_published s = 0 \<Longrightarrow> publish_progress ex_nor_env (s, w) = Some ((), (s, w))"
  by (simp add: publish_progress_def ex_nor_sel)

lemma ex_deinit_total: "total_number_of_bytes (fst (snd (run_state (deinit_flashing E) sw))) = total_number_of_bytes (fst sw)"
  by (cases sw; cases "fl_reader (fst sw)") (simp_all add: deinit_flashing_def deinit_flasher_def on_parent_def case_prod_beta)

text \<open>A job that has been initialised succeeds in three more turns, whatever the reader, if it delivers a page of twos.\<close>

lemma ex_job_succeeds:
  assumes s1: "fl_state s1 = FLASHER_ERASING" "total_sectors_to_erase s1 = 1" "current_sector s1 = -1"
      "fl_reader s1 = Some rd" "reader_buffer s1 = Some (replicate 256 0)" "compare_buffer s1 = Some (replicate 256 0)"
      "bytes_remaining s1 = 256" "page_pos s1 = 0" "md5_expected s1 = ''abc''" "requested_action s1 \<noteq> ACTION_FULL_ERASE"
      "last_published s1 = 0"
    and rd: "\<And>w. read_image_block ex_nor_env rd 256 w = Some (256, replicate 256 2, rd', w)"
  shows "\<exists>s' w'. loop_turns ex_nor_env 3 (s1, w1) = Some (s', w') \<and> fl_state s' = FLASHER_SUCCESS_STATE \<and>
    total_number_of_bytes s' = total_number_of_bytes s1"
proof -
  obtain w2 where t2: "flasher_loop ex_nor_env (s1, w1) = Some ((), (s1\<lparr>current_sector := 0\<rparr>, w2))"
    using s1 by (simp add: flasher_loop_def erasing_step_def ex_nor_wait ex_nor_erase ex_publish sectors_left_def)
  let ?s3 = "s1\<lparr>current_sector := 1, fl_state := FLASHER_FLASHING\<rparr>"
  obtain w3 where t3: "flasher_loop ex_nor_env (s1\<lparr>current_sector := 0\<rparr>, w2) = Some ((), (?s3, w3))"
    using s1 by (simp add: flasher_loop_def erasing_step_def ex_nor_wait ex_publish sectors_left_def set_fl_state_def)
  have page: "page_of 256 (replicate 256 2) (replicate 256 0) = replicate 256 2"
    by (simp add: page_of_def write_at_def FLASH_PAGE_SIZE_def)
  have md5: "strncmp_eq MD5_SIZE ''abc'' ''abc''" by (simp add: MD5_SIZE_def numeral_eq_Suc)
  obtain s4 w4 where t4: "flashing_step ex_nor_env (?s3, w3) = Some (0, (s4, w4))" "last_published s4 = 0"
    "total_number_of_bytes s4 = total_number_of_bytes s1"
  proof -
    let ?s = "?s3\<lparr>fl_reader := Some rd',
      md5_receive := md5_receive s1 @ replicate 256 2, bytes_remaining := 0, reader_buffer := Some (replicate 256 2)\<rparr>"
    obtain w' where p: "program_page ex_nor_env 0 (replicate 256 2) (?s, w3) =
        Some (True, (?s\<lparr>compare_buffer := Some (replicate 256 2)\<rparr>, w'))" using ex_nor_program by blast
    have "flashing_step ex_nor_env (?s3, w3) =
        Some (0, (?s\<lparr>compare_buffer := Some (replicate 256 2), page_pos := 256, md5_computed := ''abc''\<rparr>, w'))"
      using s1 p rd by (simp add: flashing_step_def Let_def page md5 ex_nor_sel FLASH_PAGE_SIZE_def write_at_def)
    then show ?thesis using that s1(11) by simp
  qed
  obtain s5 w5 where t5: "flasher_loop ex_nor_env (?s3, w3) = Some ((), (s5, w5))" "fl_state s5 = FLASHER_SUCCESS_STATE"
    "total_number_of_bytes s5 = total_number_of_bytes s1"
    using ex_publish [OF t4(2)] t4(1,3)
    by (simp add: flasher_loop_def total_run_def set_fl_state_def case_prod_beta ex_deinit_total)
  have "loop_turns ex_nor_env 3 (s1, w1) = Some (s5, w5)" using t2 t3 t5(1) by (simp add: numeral_eq_Suc)
  then show ?thesis using t5(2,3) by blast
qed

lemma ex_run_succeeds_on:
  "\<exists>s' w'. loop_turns ex_nor_env 4 (snd (run_state flash_embedded_image (ex_idle\<lparr>fl_parent := p\<rparr>, w))) = Some (s', w') \<and>
    fl_state s' = FLASHER_SUCCESS_STATE"
proof -
  let ?sw = "snd (run_state flash_embedded_image (ex_idle\<lparr>fl_parent := p\<rparr>, w))"
  have rd: "read_image_block ex_nor_env (EmbeddedImageReader ex_page_image 0) 256 w =
      Some (256, replicate 256 2, EmbeddedImageReader ex_page_image 256, w)" for w
    by (simp add: read_image_block_def embedded_read_def ex_page_image_def FLASH_PAGE_SIZE_def)
  obtain s1 w1 where t1: "flasher_loop ex_nor_env ?sw = Some ((), (s1, w1))"
    and s1: "fl_state s1 = FLASHER_ERASING" "total_sectors_to_erase s1 = 1" "current_sector s1 = -1"
      "fl_reader s1 = Some (EmbeddedImageReader ex_page_image 0)" "reader_buffer s1 = Some (replicate 256 0)"
      "compare_buffer s1 = Some (replicate 256 0)" "bytes_remaining s1 = 256" "page_pos s1 = 0" "md5_expected s1 = ''abc''"
      "requested_action s1 = ACTION_FLASH_EMBEDDED_IMAGE" "last_published s1 = 0"
    using ex_turn_init [of p w] by blast
  have "requested_action s1 \<noteq> ACTION_FULL_ERASE" using s1(10) by simp
  then obtain s' w' where r: "loop_turns ex_nor_env 3 (s1, w1) = Some (s', w')" "fl_state s' = FLASHER_SUCCESS_STATE"
    using ex_job_succeeds [OF s1(1-9) _ s1(11) rd] by blast
  have "loop_turns ex_nor_env (Suc 3) ?sw = Some (s', w')" unfolding loop_turns.simps t1 using r(1) by simp
  then show ?thesis using r(2) by auto
qed

lemma ex_run_succeeds: "\<exists>n s' w'. loop_turns ex_nor_env n (snd (run_state flash_embedded_image (ex_idle, []))) = Some (s', w') \<and>
    fl_state s' = FLASHER_SUCCESS_STATE"
  using ex_run_succeeds_on [of "fl_parent ex_idle" "[]"] by fastforce

lemma ex_page_wf: "fl_state ex_idle = FLASHER_IDLE" "embedded_image ex_idle = ex_page_image"
  "length (fi_data ex_page_image) = unat (fi_length ex_page_image)" "length (fi_data ex_page_image) \<le> 2 ^ 24"
  by (simp_all add: ex_idle_def ex_xf_def xflash_init_def mflash_init_def mflash.defs ex_page_image_def)

theorem embedded_flash_success_md5_witness:
  "\<exists>n s' w'. loop_turns ex_nor_env n (snd (run_state flash_embedded_image (ex_idle, []))) = Some (s', w') \<and>
     fl_state s' = FLASHER_SUCCESS_STATE \<and>
     strncmp_eq MD5_SIZE (md5_hex ex_nor_env (fi_data ex_page_image)) (fi_md5 ex_page_image)"
  using ex_run_succeeds embedded_flash_success_md5 [OF ex_nor_malloc ex_page_wf(3,1,2)] by blast


section \<open>No turn gets stuck\<close>

lemma wait_Some: "clock_law E clk \<Longrightarrow> unat T < 2 ^ 31 \<Longrightarrow> \<exists>b sw'. wait_while_flash_busy E T sw = Some (b, sw')"
  using wait_returns [of E clk T "fst sw" "snd sw"] by auto

lemma write_page_Some:
  assumes "clock_law E clk"
  shows "\<exists>b sw'. write_page E a buf sw = Some (b, sw')"
proof -
  let ?e = "run_state (enable_writing E) sw"
  let ?sw2 = "snd (run_state (do { enable_spi E; send_bytes E (0x02 # addr_bytes a @ buf); disable_spi E }) (snd ?e))"
  obtain b sw3 where "wait_while_flash_busy E 15 ?sw2 = Some (b, sw3)"
    using wait_Some [OF assms, of 15 ?sw2] by auto
  then show ?thesis
    by (cases b) (auto simp: write_page_def total_run_def case_prod_beta)
qed

lemma program_page_Some:
  assumes "clock_law E clk"
  shows "\<exists>b sw'. program_page E a page sw = Some (b, sw')"
proof -
  obtain b1 sw1 where 1: "write_page E a page sw = Some (b1, sw1)" using write_page_Some [OF assms] by blast
  obtain s2 w2 where 2: "run_state (read_back E a) sw1 = ((), (s2, w2))" by (metis old.unit.exhaust prod.exhaust)
  obtain b3 s3 w3 where 3: "write_page E a page (s2, w2) = Some (b3, (s3, w3))"
    using write_page_Some [OF assms] by (metis prod.exhaust)
  show ?thesis
    using 1 2 3 by (cases b3) (auto simp: program_page_def total_run_def case_prod_beta)
qed

lemma erasing_step_Some:
  assumes "clock_law E clk"
  shows "\<exists>r sw'. erasing_step E sw = Some (r, sw')"
proof -
  obtain b s1 w1 where "wait_while_flash_busy E 1 sw = Some (b, (s1, w1))"
    using wait_Some [OF assms, of 1 sw] by auto
  then show ?thesis by (cases b) (simp_all add: erasing_step_def Let_def case_prod_beta)
qed

lemma flashing_step_Some:
  assumes "clock_law E clk" and "emb_inv img m s"
  shows "\<exists>r sw'. flashing_step E (s, w) = Some (r, sw')"
proof -
  obtain pos buf cbuf where s: "fl_reader s = Some (EmbeddedImageReader img pos)" "reader_buffer s = Some buf"
      "compare_buffer s = Some cbuf"
    using assms(2) by (auto simp: emb_inv_def)
  obtain n bs rd' w1 where rd: "read_image_block E (EmbeddedImageReader img pos) FLASH_PAGE_SIZE w = Some (n, bs, rd', w1)"
    by (simp add: read_image_block_def case_prod_beta)
  show ?thesis
  proof (cases "0 \<le> n \<and> (n = uint FLASH_PAGE_SIZE \<or> bytes_remaining s - word_of_int n = 0)")
    case True
    let ?s3 = "s\<lparr>fl_reader := Some rd', md5_receive := md5_receive s @ take (nat n) (write_at 0 bs buf),
      bytes_remaining := bytes_remaining s - word_of_int n, reader_buffer := Some (page_of n bs buf)\<rparr>"
    obtain b s4 w4 where "program_page E (word_of_int (page_pos s)) (page_of n bs buf) (?s3, w1) = Some (b, (s4, w4))"
      using program_page_Some [OF assms(1)] by (metis prod.exhaust)
    then show ?thesis using True s rd by (cases b) (auto simp: flashing_step_def Let_def)
  qed (use s rd in \<open>auto simp: flashing_step_def Let_def\<close>)
qed

text \<open>The numbers the progress is computed from.\<close>

definition emb_total :: "flash_image \<Rightarrow> xflash \<Rightarrow> bool" where
  "emb_total img s \<longleftrightarrow> (fl_state s \<in> {FLASHER_ERASING, FLASHER_FLASHING} \<longrightarrow>
     total_number_of_bytes s = fi_length img \<and> total_sectors_to_erase s = size_in_sectors (fi_length img))"

lemma emb_total_upd [simp]:
  "emb_total img (s\<lparr>current_sector := c\<rparr>) = emb_total img s" "emb_total img (s\<lparr>error_code := e\<rparr>) = emb_total img s"
  "emb_total img (s\<lparr>flashing_progress := p\<rparr>) = emb_total img s" "emb_total img (s\<lparr>last_published := t\<rparr>) = emb_total img s"
  by (simp_all add: emb_total_def)

lemma size_in_sectors_less: "unat (size_in_sectors n) < 2 ^ 20"
proof -
  have "unat x div 4096 < 2 ^ 20" for x :: u32
    using unsigned_less [of x, where ?'a = nat] by (simp add: less_mult_imp_div_less)
  then show ?thesis by (simp add: size_in_sectors_def FLASH_SECTOR_SIZE_def unat_div)
qed

lemma publish_progress_Some:
  assumes "requested_action s = ACTION_FLASH_EMBEDDED_IMAGE" "emb_total img s" "fl_state s \<in> {FLASHER_ERASING, FLASHER_FLASHING}"
    and "fi_length img \<noteq> 0" "unat (fi_length img) \<le> 2 ^ 24"
  shows "\<exists>sw'. publish_progress E (s, w) = Some ((), sw')"
proof -
  have tot: "total_number_of_bytes s = fi_length img" "total_sectors_to_erase s = size_in_sectors (fi_length img)"
    using assms(2,3) by (auto simp: emb_total_def)
  have "unat (fi_length img) + unat (size_in_sectors (fi_length img)) < 2 ^ 32"
    using assms(5) size_in_sectors_less [of "fi_length img"] by simp
  then have "unat (fi_length img + size_in_sectors (fi_length img)) = unat (fi_length img) + unat (size_in_sectors (fi_length img))"
    by (simp add: unat_word_ariths)
  moreover have "unat (fi_length img) \<noteq> 0" using assms(4) by (simp add: unsigned_eq_0_iff)
  ultimately have "fi_length img + size_in_sectors (fi_length img) \<noteq> 0" by (metis add_is_0 unsigned_0)
  then show ?thesis
    using assms(1) tot by (simp add: publish_progress_def total_run_def mf_publish_def Let_def)
qed

definition run_frame :: "xflash \<Rightarrow> u32 \<times> u32 \<times> FlasherAction \<times> FlasherState \<times> satellite1" where
  "run_frame s = (total_number_of_bytes s, total_sectors_to_erase s, requested_action s, fl_state s, fl_parent s)"

lemma run_frame_upd [simp]:
  "run_frame (s\<lparr>current_sector := c\<rparr>) = run_frame s" "run_frame (s\<lparr>error_code := e\<rparr>) = run_frame s"
  "run_frame (s\<lparr>flashing_progress := p\<rparr>) = run_frame s" "run_frame (s\<lparr>last_published := t\<rparr>) = run_frame s"
  "run_frame (s\<lparr>compare_buffer := cb\<rparr>) = run_frame s" "run_frame (s\<lparr>reader_buffer := rb\<rparr>) = run_frame s"
  "run_frame (s\<lparr>fl_reader := rd\<rparr>) = run_frame s" "run_frame (s\<lparr>md5_receive := mr\<rparr>) = run_frame s"
  "run_frame (s\<lparr>bytes_remaining := br\<rparr>) = run_frame s" "run_frame (s\<lparr>page_pos := pp\<rparr>) = run_frame s"
  "run_frame (s\<lparr>md5_computed := mc\<rparr>) = run_frame s"
  by (simp_all add: run_frame_def)

lemma program_page_frame:
  assumes "program_page E a page (s, w) = Some (ok, (s', w'))"
  shows "run_frame s' = run_frame s"
proof -
  have rb: "run_frame (fst (snd (run_state (read_back E a) sw))) = run_frame (fst sw)" for sw
    by (simp add: read_back_def case_prod_beta)
  obtain b1 s1 w1 where 1: "write_page E a page (s, w) = Some (b1, (s1, w1))"
    using assms by (auto simp: program_page_def bind_eq_Some_conv)
  obtain s2 w2 where 2: "run_state (read_back E a) (s1, w1) = ((), (s2, w2))" by (metis old.unit.exhaust prod.exhaust)
  have s2: "run_frame s2 = run_frame s" using write_page_obj [OF 1] rb [of "(s1, w1)"] 2 by simp
  show ?thesis
  proof (cases "compare_buffer s2 = Some page")
    case True
    then show ?thesis using assms 1 2 s2 by (auto simp: program_page_def total_run_def)
  next
    case False
    then obtain b3 s3 w3 where 3: "write_page E a page (s2, w2) = Some (b3, (s3, w3))"
      using assms 1 2 by (auto simp: program_page_def total_run_def bind_eq_Some_conv)
    obtain s4 w4 where 4: "run_state (read_back E a) (s3, w3) = ((), (s4, w4))" by (metis old.unit.exhaust prod.exhaust)
    have "run_frame s3 = run_frame s" "run_frame s4 = run_frame s"
      using write_page_obj [OF 3] rb [of "(s3, w3)"] 4 s2 by simp_all
    then show ?thesis
      using assms 1 2 3 4 False by (auto simp: program_page_def total_run_def split: if_splits)
  qed
qed

lemma flashing_step_frame:
  assumes "flashing_step E (s, w) = Some (r, (s', w'))"
  shows "run_frame s' = run_frame s"
proof -
  obtain rd buf cbuf n bs rd' w1 where s: "fl_reader s = Some rd" "reader_buffer s = Some buf" "compare_buffer s = Some cbuf"
    and rdb: "read_image_block E rd FLASH_PAGE_SIZE w = Some (n, bs, rd', w1)"
    using assms by (auto simp: flashing_step_def bind_eq_Some_conv split: option.splits)
  show ?thesis
  proof (cases "0 \<le> n \<and> (n = uint FLASH_PAGE_SIZE \<or> bytes_remaining s - word_of_int n = 0)")
    case True
    let ?s3 = "s\<lparr>fl_reader := Some rd', md5_receive := md5_receive s @ take (nat n) (write_at 0 bs buf),
      bytes_remaining := bytes_remaining s - word_of_int n, reader_buffer := Some (page_of n bs buf)\<rparr>"
    obtain b s4 w4 where p: "program_page E (word_of_int (page_pos s)) (page_of n bs buf) (?s3, w1) = Some (b, (s4, w4))"
      using assms s rdb True by (auto simp: flashing_step_def Let_def bind_eq_Some_conv)
    have "run_frame s4 = run_frame s" using program_page_frame [OF p] by simp
    then show ?thesis
      using assms s rdb True p by (auto simp: flashing_step_def Let_def split: if_splits)
  qed (use assms s rdb in \<open>auto simp: flashing_step_def Let_def split: if_splits\<close>)
qed

lemma emb_turn:
  assumes law: "clock_law E clk" "malloc_law E"
    and img: "length (fi_data img) = unat (fi_length img)" "fi_length img \<noteq> 0" "unat (fi_length img) \<le> 2 ^ 24"
    and inv: "emb_run E img m s" "emb_total img s"
  shows "\<exists>s' w'. flasher_loop E (s, w) = Some ((), (s', w')) \<and> emb_total img s'"
proof (cases "fl_state s")
  case FLASHER_INITIALIZING
  then have pre: "requested_action s = ACTION_FLASH_EMBEDDED_IMAGE" "embedded_image s = img"
    using inv by (simp_all add: emb_run_def)
  obtain ok s1 w1 where i: "run_state (init_flashing E) (s, w) = (ok, (s1, w1))" by (metis prod.exhaust)
  have "ok \<longrightarrow> total_number_of_bytes s1 = fi_length img \<and> total_sectors_to_erase s1 = size_in_sectors (fi_length img)"
  proof -
    let ?i = "snd (run_state (init_flasher E) (s, w))"
    have "requested_action (fst ?i) = requested_action s" "embedded_image (fst ?i) = embedded_image s"
      "fst (run_state (init_flasher E) (s, w))"
      by (simp_all add: init_flasher_def on_parent_def read_jedec_id_def case_prod_beta)
    then show ?thesis
      using i pre by (auto simp: init_flashing_def case_prod_beta init_reader_def get_image_size_def split: if_splits)
  qed
  then show ?thesis
    using i FLASHER_INITIALIZING
    by (cases ok) (auto simp: flasher_loop_def set_fl_state_def total_run_def case_prod_beta emb_total_def)
next
  case FLASHER_ERASING
  then have act: "requested_action s = ACTION_FLASH_EMBEDDED_IMAGE" using inv by (simp add: emb_run_def emb_inv_def)
  obtain r s1 w1 where er: "erasing_step E (s, w) = Some (r, (s1, w1))"
    using erasing_step_Some [OF law(1)] by (metis prod.exhaust)
  have s1: "requested_action s1 = ACTION_FLASH_EMBEDDED_IMAGE" "emb_total img s1" "fl_state s1 = FLASHER_ERASING"
    using erasing_step_obj [OF er] act inv(2) FLASHER_ERASING by auto
  obtain s2 w2 where pp: "publish_progress E (s1, w1) = Some ((), (s2, w2))"
    using publish_progress_Some [OF s1(1,2) _ img(2,3), of E w1] s1(3) by auto
  have "requested_action s2 = ACTION_FLASH_EMBEDDED_IMAGE" "emb_total img s2" "fl_state s2 = FLASHER_ERASING"
    using publish_progress_obj [OF pp] s1 by auto
  then show ?thesis
    using FLASHER_ERASING er pp by (auto simp: flasher_loop_def set_fl_state_def emb_total_def)
next
  case FLASHER_FLASHING
  then have pre: "emb_inv img m s" using inv by (simp add: emb_run_def)
  obtain r s1 w1 where fl: "flashing_step E (s, w) = Some (r, (s1, w1))"
    using flashing_step_Some [OF law(1) pre] by (metis prod.exhaust)
  have s1: "requested_action s1 = ACTION_FLASH_EMBEDDED_IMAGE" "emb_total img s1" "fl_state s1 = FLASHER_FLASHING"
    using flashing_step_frame [OF fl] pre inv(2) FLASHER_FLASHING by (auto simp: run_frame_def emb_inv_def emb_total_def)
  obtain s2 w2 where pp: "publish_progress E (s1, w1) = Some ((), (s2, w2))"
    using publish_progress_Some [OF s1(1,2) _ img(2,3), of E w1] s1(3) by auto
  have "emb_total img s2" using publish_progress_obj [OF pp] s1(2) by auto
  then show ?thesis
    using FLASHER_FLASHING fl pp
    by (auto simp: flasher_loop_def set_fl_state_def total_run_def case_prod_beta emb_total_def)
qed (use inv(2) in \<open>auto simp: flasher_loop_def set_fl_state_def total_run_def case_prod_beta emb_total_def\<close>)

lemma emb_turns:
  assumes "clock_law E clk" "malloc_law E"
    and "length (fi_data img) = unat (fi_length img)" "fi_length img \<noteq> 0" "unat (fi_length img) \<le> 2 ^ 24"
  shows "emb_run E img m (fst sw) \<Longrightarrow> emb_total img (fst sw) \<Longrightarrow> \<exists>sw'. loop_turns E n sw = Some sw'"
proof (induction n arbitrary: sw)
  case (Suc n)
  obtain s' w' where 1: "flasher_loop E sw = Some ((), (s', w'))" "emb_total img s'"
    using emb_turn [OF assms Suc.prems, of "snd sw"] by auto
  have "emb_run E img m s'"
    using emb_run_loop [OF assms(2,3), of m "fst sw" "snd sw" "()" s' w'] Suc.prems(1) 1(1) by simp
  then show ?case using Suc.IH [of "(s', w')"] 1 by simp
qed simp



section \<open>Ways to go wrong\<close>

text \<open>An image of length zero stops the firmware: if the reader reports no bytes, initialisation succeeds, and the
  next turn that publishes its progress divides by zero (the sum of the number of bytes and of sectors is zero).\<close>

theorem empty_image_divides_by_zero:
  assumes "run_state (init_flashing E) (s, w) = (True, (s1, w1))" and "requested_action s1 \<noteq> ACTION_FULL_ERASE"
    and "total_number_of_bytes s1 = 0" and "erasing_step E (s1\<lparr>fl_state := FLASHER_ERASING\<rparr>, w1) = Some (r, (s2, w2))"
    and "fst (sat_millis E w2) - last_published s1 > 1000" and "fl_state s = FLASHER_INITIALIZING"
  shows "flasher_loop E (s, w) = Some ((), (s1\<lparr>fl_state := FLASHER_ERASING\<rparr>, w1)) \<and>
    flasher_loop E (s1\<lparr>fl_state := FLASHER_ERASING\<rparr>, w1) = None"
proof -
  let ?i = "snd (run_state (init_flasher E) (s, w))"
  have "fst (run_state (init_flasher E) (s, w))" by (simp add: init_flasher_def case_prod_beta)
  then have "total_sectors_to_erase s1 = size_in_sectors (total_number_of_bytes s1)"
    using assms(1,2) by (auto simp: init_flashing_def case_prod_beta split: if_splits)
  then have z: "total_number_of_bytes s1 = 0" "total_sectors_to_erase s1 = 0"
    using assms(3) by (simp_all add: size_in_sectors_def size_in_pages_def FLASH_PAGE_SIZE_def FLASH_SECTOR_SIZE_def)
  obtain c e where s2: "s2 = s1\<lparr>fl_state := FLASHER_ERASING, current_sector := c, error_code := e\<rparr>"
    using erasing_step_obj [OF assms(4)] by auto
  have "publish_progress E (s2, w2) = None"
    using assms(2,5) z by (simp add: publish_progress_def s2 Let_def)
  then show ?thesis
    using assms(1,4,6) by (simp add: flasher_loop_def set_fl_state_def)
qed

text \<open>C39: a failed erasure leaves the flasher's resources and the hub behind: when a sector cannot be erased, the turn goes
  to the error state without \<open>deinit_flashing_\<close>, the next turn to idle, and the hub is still in direct access mode, so
  that every later transfer on it is refused; the reader and the buffers stay allocated.\<close>

theorem erase_error_keeps_direct_access:
  assumes "fl_state s = FLASHER_ERASING" and "spi_flash_direct_access_enabled (fl_parent s)"
    and "erasing_step E (s, w) = Some (r, (s1, w1))" and "r < 0" and "publish_progress E (s1, w1) = Some ((), (s2, w2))"
  shows "\<exists>s' w'. loop_turns E 2 (s, w) = Some (s', w') \<and> fl_state s' = FLASHER_IDLE \<and>
    fl_reader s' = fl_reader s \<and> reader_buffer s' = reader_buffer s \<and> compare_buffer s' = compare_buffer s \<and>
    (\<forall>res cmd payload n. fst (run_state (transfer (sat_env_of E) res cmd payload n) (fl_parent s', w')) = (False, payload))"
proof -
  have s2: "fl_parent s2 = fl_parent s" "fl_reader s2 = fl_reader s" "reader_buffer s2 = reader_buffer s"
    "compare_buffer s2 = compare_buffer s"
    using erasing_step_obj [OF assms(3)] publish_progress_obj [OF assms(5)] by auto
  have "flasher_loop E (s, w) = Some ((), (s2\<lparr>fl_state := FLASHER_ERROR_STATE\<rparr>, w2))"
    using assms by (simp add: flasher_loop_def set_fl_state_def)
  moreover have "\<exists>w'. flasher_loop E (s2\<lparr>fl_state := FLASHER_ERROR_STATE\<rparr>, w2) = Some ((), (s2\<lparr>fl_state := FLASHER_IDLE\<rparr>, w'))"
    by (simp add: flasher_loop_def set_fl_state_def total_run_def mf_publish_def)
  ultimately obtain w' where "loop_turns E 2 (s, w) = Some (s2\<lparr>fl_state := FLASHER_IDLE\<rparr>, w')"
    by (auto simp: numeral_2_eq_2)
  then show ?thesis
    using s2 assms(2) by (intro exI [of _ "s2\<lparr>fl_state := FLASHER_IDLE\<rparr>"] exI [of _ w']) (simp add: transfer_def)
qed

text \<open>A chip that refuses to be written (its status is 0), and a container that reports no content.\<close>

definition ex_protected :: "nat flash_env" where
  "ex_protected = ex_flash_env\<lparr>spi_byte := (\<lambda>b w. (0, w + 1)), sat_millis := (\<lambda>w. (5000, w)),
     http_content_length := (\<lambda>c w. 0)\<rparr>"

lemma ex_protected_status: "run_state (read_flash_status ex_protected) (s, w) = (0, (s, w + 2))"
  by (simp add: read_flash_status_def enable_spi_def disable_spi_def transfer_byte_def ex_protected_def ex_flash_env_def)

lemma ex_protected_wait: "wait_while_flash_busy ex_protected 1 (s, w) = Some (True, (s, w + 2))"
proof -
  have m: "sat_millis ex_protected w = (5000, w)" for w by (simp add: ex_protected_def)
  show ?thesis
    by (simp add: wait_while_flash_busy_def m) (subst busy_loop.simps; simp add: Let_def m ex_protected_status)
qed

lemma ex_protected_erase: "run_state (erase_sector ex_protected n) (s, w) = (False, (s, w + 3))"
proof -
  have "spi_enable ex_protected w = w" "spi_disable ex_protected w = w" "spi_byte ex_protected b w = (0, w + 1)" for b w
    by (simp_all add: ex_protected_def ex_flash_env_def)
  then show ?thesis
    by (simp add: erase_sector_def enable_writing_def ex_protected_status enable_spi_def disable_spi_def transfer_byte_def)
qed

theorem erase_error_keeps_direct_access_witness:
  "\<exists>s' w'. loop_turns ex_protected 2 (ex_idle\<lparr>fl_state := FLASHER_ERASING, total_sectors_to_erase := 1,
       fl_parent := (fl_parent ex_idle)\<lparr>spi_flash_direct_access_enabled := True\<rparr>\<rparr>, 0) = Some (s', w') \<and>
     fl_state s' = FLASHER_IDLE \<and>
     fst (run_state (transfer (sat_env_of ex_protected) 1 2 [3] 1) (fl_parent s', w')) = (False, [3])"
proof -
  let ?s = "ex_idle\<lparr>fl_state := FLASHER_ERASING, total_sectors_to_erase := 1,
    fl_parent := (fl_parent ex_idle)\<lparr>spi_flash_direct_access_enabled := True\<rparr>\<rparr>"
  have c: "current_sector ex_idle = -1" "last_published ex_idle = 0" "requested_action ex_idle = ACTION_FULL_ERASE"
    by (simp_all add: ex_idle_def ex_xf_def xflash_init_def mflash_init_def mflash.defs)
  let ?s1 = "?s\<lparr>current_sector := 0, error_code := WRITE_TO_FLASH_ERROR\<rparr>"
  have er: "erasing_step ex_protected (?s, 0) = Some (-1, (?s1, 5))"
    by (simp add: erasing_step_def ex_protected_wait ex_protected_erase c Let_def)
  have m: "sat_millis ex_protected w = (5000, w)" for w by (simp add: ex_protected_def)
  obtain s2 w2 where pp: "publish_progress ex_protected (?s1, 5) = Some ((), (s2, w2))"
    by (simp add: publish_progress_def m c Let_def total_run_def mf_publish_def)
  show ?thesis using erase_error_keeps_direct_access [OF _ _ er _ pp] by auto
qed

theorem empty_image_divides_by_zero_witness:
  "\<exists>s1 w1. flasher_loop ex_protected (ex_idle\<lparr>fl_state := FLASHER_INITIALIZING, http_request := True, fl_url := ''u'',
       requested_action := ACTION_FLASH_REMOTE_IMAGE\<rparr>, 0) = Some ((), (s1, w1)) \<and> flasher_loop ex_protected (s1, w1) = None"
proof -
  let ?s = "ex_idle\<lparr>fl_state := FLASHER_INITIALIZING, http_request := True, fl_url := ''u'',
    requested_action := ACTION_FLASH_REMOTE_IMAGE\<rparr>"
  obtain s1 w1 where i: "run_state (init_flashing ex_protected) (?s, 0) = (True, (s1, w1))"
    and s1: "requested_action s1 \<noteq> ACTION_FULL_ERASE" "total_number_of_bytes s1 = 0" "last_published s1 = 0"
      "total_sectors_to_erase s1 = 0" "current_sector s1 = -1"
    by (simp add: ex_idle_def ex_xf_def xflash_init_def mflash_init_def mflash.defs
      init_flashing_def init_flasher_def on_parent_def set_spi_flash_direct_access_mode_def call_state_callback_def
      read_jedec_id_def enable_spi_def disable_spi_def transfer_byte_def sat_env_of_def sat_env.defs
      init_reader_def get_image_size_def ex_protected_def ex_flash_env_def size_in_sectors_def size_in_pages_def
      FLASH_PAGE_SIZE_def FLASH_SECTOR_SIZE_def case_prod_beta)
  have er: "erasing_step ex_protected (s1\<lparr>fl_state := FLASHER_ERASING\<rparr>, w1) =
      Some (0, (s1\<lparr>fl_state := FLASHER_ERASING, current_sector := 0\<rparr>, w1 + 2))"
    using s1 by (simp add: erasing_step_def ex_protected_wait sectors_left_def)
  have m: "fst (sat_millis ex_protected (w1 + 2)) - last_published s1 > 1000" by (simp add: ex_protected_def s1(3))
  show ?thesis using empty_image_divides_by_zero [OF i s1(1,2) er m] by auto
qed

end
