(* ===== verification/Xmos_Flash_Remote.thy ===== *)
theory Xmos_Flash_Remote
  imports Xmos_Flash_Image
begin

text \<open>
  Whole runs of the XMOS flasher on an image that is downloaded: what has been read so far is in the flash and in the MD5 sum, whatever the
  reader delivers, and a run that reports success has written and checked as many bytes as the server announced.

  Named hypotheses: \<open>malloc_law\<close>, \<open>nor_flash\<close>, and \<open>http_law\<close> (a read delivers at most what it was asked for; the HTTP client does not
  touch the flash chip).
\<close>

definition http_law :: "'w flash_env \<Rightarrow> ('w \<Rightarrow> nat \<Rightarrow> u8) \<Rightarrow> bool" where
  "http_law E mem \<longleftrightarrow>
     (\<forall>c k w n bs w'. http_read E c k w = ((n, bs), w') \<longrightarrow> n \<le> int k \<and> length bs \<le> k \<and> mem w' = mem w) \<and>
     (\<forall>c w. mem (http_end E c w) = mem w)"

lemma sint_word_of_int: "- 2147483648 \<le> i \<Longrightarrow> i < 2147483648 \<Longrightarrow> sint (word_of_int i :: u32) = i"
  by (simp add: signed_of_int signed_take_bit_int_eq_self)

lemma uint_le_unat: "unat (x :: u32) \<le> k \<Longrightarrow> 0 \<le> uint x \<and> uint x \<le> int k"
  by (metis of_nat_unat of_nat_le_iff of_nat_0_le_iff)

lemma sint_small:
  fixes x :: u32
  assumes "unat x \<le> 2 ^ 24"
  shows "sint x = uint x"
  using sint_word_of_int [of "uint x"] uint_le_unat [OF assms] by auto

lemma read_block_bounds:
  assumes "http_law E mem" and "read_image_block E rd FLASH_PAGE_SIZE w = Some (n, bs, rd', w1)" and "0 \<le> n"
  shows "n \<le> 256 \<and> length bs \<le> 256 \<and> mem w1 = mem w"
proof (cases rd)
  case (HttpImageReader http url c)
  then obtain k where "http_read E k 256 w = ((n, bs), w1)"
    using assms(2) by (auto simp: read_image_block_def FLASH_PAGE_SIZE_def split: option.splits prod.splits)
  then show ?thesis using assms(1) unfolding http_law_def by fastforce
next
  case (EmbeddedImageReader img pos)
  let ?k = "if fi_length img - pos \<ge> 256 then 256 else fi_length img - pos"
  have n: "n = sint ?k" "bs = take (unat ?k) (drop (unat pos) (fi_data img))" "w1 = w"
    using assms(2) by (auto simp: read_image_block_def EmbeddedImageReader embedded_read_def FLASH_PAGE_SIZE_def Let_def)
  have k: "unat ?k \<le> 256" by (simp add: word_le_nat_alt)
  then have "sint ?k = uint ?k" by (intro sint_small) simp
  then show ?thesis using k n uint_le_unat [OF k] by auto
qed

section \<open>The invariant of a job\<close>

text \<open>Everything read so far is in front of the page position: it has gone into the MD5 sum and is in the flash.\<close>

definition job_inv :: "('w \<Rightarrow> nat \<Rightarrow> u8) \<Rightarrow> string \<Rightarrow> xflash \<Rightarrow> 'w \<Rightarrow> bool" where
  "job_inv mem m s w \<longleftrightarrow>
     fl_reader s \<noteq> None \<and> (\<exists>b. reader_buffer s = Some b \<and> length b = 256) \<and> (\<exists>b. compare_buffer s = Some b \<and> length b = 256) \<and>
     md5_expected s = m \<and> requested_action s \<noteq> ACTION_FULL_ERASE \<and> 256 dvd length (md5_receive s) \<and>
     page_pos s = int (length (md5_receive s)) \<and>
     (md5_receive s = [] \<or> length (md5_receive s) < unat (total_number_of_bytes s)) \<and>
     bytes_remaining s = total_number_of_bytes s - of_nat (length (md5_receive s)) \<and>
     (\<forall>i<length (md5_receive s). mem w i = md5_receive s ! i)"

definition job_done :: "'w flash_env \<Rightarrow> ('w \<Rightarrow> nat \<Rightarrow> u8) \<Rightarrow> string \<Rightarrow> u32 \<Rightarrow> 'w \<Rightarrow> bool" where
  "job_done E mem m len w \<longleftrightarrow>
     (\<exists>image. length image = unat len \<and> strncmp_eq MD5_SIZE (md5_hex E image) m \<and> (\<forall>i<length image. mem w i = image ! i))"

lemma remaining_after:
  fixes n :: int and R :: u32
  assumes "unat R \<le> 2 ^ 24" "0 \<le> n" "n \<le> 256" "0 \<le> sint (R - word_of_int n)"
  shows "n \<le> int (unat R)" "unat (R - word_of_int n) = unat R - nat n" "sint (R - word_of_int n) = int (unat R) - n"
proof -
  have eq: "R - word_of_int n = word_of_int (int (unat R) - n)" by (simp add: wi_hom_syms)
  have s: "sint (R - word_of_int n) = int (unat R) - n"
    unfolding eq
  proof (rule sint_word_of_int)
    have "unat R \<le> 16777216" using assms(1) by simp
    then show "- 2147483648 \<le> int (unat R) - n" "int (unat R) - n < 2147483648" using assms(2,3) by linarith+
  qed
  then show "sint (R - word_of_int n) = int (unat R) - n" "n \<le> int (unat R)" using assms(4) by simp_all
  then have n: "nat n \<le> unat R" using assms(2) by linarith
  then have "R - word_of_int n = of_nat (unat R - nat n)" using assms(2) by (simp add: of_nat_diff)
  moreover have "unat R - nat n < 2 ^ 32" using assms(1) by simp
  ultimately show "unat (R - word_of_int n) = unat R - nat n" by (simp add: unsigned_of_nat take_bit_nat_eq_self_iff)
qed

section \<open>One turn of flashing\<close>

lemma job_flashing:
  assumes law: "nor_flash E cur mem" "http_law E mem" and inv: "job_inv mem m s w" and small: "unat (total_number_of_bytes s) \<le> 2 ^ 24"
    and run: "flashing_step E (s, w) = Some (r, (s', w'))" and r: "0 \<le> r"
  shows "(if r = 0 then job_done E mem m (total_number_of_bytes s') w' else job_inv mem m s' w') \<and> run_frame s' = run_frame s"
proof -
  let ?D = "md5_receive s" and ?T = "total_number_of_bytes s"
  obtain rd buf cbuf where b: "fl_reader s = Some rd" "reader_buffer s = Some buf" "length buf = 256" "compare_buffer s = Some cbuf"
      "length cbuf = 256"
    and I: "md5_expected s = m" "requested_action s \<noteq> ACTION_FULL_ERASE" "256 dvd length ?D" "page_pos s = int (length ?D)"
      "?D = [] \<or> length ?D < unat ?T" "bytes_remaining s = ?T - of_nat (length ?D)" "\<And>i. i < length ?D \<Longrightarrow> mem w i = ?D ! i"
    using inv by (auto simp: job_inv_def)
  obtain n bs rd' w1 mc s3 s4 where
    f1: "read_image_block E rd FLASH_PAGE_SIZE w = Some (n, bs, rd', w1)" "0 \<le> n" "n = 256 \<or> bytes_remaining s - word_of_int n = 0"
    and f2: "s' = s\<lparr>fl_reader := Some rd', md5_receive := ?D @ take (nat n) (write_at 0 bs buf),
      bytes_remaining := bytes_remaining s - word_of_int n, reader_buffer := Some (page_of n bs buf),
      compare_buffer := Some (page_of n bs buf), page_pos := page_pos s + 256, md5_computed := mc\<rparr>"
    and f3: "r = sint (bytes_remaining s - word_of_int n)" "bytes_remaining s - word_of_int n = 0 \<longrightarrow>
       strncmp_eq MD5_SIZE (md5_hex E (?D @ take (nat n) (write_at 0 bs buf))) (md5_expected s)"
      "program_page E (word_of_int (page_pos s)) (page_of n bs buf) (s3, w1) = Some (True, (s4, w'))"
    using flashing_step_ok [OF run r b(1,2,4,5)] unfolding Let_def by blast
  note bd = read_block_bounds [OF law(2) f1(1,2)]
  let ?new = "take (nat n) (write_at 0 bs buf)"
  have wl: "length (write_at 0 bs buf) = 256" using bd b(3) by (simp add: write_at_def)
  have n256: "nat n \<le> 256" using bd by linarith
  then have nl: "length ?new = nat n" using wl by simp
  have le: "length ?D \<le> unat ?T" using I(5) by auto
  have R: "unat (bytes_remaining s) = unat ?T - length ?D"
  proof -
    have "bytes_remaining s = of_nat (unat ?T - length ?D)" using I(6) le by (simp add: of_nat_diff)
    moreover have "unat ?T - length ?D < 2 ^ 32" using small by simp
    ultimately show ?thesis by (simp add: unsigned_of_nat take_bit_nat_eq_self_iff)
  qed
  have small': "unat (bytes_remaining s) \<le> 2 ^ 24" using R small by simp
  note rem = remaining_after [OF small' f1(2) bd [THEN conjunct1] r [unfolded f3(1)]]
  have rr: "nat n \<le> unat ?T - length ?D" "r = int (unat ?T - length ?D) - n"
    using rem(1,3) f3(1) R by linarith+
  have lt: "length ?D < 2 ^ 24" using I(5) small by auto
  have a: "word_of_int (page_pos s) = (of_nat (length ?D) :: u32)" "unat (of_nat (length ?D) :: u32) = length ?D"
    using I(4) lt by (simp_all add: unsigned_of_nat take_bit_nat_eq_self_iff)
  have prog: "page_of n bs buf = map (mem w') [length ?D..<length ?D + 256]"
      "\<And>i. i div 256 \<noteq> length ?D div 256 \<Longrightarrow> mem w' i = mem w1 i"
    using nor_program_page [OF law(1) _ aligned_and f3(3) [unfolded a(1)], unfolded a(2)] lt I(3) a(2)
    by (simp_all add: word_less_nat_alt)
  have new: "mem w' i = (?D @ ?new) ! i" if "i < length ?D + nat n" for i
  proof (cases "i < length ?D")
    case True
    then have "i div 256 < length ?D div 256" using I(3) by (auto simp: less_mult_imp_div_less)
    then show ?thesis using prog(2) [of i] I(7) [OF True] bd True by (simp add: nth_append)
  next
    case False
    then have k: "i - length ?D < nat n" "i - length ?D < 256" using that bd by auto
    have "mem w' i = page_of n bs buf ! (i - length ?D)" using k(2) False by (subst prog(1)) simp
    also have "\<dots> = ?new ! (i - length ?D)" using k bd wl by (auto simp: page_of_def Let_def FLASH_PAGE_SIZE_def nth_append)
    finally show ?thesis using False by (simp add: nth_append)
  qed
  have fr: "run_frame s' = run_frame s" by (simp add: f2)
  show ?thesis
  proof (cases "r = 0")
    case True
    then have "bytes_remaining s - word_of_int n = 0" using f3(1) by (simp add: signed_eq_0_iff)
    moreover have "length ?D + nat n = unat ?T" using rr True f1(2) le by linarith
    ultimately have "job_done E mem m ?T w'"
      unfolding job_done_def using new nl f3(2) I(1) by (intro exI [of _ "?D @ ?new"]) simp
    then show ?thesis using True fr by (simp add: run_frame_def)
  next
    case False
    then have 256: "n = 256" using f1(3) f3(1) by auto
    have "length ?D + 256 < unat ?T" using rr(2) False 256 r by linarith
    then have "job_inv mem m s' w'"
      using new nl 256 I wl b(3) bd length_page_of [OF b(3), of bs 256]
      by (simp add: job_inv_def f2 algebra_simps)
    then show ?thesis using False fr by simp
  qed
qed

section \<open>Whole runs\<close>

lemma job_deinit:
  assumes "nor_flash E cur mem" "http_law E mem"
  shows "mem (snd (snd (run_state (deinit_flashing E) (s, w)))) = mem w"
    "total_number_of_bytes (fst (snd (run_state (deinit_flashing E) (s, w)))) = total_number_of_bytes s"
proof -
  have "mem (deinit_reader E rd w) = mem w" for rd w
    using assms(2) by (simp add: deinit_reader_def http_law_def split: image_reader.split option.split)
  then show "mem (snd (snd (run_state (deinit_flashing E) (s, w)))) = mem w"
    using assms(1)
    by (cases "fl_reader s") (simp_all add: deinit_flashing_def deinit_flasher_def on_parent_def set_spi_flash_direct_access_mode_def
        call_state_callback_def sat_env_of_def sat_env.truncate_def nor_flash_def case_prod_beta)
  show "total_number_of_bytes (fst (snd (run_state (deinit_flashing E) (s, w)))) = total_number_of_bytes s"
    by (cases "fl_reader s") (simp_all add: deinit_flashing_def deinit_flasher_def on_parent_def case_prod_beta)
qed

definition job_run :: "'w flash_env \<Rightarrow> ('w \<Rightarrow> nat \<Rightarrow> u8) \<Rightarrow> string \<Rightarrow> xflash \<Rightarrow> 'w \<Rightarrow> bool" where
  "job_run E mem m s w \<longleftrightarrow>
     (case fl_state s of
        FLASHER_INITIALIZING \<Rightarrow> requested_action s \<noteq> ACTION_FULL_ERASE \<and> md5_expected s = m
      | FLASHER_ERASING \<Rightarrow> job_inv mem m s w \<and> md5_receive s = []
      | FLASHER_FLASHING \<Rightarrow> unat (total_number_of_bytes s) \<le> 2 ^ 24 \<longrightarrow> job_inv mem m s w
      | FLASHER_SUCCESS_STATE \<Rightarrow> unat (total_number_of_bytes s) \<le> 2 ^ 24 \<longrightarrow> job_done E mem m (total_number_of_bytes s) w
      | _ \<Rightarrow> True)"

lemma job_inv_upd [simp]:
  "job_inv mem m (s\<lparr>current_sector := c\<rparr>) w = job_inv mem m s w" "job_inv mem m (s\<lparr>error_code := e\<rparr>) w = job_inv mem m s w"
  "job_inv mem m (s\<lparr>flashing_progress := p\<rparr>) w = job_inv mem m s w" "job_inv mem m (s\<lparr>last_published := t\<rparr>) w = job_inv mem m s w"
  "job_inv mem m (s\<lparr>fl_state := st\<rparr>) w = job_inv mem m s w"
  by (simp_all add: job_inv_def)

lemma job_init:
  assumes "malloc_law E" and "requested_action s \<noteq> ACTION_FULL_ERASE" "md5_expected s = m"
    and "run_state (init_flashing E) (s, w) = (True, (s', w'))"
  shows "job_inv mem m s' w'' \<and> md5_receive s' = []"
proof -
  let ?i = "snd (run_state (init_flasher E) (s, w))"
  have i: "requested_action (fst ?i) = requested_action s" "md5_expected (fst ?i) = md5_expected s"
    "fst (run_state (init_flasher E) (s, w))"
    by (simp_all add: init_flasher_def on_parent_def read_jedec_id_def case_prod_beta)
  have len: "\<And>w b. fst (malloc_page E w) = Some b \<Longrightarrow> length b = 256" using assms(1) by (simp add: malloc_law_def)
  show ?thesis
    using assms(2-4) i len by (auto simp: init_flashing_def case_prod_beta job_inv_def split: if_splits)
qed

lemma job_publish:
  assumes "nor_flash E cur mem" and "publish_progress E (s, w) = Some (u, (s', w'))"
  shows "job_inv mem m s' w' = job_inv mem m s w" "total_number_of_bytes s' = total_number_of_bytes s" "fl_state s' = fl_state s"
    "mem w' = mem w"
proof -
  show m: "mem w' = mem w" by (rule nor_publish [OF assms])
  obtain p t where "s' = s\<lparr>flashing_progress := p, last_published := t\<rparr>" using publish_progress_obj [OF assms(2)] by blast
  then show "job_inv mem m s' w' = job_inv mem m s w" "total_number_of_bytes s' = total_number_of_bytes s" "fl_state s' = fl_state s"
    using m by (simp_all add: job_inv_def)
qed

lemma job_run_flashing:
  assumes law: "nor_flash E cur mem" "http_law E mem" and st: "fl_state s = FLASHER_FLASHING"
    and inv: "job_run E mem m s w" and run: "flasher_loop E (s, w) = Some (u, (s', w'))"
  shows "job_run E mem m s' w'"
proof -
  obtain r s1 w1 s2 w2 where fl: "flashing_step E (s, w) = Some (r, (s1, w1))"
    and pp: "publish_progress E (s1, w1) = Some ((), (s2, w2))"
    using run st by (auto simp: flasher_loop_def bind_eq_Some_conv)
  have fr: "run_frame s1 = run_frame s" using flashing_step_frame [OF fl] .
  note P = job_publish [OF law(1) pp]
  have T: "total_number_of_bytes s2 = total_number_of_bytes s" using fr P(2) by (simp add: run_frame_def)
  have step: "if r = 0 then job_done E mem m (total_number_of_bytes s) w2 else job_inv mem m s2 w2"
    if "unat (total_number_of_bytes s) \<le> 2 ^ 24" "0 \<le> r"
    using job_flashing [OF law _ that(1) fl that(2)] inv st that(1) fr P(1,4) by (auto simp: job_run_def run_frame_def job_done_def)
  consider "r < 0" | "r = 0" | "0 < r" by linarith
  then show ?thesis
  proof cases
    case 1
    then have "fl_state s' = FLASHER_ERROR_STATE"
      using run st fl pp by (auto simp: flasher_loop_def set_fl_state_def total_run_def case_prod_beta)
    then show ?thesis by (simp add: job_run_def)
  next
    case 2
    then have "fl_state s' = FLASHER_SUCCESS_STATE" "w' = snd (snd (run_state (deinit_flashing E) (s2, w2)))"
      "total_number_of_bytes s' = total_number_of_bytes (fst (snd (run_state (deinit_flashing E) (s2, w2))))"
      using run st fl pp by (auto simp: flasher_loop_def set_fl_state_def total_run_def case_prod_beta)
    then show ?thesis using job_deinit [OF law] T step 2 by (simp add: job_run_def job_done_def)
  next
    case 3
    then have "s' = s2" "w' = w2" using run st fl pp by (auto simp: flasher_loop_def)
    then show ?thesis using step 3 T P(3) fr st by (simp add: job_run_def run_frame_def)
  qed
qed

lemma job_run_loop:
  assumes law: "malloc_law E" "nor_flash E cur mem" "http_law E mem" and inv: "job_run E mem m s w"
    and run: "flasher_loop E (s, w) = Some (u, (s', w'))"
  shows "job_run E mem m s' w'"
proof (cases "fl_state s")
  case FLASHER_INITIALIZING
  then have pre: "requested_action s \<noteq> ACTION_FULL_ERASE" "md5_expected s = m" using inv by (simp_all add: job_run_def)
  obtain ok s1 w1 where i: "run_state (init_flashing E) (s, w) = (ok, (s1, w1))" by (metis prod.exhaust)
  have "if ok then s' = s1\<lparr>fl_state := FLASHER_ERASING\<rparr> else fl_state s' = FLASHER_ERROR_STATE"
    using run FLASHER_INITIALIZING i by (auto simp: flasher_loop_def set_fl_state_def total_run_def case_prod_beta)
  then show ?thesis using job_init [OF law(1) pre, of w s1 w1 mem w'] i by (cases ok) (simp_all add: job_run_def)
next
  case FLASHER_ERASING
  then have pre: "job_inv mem m s w" "md5_receive s = []" "requested_action s \<noteq> ACTION_FULL_ERASE"
    using inv by (simp_all add: job_run_def job_inv_def)
  have "job_inv mem m s w'" using pre(1,2) by (simp add: job_inv_def)
  then show ?thesis
    using flasher_loop_erasing [OF run FLASHER_ERASING pre(3)] pre(2) by (auto simp: job_run_def)
next
  case FLASHER_FLASHING
  then show ?thesis by (rule job_run_flashing [OF law(2,3) _ inv run])
qed (use run inv in \<open>auto simp: flasher_loop_def job_run_def set_fl_state_def total_run_def case_prod_beta\<close>)

lemma job_run_turns:
  assumes "malloc_law E" "nor_flash E cur mem" "http_law E mem"
  shows "job_run E mem m (fst sw) (snd sw) \<Longrightarrow> loop_turns E n sw = Some sw' \<Longrightarrow> job_run E mem m (fst sw') (snd sw')"
proof (induction n arbitrary: sw)
  case (Suc n)
  obtain sw1 where 1: "flasher_loop E sw = Some ((), sw1)" "loop_turns E n sw1 = Some sw'"
    using Suc.prems(2) by (auto simp: bind_eq_Some_conv)
  have "job_run E mem m (fst sw1) (snd sw1)"
    using job_run_loop [OF assms, of m "fst sw" "snd sw" "()" "fst sw1" "snd sw1"] Suc.prems(1) 1(1) by simp
  then show ?case using Suc.IH 1(2) by blast
qed simp


lemma ex_http_law: "http_law ex_nor_env (\<lambda>w i. 2)"
  by (auto simp: http_law_def ex_nor_env_def)

definition ex_remote :: xflash where
  "ex_remote = ex_xf\<lparr>fl_url := ''u'', http_request := True, md5_expected := ''abc''\<rparr>"

lemma ex_remote_init:
  "\<exists>s1 w1. flasher_loop ex_nor_env (ex_remote\<lparr>requested_action := ACTION_FLASH_REMOTE_IMAGE, fl_state := FLASHER_INITIALIZING\<rparr>, []) =
     Some ((), (s1, w1)) \<and> fl_state s1 = FLASHER_ERASING \<and> total_sectors_to_erase s1 = 1 \<and> current_sector s1 = -1 \<and>
    fl_reader s1 = Some (HttpImageReader True ''u'' (Some 0)) \<and> reader_buffer s1 = Some (replicate 256 0) \<and>
    compare_buffer s1 = Some (replicate 256 0) \<and> bytes_remaining s1 = 256 \<and> page_pos s1 = 0 \<and> md5_expected s1 = ''abc'' \<and>
    requested_action s1 \<noteq> ACTION_FULL_ERASE \<and> last_published s1 = 0 \<and> total_number_of_bytes s1 = 256"
proof -
  have "http_get ex_nor_env u w = (Some 0, w)" "http_content_length ex_nor_env c w = 256" for u c w by (simp_all add: ex_nor_env_def)
  then show ?thesis
    by (simp add: flasher_loop_def ex_remote_def ex_xf_def xflash_init_def mflash_init_def mflash.defs
        init_flashing_def init_flasher_def on_parent_def set_spi_flash_direct_access_mode_def call_state_callback_def
        read_jedec_id_def enable_spi_def disable_spi_def transfer_byte_def ex_nor_sel sat_env_of_def sat_env.defs
        init_reader_def get_image_size_def size_in_sectors_def size_in_pages_def FLASH_PAGE_SIZE_def
        FLASH_SECTOR_SIZE_def set_fl_state_def case_prod_beta)
qed


end
