(* ===== verification/Xmos_Full_Erase.thy ===== *)
theory Xmos_Full_Erase
  imports Xmos_Flash_Remote
begin

text \<open>
  Erasing the whole flash (\<open>erase_memory\<close>, the state \<open>FLASHER_ERASING\<close> of the main loop): when the flasher reports success, every byte of the
  chip is erased. The chip erases a sector only if writing is enabled and no earlier erasure is still going on, so the proof is about the
  two status checks the code makes before each command.

  Named hypothesis: \<open>erasable\<close>, the chip of \<open>nor_flash\<close> with its status register and the sector-erase command.
\<close>

section \<open>The chip\<close>

text \<open>\<open>busy\<close> and \<open>wel\<close> are the two status bits: an operation is going on, writing is enabled. \<open>mem\<close> is what the chip holds once the operation is over.
  An idle chip stays idle while bytes come in, and until a command that writes; reading the status (\<open>0x05\<close>) answers both bits; the command \<open>0x20\<close> erases the
  sector of its address if the chip is idle and writing is enabled.\<close>

definition erasable ::
    "'w flash_env \<Rightarrow> ('w \<Rightarrow> u8 list) \<Rightarrow> ('w \<Rightarrow> nat \<Rightarrow> u8) \<Rightarrow> ('w \<Rightarrow> bool) \<Rightarrow> ('w \<Rightarrow> bool) \<Rightarrow> bool" where
  "erasable E cur mem busy wel \<longleftrightarrow> nor_flash E cur mem \<and>
     (\<forall>w. (busy (spi_enable E w) \<longrightarrow> busy w) \<and> wel (spi_enable E w) = wel w) \<and>
     (\<forall>b w. (busy (snd (spi_byte E b w)) \<longrightarrow> busy w) \<and> wel (snd (spi_byte E b w)) = wel w) \<and>
     (\<forall>b w. cur w = [0x05] \<longrightarrow> (busy w \<longrightarrow> fst (spi_byte E b w) AND 1 \<noteq> 0) \<and> (\<not> wel w \<longrightarrow> fst (spi_byte E b w) AND 2 = 0)) \<and>
     (\<forall>w. cur w = [0x05, 0] \<longrightarrow> (busy (spi_disable E w) \<longrightarrow> busy w) \<and> wel (spi_disable E w) = wel w) \<and>
     (\<forall>w. cur w = [0x06] \<longrightarrow> busy (spi_disable E w) \<longrightarrow> busy w) \<and>
     (\<forall>w i. hd (cur w) = 0x20 \<and> length (cur w) = 4 \<and> wel w \<and> \<not> busy w \<longrightarrow>
        mem (spi_disable E w) i = (if i div 4096 = frame_addr (cur w) div 4096 then 0xFF else mem w i))"

lemma erasable_nor: "erasable E cur mem busy wel \<Longrightarrow> nor_flash E cur mem"
  by (simp add: erasable_def)

lemma erasable_stays:
  assumes "erasable E cur mem busy wel"
  shows "busy (spi_enable E w) \<Longrightarrow> busy w" "wel (spi_enable E w) = wel w"
    "busy (snd (spi_byte E b w)) \<Longrightarrow> busy w" "wel (snd (spi_byte E b w)) = wel w"
  using assms unfolding erasable_def by blast+

lemma erasable_send:
  assumes "erasable E cur mem busy wel"
  shows "wel (snd (snd (run_state (send_bytes E bs) sw))) = wel (snd sw)"
    "busy (snd (snd (run_state (send_bytes E bs) sw))) \<Longrightarrow> busy (snd sw)"
proof -
  have "wel (snd (snd (run_state (send_bytes E bs) sw))) = wel (snd sw) \<and>
      (busy (snd (snd (run_state (send_bytes E bs) sw))) \<longrightarrow> busy (snd sw))"
  proof (induction bs arbitrary: sw)
    case (Cons b bs)
    show ?case
      using Cons [of "(fst sw, snd (spi_byte E b (snd sw)))"] erasable_stays(3,4) [OF assms, of b "snd sw"]
      by (simp add: transfer_byte_def case_prod_beta)
  qed simp
  then show "wel (snd (snd (run_state (send_bytes E bs) sw))) = wel (snd sw)"
    "busy (snd (snd (run_state (send_bytes E bs) sw))) \<Longrightarrow> busy (snd sw)" by simp_all
qed

text \<open>Reading the status: what the answer says holds before and after.\<close>

lemma erasable_status:
  assumes law: "erasable E cur mem busy wel" and run: "run_state (read_flash_status E) sw = (st, sw')"
  shows "st AND 1 = 0 \<Longrightarrow> \<not> busy (snd sw')" "st AND 2 \<noteq> 0 \<Longrightarrow> wel (snd sw')" "busy (snd sw') \<Longrightarrow> busy (snd sw)"
proof -
  let ?w1 = "spi_enable E (snd sw)"
  let ?w2 = "snd (spi_byte E 5 ?w1)"
  let ?w3 = "snd (spi_byte E 0 ?w2)"
  have nor: "nor_flash E cur mem" by (rule erasable_nor [OF law])
  have c: "cur ?w2 = [5]" "cur ?w3 = [5, 0]" using nor by (simp_all add: nor_flash_def)
  have r: "st = fst (spi_byte E 0 ?w2)" "snd sw' = spi_disable E ?w3"
    using run by (auto simp: read_flash_status_def enable_spi_def disable_spi_def transfer_byte_def)
  have b: "busy (snd sw') \<longrightarrow> busy ?w2" "busy ?w2 \<longrightarrow> busy (snd sw)" "wel (snd sw') = wel ?w2"
    using law c unfolding r erasable_def by metis+
  show "\<not> busy (snd sw')" if "st AND 1 = 0" using law c(1) b(1) that unfolding r(1) erasable_def by metis
  show "wel (snd sw')" if "st AND 2 \<noteq> 0" using law c(1) b(3) that unfolding r(1) erasable_def by metis
  show "busy (snd sw')\<Longrightarrow> busy (snd sw)" using b by blast
qed

lemma busy_loop_ready:
  assumes "busy_loop E t0 T sw = Some (True, sw')"
  shows "\<exists>x. fst (run_state (read_flash_status E) x) AND 1 = 0 \<and> sw' = snd (run_state (read_flash_status E) x)"
proof -
  let ?P = "\<lambda>E' t0 T sw y. E' = E \<longrightarrow> fst y \<longrightarrow> (\<exists>x. fst (run_state (read_flash_status E) x) AND 1 = 0 \<and> snd y = snd (run_state (read_flash_status E) x))"
  have "?P E t0 T sw (True, sw')"
  proof (rule busy_loop.raw_induct [where P = ?P, OF _ assms])
    fix rec E' t0 T sw and y :: "bool \<times> (xflash \<times> 'a)"
    assume IH: "\<And>E' t0 T sw y. rec E' t0 T sw = Some y \<Longrightarrow> ?P E' t0 T sw y"
      and run: "(let c = run_state (ext (sat_millis E')) sw
       in if \<not> fst c - t0 < T then Some (False, snd c)
          else let st = run_state (read_flash_status E') (snd c)
               in if fst st AND 1 = 0 then Some (True, snd st) else rec E' t0 T (snd st)) = Some y"
    let ?c = "run_state (ext (sat_millis E')) sw"
    let ?st = "run_state (read_flash_status E') (snd ?c)"
    consider "y = (False, snd ?c)" | "y = (True, snd ?st)" "fst ?st AND 1 = 0" | "rec E' t0 T (snd ?st) = Some y"
      using run unfolding Let_def by (metis option.inject)
    then show "?P E' t0 T sw y"
    proof cases
      case 3
      then show ?thesis using IH by blast
    qed auto
  qed
  then show ?thesis by simp
qed

lemma erasable_wait:
  assumes law: "erasable E cur mem busy wel" and run: "wait_while_flash_busy E T sw = Some (True, sw')"
  shows "\<not> busy (snd sw')"
proof -
  obtain t x where x: "busy_loop E t T x = Some (True, sw')"
    using run by (auto simp: wait_while_flash_busy_def)
  obtain y where "fst (run_state (read_flash_status E) y) AND 1 = 0" "sw' = snd (run_state (read_flash_status E) y)"
    using busy_loop_ready [OF x] by blast
  then show ?thesis using erasable_status(1) [OF law, of y] by (metis prod.collapse)
qed

lemma erasable_enable_writing:
  assumes law: "erasable E cur mem busy wel" and run: "run_state (enable_writing E) sw = (True, sw')" and idle: "\<not> busy (snd sw)"
  shows "wel (snd sw')" "\<not> busy (snd sw')"
proof -
  let ?w1 = "spi_enable E (snd sw)"
  let ?w2 = "snd (spi_byte E 6 ?w1)"
  let ?x = "(fst sw, spi_disable E ?w2)"
  have nor: "nor_flash E cur mem" by (rule erasable_nor [OF law])
  have "cur ?w2 = [6]" using nor by (simp add: nor_flash_def)
  then have i: "\<not> busy (snd ?x)" using law idle unfolding erasable_def by (metis snd_conv)
  obtain st where st: "run_state (read_flash_status E) ?x = (st, sw')" "st AND 2 \<noteq> 0"
    using run by (auto simp: enable_writing_def enable_spi_def disable_spi_def transfer_byte_def case_prod_beta prod_eq_iff)
  show "wel (snd sw')" by (rule erasable_status(2) [OF law st])
  show "\<not> busy (snd sw')" using erasable_status(3) [OF law st(1)] i by blast
qed

text \<open>One sector.\<close>

lemma erase_sector_erases:
  assumes law: "erasable E cur mem busy wel" and idle: "\<not> busy w" and n: "0 \<le> n" "n < 4096"
    and run: "run_state (erase_sector E n) (s, w) = (True, (s', w'))"
  shows "mem w' i = (if i div 4096 = nat n then 0xFF else mem w i)"
proof -
  let ?a = "word_of_int n * FLASH_SECTOR_SIZE :: u32"
  let ?f = "0x20 # addr_bytes ?a"
  have nor: "nor_flash E cur mem" by (rule erasable_nor [OF law])
  obtain sw1 where e: "run_state (enable_writing E) (s, w) = (True, sw1)"
    using run by (cases "run_state (enable_writing E) (s, w)") (auto simp: erase_sector_def split: if_splits)
  note wi = erasable_enable_writing [OF law e, simplified, OF idle]
  let ?sw2 = "snd (run_state (send_bytes E ?f) (fst sw1, spi_enable E (snd sw1)))"
  have w': "w' = spi_disable E (snd ?sw2)"
    using run by (auto simp: erase_sector_def e enable_spi_def disable_spi_def case_prod_beta simp del: send_bytes.simps)
  have en: "cur (spi_enable E (snd sw1)) = []" "mem (spi_enable E (snd sw1)) = mem (snd sw1)" using nor by (simp_all add: nor_flash_def)
  have f: "cur (snd ?sw2) = ?f" "mem (snd ?sw2) = mem (snd sw1)"
    using nor_send [OF nor, of ?f "(fst sw1, spi_enable E (snd sw1))"] en by (simp_all del: send_bytes.simps)
  have wb: "wel (snd ?sw2)" "\<not> busy (snd ?sw2)"
    using erasable_send [OF law, of ?f "(fst sw1, spi_enable E (snd sw1))"] wi erasable_stays(1,2) [OF law, of "snd sw1"]
    by (simp_all del: send_bytes.simps) blast
  have m: "mem (snd sw1) = mem w" using nor_enable_writing [OF nor, of "(s, w)"] e by simp
  have a: "?a < 2 ^ 24" "unat ?a = 4096 * nat n" using sector_address [OF n] by (simp_all add: unat_eq_nat_uint nat_mult_distrib)
  have fa: "frame_addr ?f div 4096 = nat n" "length ?f = 4" using frame_addr_page(1) [OF a(1), of "0x20" "[]"] frame_addr_page(2) [OF a(1)] a(2) by simp_all
  have "mem (spi_disable E (snd ?sw2)) i = (if i div 4096 = frame_addr ?f div 4096 then 0xFF else mem (snd ?sw2) i)"
    using law wb f(1) fa(2) unfolding erasable_def by (metis list.sel(1))
  then show ?thesis unfolding w' f m fa .
qed

section \<open>The whole chip\<close>

definition erased_below :: "('w \<Rightarrow> nat \<Rightarrow> u8) \<Rightarrow> int \<Rightarrow> 'w \<Rightarrow> bool" where
  "erased_below mem n w \<longleftrightarrow> (\<forall>i. int i < 4096 * n \<longrightarrow> mem w i = 0xFF)"

lemma erased_below_cong: "mem w' = mem w \<Longrightarrow> erased_below mem n w \<Longrightarrow> erased_below mem n w'"
  by (simp add: erased_below_def)

text \<open>What holds in each state of the flasher during the job: the sectors up to the current one are erased.\<close>

definition erase_run :: "('w \<Rightarrow> nat \<Rightarrow> u8) \<Rightarrow> xflash \<Rightarrow> 'w \<Rightarrow> bool" where
  "erase_run mem s w \<longleftrightarrow>
     (case fl_state s of
        FLASHER_INITIALIZING \<Rightarrow> requested_action s = ACTION_FULL_ERASE
      | FLASHER_ERASING \<Rightarrow> requested_action s = ACTION_FULL_ERASE \<and> total_sectors_to_erase s = 2048 \<and>
          -1 \<le> current_sector s \<and> current_sector s < 2048 \<and> erased_below mem (current_sector s + 1) w
      | FLASHER_FLASHING \<Rightarrow> False
      | FLASHER_SUCCESS_STATE \<Rightarrow> erased_below mem 2048 w
      | _ \<Rightarrow> True)"

lemma erase_run_init:
  assumes "requested_action s = ACTION_FULL_ERASE" "run_state (init_flashing E) (s, w) = (ok, (s', w'))"
  shows "requested_action s' = ACTION_FULL_ERASE \<and> total_sectors_to_erase s' = 2048 \<and> current_sector s' = -1"
  using assms
  by (auto simp: init_flashing_def init_flasher_def on_parent_def read_jedec_id_def case_prod_beta FLASH_TOTAL_NUMBER_OF_SECTORS_def
      FLASH_SECTOR_SIZE_def split: if_splits)

lemma sector_less: "0 \<le> k \<Longrightarrow> k \<le> 2048 \<Longrightarrow> (word_of_int k :: u32) < 2048 \<longleftrightarrow> k < 2048"
  by (simp add: word_less_def unsigned_of_int take_bit_int_eq_self)

text \<open>One turn of erasing.\<close>

lemma erasing_step_erases:
  assumes law: "erasable E cur mem busy wel" and run: "erasing_step E (s, w) = Some (r, (s', w'))"
    and s: "total_sectors_to_erase s = 2048" "-1 \<le> current_sector s" "current_sector s < 2048" "erased_below mem (current_sector s + 1) w"
  shows "r < 0 \<or> (r = 0 \<and> erased_below mem 2048 w') \<or>
    (0 < r \<and> total_sectors_to_erase s' = 2048 \<and> -1 \<le> current_sector s' \<and> current_sector s' < 2048 \<and> erased_below mem (current_sector s' + 1) w')"
proof -
  have nor: "nor_flash E cur mem" by (rule erasable_nor [OF law])
  let ?n = "current_sector s + 1" and ?s2 = "s\<lparr>current_sector := current_sector s + 1\<rparr>"
  obtain ready s1 w1 where wait: "wait_while_flash_busy E 1 (s, w) = Some (ready, (s1, w1))"
    using run by (auto simp: erasing_step_def bind_eq_Some_conv)
  have s1: "s1 = s" "mem w1 = mem w" using wait_obj [OF wait] nor_wait [OF nor wait] by simp_all
  have left: "sectors_left (s\<lparr>current_sector := n, error_code := e\<rparr>) = 2048 - n" if "-1 \<le> n" "n \<le> 2048" for n e
    using sectors_left_eq [of "s\<lparr>current_sector := n, error_code := e\<rparr>"] that s(1) by simp
  have left': "sectors_left (s\<lparr>current_sector := n\<rparr>) = 2048 - n" if "-1 \<le> n" "n \<le> 2048" for n
    using left [OF that, of "error_code s"] by simp
  have w1: "erased_below mem ?n w1" using s(4) s1(2) by (simp add: erased_below_def)
  obtain ok s3 w3 where e: "run_state (erase_sector E ?n) (?s2, w1) = (ok, (s3, w3))" by (metis prod.exhaust)
  have body: "(if \<not> ready then Some (sectors_left s, (s, w1)) else if word_of_int ?n < (2048 :: u32)
      then if \<not> ok then Some (-1, (s3\<lparr>error_code := WRITE_TO_FLASH_ERROR\<rparr>, w3)) else Some (sectors_left s3, (s3, w3))
      else Some (sectors_left ?s2, (?s2, w1))) = Some (r, (s', w'))"
    using run wait s(1) e unfolding s1(1) by (cases ready; cases ok; auto simp: erasing_step_def Let_def split: if_splits)
  consider (poll) "\<not> ready" | (last) "ready" "\<not> word_of_int ?n < (2048 :: u32)" | (one) "ready" "word_of_int ?n < (2048 :: u32)" by blast
  then show ?thesis
  proof cases
    case poll
    have "sectors_left s = 2048 - current_sector s" using left' [of "current_sector s"] s(2,3) by simp
    then show ?thesis using poll body s w1 by auto
  next
    case last
    have "\<not> ?n < 2048" using last(2) s(2,3) sector_less [of ?n] by linarith
    then have "?n = 2048" using s(3) by simp
    then show ?thesis using last body left' [of ?n] w1 s(2) by auto
  next
    case one
    have n: "0 \<le> ?n" "?n < 2048"
      using one(2) s(2,3) sector_less [of ?n] by linarith+
    have s3: "s3 = ?s2" using commands_obj(4) [of E ?n "(?s2, w1)"] e by simp
    show ?thesis
    proof (cases ok)
      case True
      have m: "mem w3 i = (if i div 4096 = nat ?n then 0xFF else mem w1 i)" for i
        using erase_sector_erases [OF law erasable_wait [OF law] n(1)] wait one(1) e True n(2) by simp
      have "erased_below mem (?n + 1) w3"
        unfolding erased_below_def
      proof (intro allI impI)
        fix i assume i: "int i < 4096 * (?n + 1)"
        show "mem w3 i = 0xFF"
        proof (cases "int i < 4096 * ?n")
          case True
          then show ?thesis using w1 by (simp add: m erased_below_def)
        next
          case False
          then have "int i div 4096 = ?n" using i by (simp add: div_pos_pos_trivial int_div_pos_eq [of _ _ _ "int i - 4096 * ?n"])
          then have "i div 4096 = nat ?n" by (metis nat_int of_nat_numeral zdiv_int)
          then show ?thesis by (simp add: m)
        qed
      qed
      then show ?thesis using body one True left' [of ?n] n s(1) by (auto simp: s3)
    next
      case False
      then show ?thesis using body one by simp
    qed
  qed
qed

lemma erase_run_loop:
  assumes law: "erasable E cur mem busy wel" "http_law E mem" and inv: "erase_run mem s w" and run: "flasher_loop E (s, w) = Some (u, (s', w'))"
  shows "erase_run mem s' w'"
proof (cases "fl_state s")
  case FLASHER_INITIALIZING
  obtain ok s1 w1 where i: "run_state (init_flashing E) (s, w) = (ok, (s1, w1))" by (metis prod.exhaust)
  have "fl_state s' = FLASHER_ERROR_STATE \<or> s' = s1\<lparr>fl_state := FLASHER_ERASING\<rparr>"
    using run i FLASHER_INITIALIZING by (auto simp: flasher_loop_def set_fl_state_def total_run_def case_prod_beta split: if_splits)
  then show ?thesis
    using erase_run_init [OF _ i] inv FLASHER_INITIALIZING by (auto simp: erase_run_def erased_below_def)
next
  case FLASHER_ERASING
  then have s: "requested_action s = ACTION_FULL_ERASE" "total_sectors_to_erase s = 2048" "-1 \<le> current_sector s" "current_sector s < 2048"
    "erased_below mem (current_sector s + 1) w" using inv by (simp_all add: erase_run_def)
  obtain r s1 w1 s2 w2 where er: "erasing_step E (s, w) = Some (r, (s1, w1))" and pp: "publish_progress E (s1, w1) = Some ((), (s2, w2))"
    using run FLASHER_ERASING by (auto simp: flasher_loop_def bind_eq_Some_conv)
  note step = erasing_step_erases [OF law(1) er s(2-5)]
  have m: "mem w2 = mem w1" by (rule nor_publish [OF erasable_nor [OF law(1)] pp])
  obtain c e p t where s2: "s1 = s\<lparr>current_sector := c, error_code := e\<rparr>" "s2 = s1\<lparr>flashing_progress := p, last_published := t\<rparr>"
    using erasing_step_obj [OF er] publish_progress_obj [OF pp] by blast
  let ?d = "snd (run_state (deinit_flashing E) (s2, w2))"
  have d: "mem (snd ?d) = mem w2" by (rule job_deinit(1) [OF erasable_nor [OF law(1)] law(2)])
  have "(r = 0 \<and> (s', w') = ((fst ?d)\<lparr>fl_state := FLASHER_SUCCESS_STATE\<rparr>, snd ?d)) \<or> (r < 0 \<and> s' = s2\<lparr>fl_state := FLASHER_ERROR_STATE\<rparr>) \<or>
      (0 < r \<and> (s', w') = (s2, w2))"
    using run FLASHER_ERASING er pp s(1) s2
    by (cases "r = 0"; cases "r < 0") (auto simp: flasher_loop_def set_fl_state_def total_run_def case_prod_beta)
  then show ?thesis
    using step m d s(1) s2 FLASHER_ERASING by (auto simp: erase_run_def erased_below_def)
qed (use inv run in \<open>auto simp: erase_run_def flasher_loop_def set_fl_state_def total_run_def case_prod_beta split: FlasherState.splits\<close>)

lemma erase_run_turns:
  assumes "erasable E cur mem busy wel" "http_law E mem"
  shows "erase_run mem (fst sw) (snd sw) \<Longrightarrow> loop_turns E n sw = Some sw' \<Longrightarrow> erase_run mem (fst sw') (snd sw')"
proof (induction n arbitrary: sw)
  case (Suc n)
  obtain sw1 where 1: "flasher_loop E sw = Some ((), sw1)" "loop_turns E n sw1 = Some sw'"
    using Suc.prems(2) by (auto simp: bind_eq_Some_conv)
  have "erase_run mem (fst sw1) (snd sw1)"
    using erase_run_loop [OF assms, of "fst sw" "snd sw" "()" "fst sw1" "snd sw1"] Suc.prems(1) 1(1) by simp
  then show ?case using Suc.IH 1(2) by blast
qed simp

lemma loop_turns_add: "loop_turns E (a + b) sw = Option.bind (loop_turns E a sw) (loop_turns E b)"
proof (induction a arbitrary: sw)
  case (Suc a)
  then show ?case by (cases "flasher_loop E sw") (simp_all add: case_prod_beta)
qed simp

text \<open>C14: erasing the memory succeeds only when all of it is erased. Start \<open>erase_memory\<close> on an idle flasher and let the main loop run for any number of turns; if
  the flasher is then in the success state, each of the 8388608 bytes of the chip is \<open>0xFF\<close>, although the chip ignores a command that comes while
  it is busy or write-protected.\<close>

theorem full_erase_success:
  assumes "erasable E cur mem busy wel" and "http_law E mem" and "fl_state s = FLASHER_IDLE"
    and "loop_turns E n (snd (run_state erase_memory (s, w))) = Some (s', w')" and "fl_state s' = FLASHER_SUCCESS_STATE"
  shows "\<forall>i<8388608. mem w' i = 0xFF"
proof -
  have "erase_run mem (fst (snd (run_state erase_memory (s, w)))) w"
    using assms(3) by (simp add: erase_memory_def erase_run_def)
  then have "erase_run mem s' w'"
    using erase_run_turns [OF assms(1,2) _ assms(4)] by (simp add: erase_memory_def)
  then show ?thesis using assms(5) by (simp add: erase_run_def erased_below_def)
qed

section \<open>An example\<close>

text \<open>A chip with real contents, never busy and always writable: the world is what was sent since it was selected, and the contents.\<close>

definition ex_chip_env :: "(u8 list \<times> (nat \<Rightarrow> u8)) flash_env" where
  "ex_chip_env =
     \<lparr>spi_setup = id, spi_enable = (\<lambda>(c, m). ([], m)),
      spi_disable = (\<lambda>(c, m). (c, if hd c = 0x20 \<and> length c = 4
        then (\<lambda>i. if i div 4096 = frame_addr c div 4096 then 0xFF else m i) else m)),
      spi_byte = (\<lambda>b (c, m). (if 5 \<le> length c \<and> hd c = 0x0B then m (frame_addr c + (length c - 5)) else 2, (c @ [b], m))),
      spi_xfer = Pair, task_delay = (\<lambda>n. id), sat_millis = Pair 0, rst_pin_setup = id, rst_pin_write = (\<lambda>b. id),
      sat_callback = (\<lambda>s. id), raw_version_resp = replicate 5 0, http_get = (\<lambda>u. Pair None), http_content_length = (\<lambda>c w. 0),
      http_bytes_read = (\<lambda>c w. 0), http_read = (\<lambda>c n. Pair (0, [])), http_end = (\<lambda>c. id), feed_and_yield = id,
      mf_callback = (\<lambda>m. id), md5_hex = (\<lambda>bs. ''abc''), malloc_page = Pair None, free_page = id\<rparr>"

lemma ex_chip_erasable: "erasable ex_chip_env fst snd (\<lambda>w. False) (\<lambda>w. True)"
  by (auto simp: erasable_def nor_flash_def ex_chip_env_def frame_keeps_def)

lemma ex_chip_http: "http_law ex_chip_env snd"
  by (auto simp: http_law_def ex_chip_env_def)

lemma ex_chip_sel: "sat_millis ex_chip_env w = (0, w)" by (simp add: ex_chip_env_def)

lemma ex_chip_status: "\<exists>w'. run_state (read_flash_status ex_chip_env) (s, w) = (2, (s, w'))"
  by (cases w) (simp add: read_flash_status_def enable_spi_def disable_spi_def transfer_byte_def ex_chip_env_def)

lemma ex_chip_wait: "0 < T \<Longrightarrow> \<exists>w'. wait_while_flash_busy ex_chip_env T (s, w) = Some (True, (s, w'))"
  using ex_chip_status [of s w] by (simp add: wait_while_flash_busy_def ex_chip_sel) (subst busy_loop.simps; auto simp: Let_def ex_chip_sel)

lemma ex_chip_erase: "\<exists>w'. run_state (erase_sector ex_chip_env n) (s, w) = (True, (s, w'))"
proof -
  have "fst (run_state (enable_writing ex_chip_env) (s, w))"
    by (cases w) (simp add: enable_writing_def read_flash_status_def enable_spi_def disable_spi_def transfer_byte_def ex_chip_env_def)
  then have "fst (run_state (erase_sector ex_chip_env n) (s, w))" by (simp add: erase_sector_def case_prod_beta del: send_bytes.simps)
  moreover obtain b s' w' where "run_state (erase_sector ex_chip_env n) (s, w) = (b, (s', w'))" by (metis prod.exhaust)
  ultimately show ?thesis using commands_obj(4) [of ex_chip_env n "(s, w)"] by simp
qed

lemma ex_erase_turn:
  assumes s: "fl_state s = FLASHER_ERASING" "requested_action s = ACTION_FULL_ERASE" "total_sectors_to_erase s = 2048" "last_published s = 0"
    and c: "-1 \<le> c" "c < 2047"
  shows "\<exists>w'. flasher_loop ex_chip_env (s\<lparr>current_sector := c\<rparr>, w) = Some ((), (s\<lparr>current_sector := c + 1\<rparr>, w'))"
proof -
  let ?s2 = "s\<lparr>current_sector := c + 1\<rparr>"
  obtain w1 where w: "wait_while_flash_busy ex_chip_env 1 (s\<lparr>current_sector := c\<rparr>, w) = Some (True, (s\<lparr>current_sector := c\<rparr>, w1))"
    using ex_chip_wait [of 1 "s\<lparr>current_sector := c\<rparr>" w] by auto
  obtain w3 where e: "run_state (erase_sector ex_chip_env (c + 1)) (?s2, w1) = (True, (?s2, w3))" using ex_chip_erase by blast
  have left: "sectors_left ?s2 = 2047 - c" using sectors_left_eq [of ?s2] s(3) c by simp
  have "word_of_int (c + 1) < (2048 :: u32)" using c sector_less [of "c + 1"] by linarith
  then have "erasing_step ex_chip_env (s\<lparr>current_sector := c\<rparr>, w) = Some (2047 - c, (?s2, w3))"
    using w e left s(3) by (simp add: erasing_step_def Let_def)
  then show ?thesis using s c by (simp add: flasher_loop_def publish_progress_def ex_chip_sel)
qed

lemma ex_erase_turns:
  assumes s: "fl_state s = FLASHER_ERASING" "requested_action s = ACTION_FULL_ERASE" "total_sectors_to_erase s = 2048" "last_published s = 0"
    and "int k \<le> 2048"
  shows "\<exists>w'. loop_turns ex_chip_env k (s\<lparr>current_sector := 2047 - int k\<rparr>, w) = Some (s\<lparr>current_sector := 2047\<rparr>, w')"
  using assms(5)
proof (induction k arbitrary: w)
  case (Suc k)
  obtain w1 where "flasher_loop ex_chip_env (s\<lparr>current_sector := 2047 - int (Suc k)\<rparr>, w) = Some ((), (s\<lparr>current_sector := 2047 - int k\<rparr>, w1))"
    using ex_erase_turn [OF s, of "2047 - int (Suc k)" w] Suc.prems by (auto simp: algebra_simps)
  then show ?case using Suc.IH [of w1] Suc.prems by simp
qed simp

lemma ex_erase_last:
  assumes "fl_state s = FLASHER_ERASING" "requested_action s = ACTION_FULL_ERASE" "total_sectors_to_erase s = 2048" "last_published s = 0"
    "current_sector s = 2047"
  shows "\<exists>s' w'. flasher_loop ex_chip_env (s, w) = Some ((), (s', w')) \<and> fl_state s' = FLASHER_SUCCESS_STATE"
proof -
  obtain w1 where w: "wait_while_flash_busy ex_chip_env 1 (s, w) = Some (True, (s, w1))" using ex_chip_wait [of 1 s w] by auto
  let ?s2 = "s\<lparr>current_sector := 2048\<rparr>"
  have "sectors_left ?s2 = 0" using sectors_left_eq [of ?s2] assms(3) by simp
  then have "erasing_step ex_chip_env (s, w) = Some (0, (?s2, w1))"
    using w assms(3,5) by (simp add: erasing_step_def Let_def)
  then show ?thesis using assms
    by (simp add: flasher_loop_def publish_progress_def ex_chip_sel total_run_def set_fl_state_def case_prod_beta)
qed

theorem full_erase_success_witness:
  "\<exists>s' c m. loop_turns ex_chip_env 2050 (snd (run_state erase_memory (ex_idle, ([], \<lambda>i. 7)))) = Some (s', (c, m)) \<and> m 8388607 = 0xFF"
proof -
  let ?x = "snd (run_state erase_memory (ex_idle, ([], \<lambda>i. 7)))"
  have "\<exists>s1 w1. flasher_loop ex_chip_env ?x = Some ((), (s1, w1)) \<and> fl_state s1 = FLASHER_ERASING \<and>
      requested_action s1 = ACTION_FULL_ERASE \<and> total_sectors_to_erase s1 = 2048 \<and> current_sector s1 = -1 \<and> last_published s1 = 0"
    by (simp add: erase_memory_def flasher_loop_def ex_idle_def ex_xf_def xflash_init_def mflash_init_def mflash.defs
        init_flashing_def init_flasher_def on_parent_def set_spi_flash_direct_access_mode_def call_state_callback_def
        read_jedec_id_def enable_spi_def disable_spi_def transfer_byte_def ex_chip_env_def sat_env_of_def sat_env.defs
        FLASH_TOTAL_NUMBER_OF_SECTORS_def FLASH_SECTOR_SIZE_def set_fl_state_def case_prod_beta)
  then obtain s1 w1 where 1: "flasher_loop ex_chip_env ?x = Some ((), (s1, w1))" and s1: "fl_state s1 = FLASHER_ERASING"
      "requested_action s1 = ACTION_FULL_ERASE" "total_sectors_to_erase s1 = 2048" "last_published s1 = 0" "current_sector s1 = -1"
    by blast
  have "s1\<lparr>current_sector := 2047 - int 2048\<rparr> = s1" using s1(5) by simp
  then obtain w2 where 2: "loop_turns ex_chip_env 2048 (s1, w1) = Some (s1\<lparr>current_sector := 2047\<rparr>, w2)"
    using ex_erase_turns [OF s1(1-4), of 2048 w1] by auto
  obtain s3 w3 where 3: "flasher_loop ex_chip_env (s1\<lparr>current_sector := 2047\<rparr>, w2) = Some ((), (s3, w3))" "fl_state s3 = FLASHER_SUCCESS_STATE"
    using ex_erase_last [of "s1\<lparr>current_sector := 2047\<rparr>" w2] s1 by auto
  have one: "loop_turns ex_chip_env 1 (s1\<lparr>current_sector := 2047\<rparr>, w2) = Some (s3, w3)" using 3(1) by simp
  have "loop_turns ex_chip_env (Suc 2048 + 1) ?x = Some (s3, w3)"
    unfolding loop_turns_add [of _ "Suc 2048" 1] loop_turns.simps(2) using 1 2 one by simp
  then have run: "loop_turns ex_chip_env 2050 ?x = Some (s3, w3)" by simp
  have "fl_state ex_idle = FLASHER_IDLE" by (simp add: ex_idle_def ex_xf_def xflash_init_def mflash_init_def mflash.defs)
  then have "snd w3 8388607 = 0xFF" using full_erase_success [OF ex_chip_erasable ex_chip_http _ run 3(2)] by simp
  then show ?thesis using run by (intro exI [of _ s3] exI [of _ "fst w3"] exI [of _ "snd w3"]) simp
qed

end
