(* ===== verification/Flash_Bus_Sharing.thy ===== *)
theory Flash_Bus_Sharing
  imports Xmos_Flash_Image Satellite1_Correct
begin

text \<open>
  The hub and the flasher on one SPI bus. The flasher belongs to the hub (\<open>fl_parent\<close>) and switches it to direct flash access for
  the time of a job; the main loops of both, the hub's clients and the requests to the flasher come in any order (\<open>board_step\<close>).
  While a job runs, nothing but the flasher uses the bus; when it has ended well, the hub looks for the XMOS chip afresh.

  \<open>flash_accessible\<close> is a step only while no job runs: called during a job (a long press of the action button does that) it ends direct
  access under the running job, which is the last lemma.

  Named hypothesis: \<open>spi_law\<close>.
\<close>

section \<open>Steps\<close>

inductive board_step :: "'w flash_env \<Rightarrow> xflash \<times> 'w \<Rightarrow> xflash \<times> 'w \<Rightarrow> bool" for E :: "'w flash_env" where
  board_flasher: "flasher_loop E sw = Some (u, sw') \<Longrightarrow> board_step E sw sw'"
| board_erase: "snd (run_state erase_memory sw) = sw' \<Longrightarrow> board_step E sw sw'"
| board_embedded: "snd (run_state flash_embedded_image sw) = sw' \<Longrightarrow> board_step E sw sw'"
| board_remote: "flash_remote_image E sw = Some (u, sw') \<Longrightarrow> board_step E sw sw'"
| board_probe: "fl_state (fst sw) = FLASHER_IDLE \<Longrightarrow> snd (run_state (flash_accessible E) sw) = sw' \<Longrightarrow> board_step E sw sw'"
| board_hub: "snd (run_state (on_parent (sat_loop (sat_env_of E))) sw) = sw' \<Longrightarrow> board_step E sw sw'"
| board_transfer: "snd (run_state (on_parent (transfer (sat_env_of E) rid cmd pl l)) sw) = sw' \<Longrightarrow> board_step E sw sw'"
| board_write: "snd (run_state (on_parent (digital_write (sat_env_of E) p v)) sw) = sw' \<Longrightarrow> board_step E sw sw'"
| board_read: "snd (run_state (on_parent (digital_read (sat_env_of E) p)) sw) = sw' \<Longrightarrow> board_step E sw sw'"
| board_reset: "snd (run_state (on_parent (xmos_hardware_reset (sat_env_of E))) sw) = sw' \<Longrightarrow> board_step E sw sw'"
| board_configure: "f \<in> {set_url u, set_md5_url u, set_md5 u} \<Longrightarrow> board_step E (s, w) (f s, w)"
| board_world: "board_step E (s, w) (s, w')"

inductive board_reach :: "'w flash_env \<Rightarrow> xflash \<times> 'w \<Rightarrow> bool" for E :: "'w flash_env" where
  board_start: "length regs = 4 \<Longrightarrow> length buf = 259 \<Longrightarrow> fl_state s = FLASHER_IDLE \<Longrightarrow> fl_parent s = sat_init regs buf pin \<Longrightarrow>
    snd (run_state (on_parent (sat_setup (sat_env_of E))) (s, w)) = sw \<Longrightarrow> board_reach E sw"
| board_next: "board_reach E sw \<Longrightarrow> board_step E sw sw' \<Longrightarrow> board_reach E sw'"

section \<open>The hub during a job\<close>

definition job_active :: "xflash \<Rightarrow> bool" where
  "job_active s \<longleftrightarrow> fl_state s = FLASHER_ERASING \<or> fl_state s = FLASHER_FLASHING"

definition board_inv :: "xflash \<Rightarrow> bool" where
  "board_inv s \<longleftrightarrow> sat_inv (fl_parent s) \<and> (job_active s \<longrightarrow> spi_flash_direct_access_enabled (fl_parent s)) \<and>
     (fl_state s = FLASHER_SUCCESS_STATE \<longrightarrow> \<not> spi_flash_direct_access_enabled (fl_parent s))"

text \<open>With direct access enabled the hub's operations do nothing.\<close>

lemma transfer_direct:
  "spi_flash_direct_access_enabled s \<Longrightarrow> run_state (transfer E rid cmd pl l) (s, w) = ((False, pl), (s, w))"
  by (simp add: transfer_def)

lemma sat_loop_direct:
  assumes "sat_inv s" "spi_flash_direct_access_enabled s"
  shows "run_state (sat_loop E) (s, w) = ((), (s, w))"
  using assms by (simp add: sat_inv_def sat_loop_def)

text \<open>What the programs of the hub and the flasher do to the hub's object.\<close>

lemma on_parent_obj:
  "fst (snd (run_state (on_parent m) (s, w))) = s\<lparr>fl_parent := fst (snd (run_state m (fl_parent s, w)))\<rparr>"
  by (simp add: on_parent_def case_prod_beta)

lemma mode_parent:
  assumes "sat_inv (fl_parent s)"
  shows "sat_inv (fl_parent (fst (snd (run_state (on_parent (set_spi_flash_direct_access_mode E b)) (s, w)))))"
    "spi_flash_direct_access_enabled (fl_parent (fst (snd (run_state (on_parent (set_spi_flash_direct_access_mode E b)) (s, w))))) = b"
    "fl_state (fst (snd (run_state (on_parent (set_spi_flash_direct_access_mode E b)) (s, w)))) = fl_state s"
  using sat_inv_mode [OF assms, of E b w]
  by (simp_all add: on_parent_obj) (simp add: set_spi_flash_direct_access_mode_def)

lemma jedec_parent:
  "fl_parent (fst (snd (run_state (read_jedec_id E) sw))) = fl_parent (fst sw)"
  "fl_state (fst (snd (run_state (read_jedec_id E) sw))) = fl_state (fst sw)"
  by (simp_all add: read_jedec_id_def enable_spi_def disable_spi_def transfer_byte_def case_prod_beta)

lemma init_flasher_parent:
  assumes "sat_inv (fl_parent s)"
  shows "sat_inv (fl_parent (fst (snd (run_state (init_flasher E) (s, w)))))"
    "spi_flash_direct_access_enabled (fl_parent (fst (snd (run_state (init_flasher E) (s, w)))))"
    "fst (run_state (init_flasher E) (s, w))"
  using mode_parent(1,2) [OF assms, of "sat_env_of E" True w]
  by (simp_all add: init_flasher_def case_prod_beta jedec_parent)

lemma init_flashing_parent:
  "fl_parent (fst (snd (run_state (init_flashing E) (s, w)))) = fl_parent (fst (snd (run_state (init_flasher E) (s, w))))"
  by (simp add: init_flashing_def case_prod_beta)

lemma deinit_parent:
  assumes "sat_inv (fl_parent s)"
  shows "sat_inv (fl_parent (fst (snd (run_state (deinit_flashing E) (s, w)))))"
    "\<not> spi_flash_direct_access_enabled (fl_parent (fst (snd (run_state (deinit_flashing E) (s, w)))))"
    "spi_flash_direct_access_enabled (fl_parent s) \<Longrightarrow>
       sat_state (fl_parent (fst (snd (run_state (deinit_flashing E) (s, w))))) = SAT_DETACHED_STATE \<and>
       connection_attempts (fl_parent (fst (snd (run_state (deinit_flashing E) (s, w))))) = 0"
  using sat_inv_mode [OF assms, of "sat_env_of E" False]
  by (cases "fl_reader s"; simp add: deinit_flashing_def deinit_flasher_def on_parent_obj case_prod_beta;
      simp add: set_spi_flash_direct_access_mode_def)+

section \<open>A turn of the flasher\<close>

lemma erasing_turn_obj:
  assumes "erasing_step E (s, w) = Some (r, (s1, w1))" "publish_progress E (s1, w1) = Some (u, (s2, w2))"
  shows "fl_parent s2 = fl_parent s" "fl_state s2 = fl_state s"
  using erasing_step_obj [OF assms(1)] publish_progress_obj [OF assms(2)] by auto

lemma flashing_turn_obj:
  assumes "flashing_step E (s, w) = Some (r, (s1, w1))" "publish_progress E (s1, w1) = Some (u, (s2, w2))"
  shows "fl_parent s2 = fl_parent s" "fl_state s2 = fl_state s"
  using flashing_step_frame [OF assms(1)] publish_progress_obj [OF assms(2)] by (auto simp: run_frame_def)

text \<open>A turn that works on a job leaves the hub alone, or ends the job and gives the bus back.\<close>

definition bus_returned :: "satellite1 \<Rightarrow> bool" where
  "bus_returned p \<longleftrightarrow> sat_inv p \<and> \<not> spi_flash_direct_access_enabled p \<and> sat_state p = SAT_DETACHED_STATE \<and> connection_attempts p = 0"

lemma active_turn:
  assumes "job_active s" "flasher_loop E (s, w) = Some (u, (s', w'))"
    and sat: "sat_inv (fl_parent s)" "spi_flash_direct_access_enabled (fl_parent s)"
  shows "(fl_parent s' = fl_parent s \<and> fl_state s' \<in> {FLASHER_ERASING, FLASHER_FLASHING, FLASHER_ERROR_STATE}) \<or>
    (bus_returned (fl_parent s') \<and> fl_state s' \<in> {FLASHER_SUCCESS_STATE, FLASHER_ERROR_STATE})"
proof (cases "fl_state s")
  case FLASHER_ERASING
  obtain r s1 w1 s2 w2 where st: "erasing_step E (s, w) = Some (r, (s1, w1))" "publish_progress E (s1, w1) = Some ((), (s2, w2))"
    using assms(2) FLASHER_ERASING by (auto simp: flasher_loop_def bind_eq_Some_conv)
  note o = erasing_turn_obj [OF st]
  let ?d = "snd (run_state (deinit_flashing E) (s2, w2))"
  have "(s', w') \<in> {(s2, w2), (s2\<lparr>fl_state := FLASHER_FLASHING\<rparr>, w2), (s2\<lparr>fl_state := FLASHER_ERROR_STATE\<rparr>, w2),
      ((fst ?d)\<lparr>fl_state := FLASHER_SUCCESS_STATE\<rparr>, snd ?d)}"
    using assms(2) FLASHER_ERASING st
    by (auto simp: flasher_loop_def set_fl_state_def total_run_def case_prod_beta split: if_splits)
  moreover have "bus_returned (fl_parent (fst ?d))"
    using deinit_parent [of s2 E w2] sat o(1) by (simp add: bus_returned_def)
  ultimately show ?thesis using o FLASHER_ERASING by auto
next
  case FLASHER_FLASHING
  obtain r s1 w1 s2 w2 where st: "flashing_step E (s, w) = Some (r, (s1, w1))" "publish_progress E (s1, w1) = Some ((), (s2, w2))"
    using assms(2) FLASHER_FLASHING by (auto simp: flasher_loop_def bind_eq_Some_conv)
  note o = flashing_turn_obj [OF st]
  let ?d = "snd (run_state (deinit_flashing E) (s2, w2))"
  have "(s', w') \<in> {(s2, w2), ((fst ?d)\<lparr>fl_state := FLASHER_ERROR_STATE\<rparr>, snd ?d),
      ((fst ?d)\<lparr>fl_state := FLASHER_SUCCESS_STATE\<rparr>, snd ?d)}"
    using assms(2) FLASHER_FLASHING st
    by (auto simp: flasher_loop_def set_fl_state_def total_run_def case_prod_beta split: if_splits)
  moreover have "bus_returned (fl_parent (fst ?d))"
    using deinit_parent [of s2 E w2] sat o(1) by (simp add: bus_returned_def)
  ultimately show ?thesis using o FLASHER_FLASHING by auto
qed (use assms(1) in \<open>simp_all add: job_active_def\<close>)

lemma board_inv_flasher:
  assumes inv: "board_inv s" and run: "flasher_loop E (s, w) = Some (u, (s', w'))"
  shows "board_inv s'"
proof -
  have sat: "sat_inv (fl_parent s)" using inv by (simp add: board_inv_def)
  consider "job_active s" | "fl_state s = FLASHER_INITIALIZING"
    | "fl_state s \<in> {FLASHER_IDLE, FLASHER_RECEIVING_IMG_INFO, FLASHER_SUCCESS_STATE, FLASHER_ERROR_STATE}"
    by (cases "fl_state s") (auto simp: job_active_def)
  then show ?thesis
  proof cases
    case 1
    then have "spi_flash_direct_access_enabled (fl_parent s)" using inv by (simp add: board_inv_def)
    with active_turn [OF 1 run sat this] sat show ?thesis by (auto simp: board_inv_def job_active_def bus_returned_def)
  next
    case 2
    let ?i = "run_state (init_flashing E) (s, w)"
    note I = init_flasher_parent [OF sat, of E w]
    have p: "fl_parent (fst (snd ?i)) = fl_parent (fst (snd (run_state (init_flasher E) (s, w))))" by (rule init_flashing_parent)
    have "s' = (fst (snd ?i))\<lparr>fl_state := FLASHER_ERASING\<rparr> \<or>
        s' = (fst (snd (run_state (deinit_flashing E) (snd ?i))))\<lparr>fl_state := FLASHER_ERROR_STATE\<rparr>"
      using run 2 by (auto simp: flasher_loop_def set_fl_state_def total_run_def case_prod_beta split: if_splits)
    then show ?thesis
      using I p deinit_parent(1) [of "fst (snd ?i)" E "snd (snd ?i)"] by (auto simp: board_inv_def job_active_def)
  next
    case 3
    then show ?thesis
      using run inv by (auto simp: flasher_loop_def set_fl_state_def total_run_def case_prod_beta board_inv_def job_active_def mf_publish_def)
  qed
qed

section \<open>All steps\<close>

text \<open>An operation of the hub that keeps its invariant and its mode keeps the board's.\<close>

lemma board_inv_hub:
  assumes "board_inv s" "sat_inv (fst (snd (run_state m (fl_parent s, w))))"
    and "spi_flash_direct_access_enabled (fst (snd (run_state m (fl_parent s, w)))) = spi_flash_direct_access_enabled (fl_parent s)"
  shows "board_inv (fst (snd (run_state (on_parent m) (s, w))))"
  using assms by (simp add: on_parent_obj board_inv_def job_active_def)

lemma hub_keeps_mode:
  assumes "spi_law E" "sat_inv s"
  shows "spi_flash_direct_access_enabled (fst (snd (run_state (transfer E rid cmd pl l) (s, w)))) = spi_flash_direct_access_enabled s"
    "spi_flash_direct_access_enabled (fst (snd (run_state (digital_write E p v) (s, w)))) = spi_flash_direct_access_enabled s"
    "spi_flash_direct_access_enabled (fst (snd (run_state (digital_read E p) (s, w)))) = spi_flash_direct_access_enabled s"
    "spi_flash_direct_access_enabled (fst (snd (run_state (sat_loop E) (s, w)))) = spi_flash_direct_access_enabled s"
    "spi_flash_direct_access_enabled (fst (snd (run_state (xmos_hardware_reset E) (s, w)))) = spi_flash_direct_access_enabled s"
    "sat_inv (fst (snd (run_state (xmos_hardware_reset E) (s, w))))"
proof -
  have wf: "sat_wf s" using assms(2) by (simp add: sat_inv_def)
  show t: "spi_flash_direct_access_enabled (fst (snd (run_state (transfer E rid cmd pl l) (s, w)))) = spi_flash_direct_access_enabled s"
    for rid cmd pl l
    using transfer_frame [OF assms(1) wf, of rid cmd pl l w] by (simp add: sat_frame_def)
  show "spi_flash_direct_access_enabled (fst (snd (run_state (digital_write E p v) (s, w)))) = spi_flash_direct_access_enabled s"
    "spi_flash_direct_access_enabled (fst (snd (run_state (digital_read E p) (s, w)))) = spi_flash_direct_access_enabled s"
    by (simp_all add: digital_write_def digital_read_def request_status_register_update_def case_prod_beta t)
  have d: "spi_flash_direct_access_enabled (fst (snd (run_state (dfu_get_fw_version E) (s, w)))) = spi_flash_direct_access_enabled s" for w
    using dfu_frame [OF assms(1) wf, of _ w] by (simp add: sat_frame_def)
  show "spi_flash_direct_access_enabled (fst (snd (run_state (sat_loop E) (s, w)))) = spi_flash_direct_access_enabled s"
    by (cases "sat_state s") (simp_all add: sat_loop_def case_prod_beta check_for_xmos_obj d)
  show "spi_flash_direct_access_enabled (fst (snd (run_state (xmos_hardware_reset E) (s, w)))) = spi_flash_direct_access_enabled s"
    "sat_inv (fst (snd (run_state (xmos_hardware_reset E) (s, w))))"
    using assms(2) by (simp_all add: xmos_hardware_reset_def)
qed

lemma board_inv_requests:
  assumes "board_inv s"
  shows "board_inv (fst (snd (run_state erase_memory (s, w))))" "board_inv (fst (snd (run_state flash_embedded_image (s, w))))"
    "flash_remote_image E (s, w) = Some (u, (s', w')) \<Longrightarrow> board_inv s'"
    "fl_state s = FLASHER_IDLE \<Longrightarrow> board_inv (fst (snd (run_state (flash_accessible E) (s, w))))"
proof -
  show "board_inv (fst (snd (run_state erase_memory (s, w))))" "board_inv (fst (snd (run_state flash_embedded_image (s, w))))"
    using assms by (simp_all add: erase_memory_def flash_embedded_image_def board_inv_def job_active_def)
  have md5: "\<exists>m. s1 = s\<lparr>md5_expected := m\<rparr>" if "http_get_md5 E (s, w) = Some (b, (s1, w1))" for b s1 w1
  proof -
    have "s1 = s \<or> (\<exists>m. s1 = s\<lparr>md5_expected := m\<rparr>)"
      using that by (auto simp: http_get_md5_def Let_def bind_eq_Some_conv split: if_splits option.splits prod.splits)
    moreover have "s = s\<lparr>md5_expected := md5_expected s\<rparr>" by simp
    ultimately show ?thesis by metis
  qed
  show "board_inv s'" if run: "flash_remote_image E (s, w) = Some (u, (s', w'))"
  proof (cases "fl_state s = FLASHER_IDLE \<and> fl_url s \<noteq> []")
    case True
    then obtain b s1 w1 where 1: "(if md5_expected s = [] then http_get_md5 E (s, w) else Some (True, (s, w))) = Some (b, (s1, w1))"
      using run by (auto simp: flash_remote_image_def bind_eq_Some_conv)
    then have "\<exists>m. s1 = s\<lparr>md5_expected := m\<rparr>" using md5 by (cases "md5_expected s = []") (auto intro: exI [of _ "md5_expected s"])
    then show ?thesis
      using run True 1 assms by (auto simp: flash_remote_image_def board_inv_def job_active_def split: if_splits)
  next
    case False
    then show ?thesis using run assms by (auto simp: flash_remote_image_def board_inv_def job_active_def split: if_splits)
  qed
  show "board_inv (fst (snd (run_state (flash_accessible E) (s, w))))" if "fl_state s = FLASHER_IDLE"
  proof -
    have sat: "sat_inv (fl_parent s)" using assms by (simp add: board_inv_def)
    let ?a = "snd (run_state (on_parent (set_spi_flash_direct_access_mode (sat_env_of E) True)) (s, w))"
    let ?j = "snd (run_state (read_jedec_id E) ?a)"
    have "sat_inv (fl_parent (fst ?j))" "fl_state (fst ?j) = FLASHER_IDLE"
      using mode_parent [OF sat, of "sat_env_of E" True w] that by (simp_all add: jedec_parent)
    then show ?thesis
      using mode_parent [of "fst ?j" "sat_env_of E" False "snd ?j"]
      by (simp add: flash_accessible_def case_prod_beta board_inv_def job_active_def)
  qed
qed

lemma board_inv_step:
  assumes law: "spi_law (sat_env_of E)" and "board_step E sw sw'" and inv: "board_inv (fst sw)"
  shows "board_inv (fst sw')"
proof -
  have sat: "sat_inv (fl_parent (fst sw))" using inv by (simp add: board_inv_def)
  note H = board_inv_hub [OF inv, where w = "snd sw"] and M = hub_keeps_mode [OF law sat, where w = "snd sw"]
  note R = board_inv_requests [OF inv, where w = "snd sw"]
  show ?thesis
    using assms(2)
  proof cases
    case (board_flasher u)
    then show ?thesis using board_inv_flasher [OF inv, of E "snd sw" u "fst sw'" "snd sw'"] by simp
  next
    case (board_remote u)
    then show ?thesis using R(3) [of E u "fst sw'" "snd sw'"] by simp
  next
    case board_hub
    then show ?thesis using H [OF sat_inv_loop [OF law sat] M(4)] by auto
  next
    case (board_transfer rid cmd pl l)
    then show ?thesis using H [OF sat_inv_transfer [OF law sat] M(1)] by auto
  next
    case (board_write p v)
    then show ?thesis using H [OF sat_inv_gpio(1) [OF law sat] M(2)] by auto
  next
    case (board_read p)
    then show ?thesis using H [OF sat_inv_gpio(2) [OF law sat] M(3)] by auto
  next
    case board_reset
    then show ?thesis using H [OF M(6,5)] by auto
  next
    case (board_configure f u s w)
    then show ?thesis using inv by (auto simp: board_inv_def job_active_def set_url_def set_md5_url_def set_md5_def split: if_splits)
  qed (use R inv in auto)
qed

lemma board_inv_reach:
  assumes law: "spi_law (sat_env_of E)" and "board_reach E sw"
  shows "board_inv (fst sw)"
  using assms(2)
proof induction
  case (board_start regs buf s pin w sw)
  have "sat_inv (fst (snd (run_state (sat_setup (sat_env_of E)) (fl_parent s, w))))"
    using sat_inv_reach [OF law sat_reach_init [OF board_start(1,2) refl, of "sat_env_of E" pin w]] board_start(4) by simp
  then show ?case using board_start(3,5) by (auto simp: on_parent_obj board_inv_def job_active_def)
next
  case (board_next sw sw')
  then show ?case using board_inv_step [OF law] by blast
qed



text \<open>A probe of the flash during a job takes the bus away from it: the job goes on, while the hub has left direct access and counts as
  detached, so that its next turns send transfers into the flash traffic.\<close>

theorem probe_breaks_job:
  assumes "sat_inv (fl_parent s)" and "run_state (flash_accessible E) (s, w) = (r, (s', w'))"
  shows "fl_state s' = fl_state s \<and> \<not> spi_flash_direct_access_enabled (fl_parent s') \<and> sat_state (fl_parent s') = SAT_DETACHED_STATE"
proof -
  let ?a = "snd (run_state (on_parent (set_spi_flash_direct_access_mode (sat_env_of E) True)) (s, w))"
  obtain sj wj where j: "snd (run_state (read_jedec_id E) ?a) = (sj, wj)" by (metis prod.exhaust)
  have a: "sat_inv (fl_parent sj)" "spi_flash_direct_access_enabled (fl_parent sj)" "fl_state sj = fl_state s"
    using mode_parent [OF assms(1), of "sat_env_of E" True w] jedec_parent [of E ?a] by (simp_all add: j)
  have "s' = fst (snd (run_state (on_parent (set_spi_flash_direct_access_mode (sat_env_of E) False)) (sj, wj)))"
    using assms(2) by (auto simp: flash_accessible_def case_prod_beta j)
  then show ?thesis
    using a by (simp add: on_parent_obj set_spi_flash_direct_access_mode_def)
qed

section \<open>An example\<close>

lemma board_turns: "board_reach E sw \<Longrightarrow> loop_turns E n sw = Some sw' \<Longrightarrow> board_reach E sw'"
proof (induction n arbitrary: sw)
  case (Suc n)
  then obtain sw1 where "flasher_loop E sw = Some ((), sw1)" "loop_turns E n sw1 = Some sw'" by (auto simp: bind_eq_Some_conv)
  then show ?case using Suc.IH [OF board_next [OF Suc.prems(1) board_flasher]] by blast
qed simp

lemma success_from_active:
  assumes "flasher_loop E (s, w) = Some (u, (s', w'))" "fl_state s' = FLASHER_SUCCESS_STATE"
  shows "fl_state s = FLASHER_ERASING \<or> fl_state s = FLASHER_FLASHING"
  using assms by (cases "fl_state s") (auto simp: flasher_loop_def set_fl_state_def total_run_def case_prod_beta split: if_splits)

lemma loop_turns_last: "loop_turns E (Suc n) sw = Some sw' \<Longrightarrow> \<exists>sw1. loop_turns E n sw = Some sw1 \<and> flasher_loop E sw1 = Some ((), sw')"
  by (induction n arbitrary: sw) (auto simp: bind_eq_Some_conv)

lemma ex_board_law: "spi_law (sat_env_of ex_nor_env)"
  by (simp add: spi_law_def sat_env_of_def sat_env.defs ex_nor_env_def)

text \<open>A run that reaches the end of a job.\<close>

lemma ex_board_run:
  "\<exists>s w s' w'. board_reach ex_nor_env (s, w) \<and> (fl_state s = FLASHER_ERASING \<or> fl_state s = FLASHER_FLASHING) \<and>
     flasher_loop ex_nor_env (s, w) = Some ((), (s', w')) \<and> fl_state s' = FLASHER_SUCCESS_STATE"
proof -
  let ?s0 = "snd (run_state (on_parent (sat_setup (sat_env_of ex_nor_env))) (ex_idle, []))"
  let ?s1 = "snd (run_state flash_embedded_image ?s0)"
  have "fl_parent ex_idle = sat_init [0, 0, 0, 0] (replicate 259 0) True"
    by (simp add: ex_idle_def ex_xf_def xflash_init_def mflash.defs)
  then have "board_reach ex_nor_env ?s0"
    by (intro board_start [where s = ex_idle and regs = "[0, 0, 0, 0]" and buf = "replicate 259 0"]) (simp_all add: ex_page_wf)
  then have r1: "board_reach ex_nor_env ?s1" by (rule board_next) (rule board_embedded, simp)
  have "?s0 = (ex_idle\<lparr>fl_parent := fl_parent (fst ?s0)\<rparr>, snd ?s0)" by (simp add: prod_eq_iff on_parent_obj)
  then obtain sw2 where fin: "loop_turns ex_nor_env (Suc 3) ?s1 = Some sw2" "fl_state (fst sw2) = FLASHER_SUCCESS_STATE"
    using ex_run_succeeds_on [of "fl_parent (fst ?s0)" "snd ?s0"] by auto
  obtain sw1 where l: "loop_turns ex_nor_env 3 ?s1 = Some sw1" "flasher_loop ex_nor_env sw1 = Some ((), sw2)"
    using loop_turns_last [OF fin(1)] by blast
  have "board_reach ex_nor_env (fst sw1, snd sw1)" using board_turns [OF r1 l(1)] by simp
  then show ?thesis
    using l(2) fin(2) success_from_active [of ex_nor_env "fst sw1" "snd sw1" "()" "fst sw2" "snd sw2"]
    by (intro exI [of _ "fst sw1"] exI [of _ "snd sw1"] exI [of _ "fst sw2"] exI [of _ "snd sw2"]) simp
qed


text \<open>A chip that answers the version request.\<close>

lemma ex_version_found:
  assumes "sat_wf p" "\<not> spi_flash_direct_access_enabled p"
  shows "fst (run_state (check_for_xmos ex_sat_env)
    (p, ex_sat_w\<lparr>es_now := t, es_answers := [[1, 0, 4, 5, 6, 7], [23, 1, 2, 3, 4, 5]]\<rparr>))"
proof -
  let ?w = "ex_sat_w\<lparr>es_now := t, es_answers := [[1, 0, 4, 5, 6, 7], [23, 1, 2, 3, 4, 5]]\<rparr>"
  let ?w1 = "ex_sat_w\<lparr>es_now := t, es_answers := [[23, 1, 2, 3, 4, 5]], es_count := 1\<rparr>"
  let ?w2 = "ex_sat_w\<lparr>es_now := t, es_answers := [], es_count := 2\<rparr>"
  let ?pl = "[0, 0, 0, 0, 0] :: u8 list"
  have "length (cmd_frame 240 0xD8 ?pl) = 8"
    by (simp add: cmd_frame_def status_report_dummies_def REGISTER_LEN_def)
  then have "spi_xfer ex_sat_env (cmd_frame 240 0xD8 ?pl) (spi_enable ex_sat_env ?w) = ([1, 0, 4, 5, 6, 7, 0, 0], ?w1)"
    by (simp add: ex_sat_env_def ex_answer_def ex_sat_w_def numeral_eq_Suc)
  moreover have "spi_xfer ex_sat_env (replicate (length ?pl + 3) 0) (spi_enable ex_sat_env (after_xfer ex_sat_env ?w1)) =
      ([23, 1, 2, 3, 4, 5, 0, 0], ?w2)"
    by (simp add: ex_sat_env_def ex_answer_def after_xfer_def ex_sat_w_def numeral_eq_Suc)
  ultimately have "fst (run_state (transfer ex_sat_env 240 (0x58 OR CONTROL_CMD_READ_BIT) ?pl 5) (p, ?w)) = (True, [1, 2, 3, 4, 5])"
    using transfer_answered [OF ex_spi_law assms, where pl = ?pl and rid = 240 and cmd = "0xD8" and w = ?w
        and r = "[1, 0, 4, 5, 6, 7, 0, 0]" and w' = ?w1]
    by (simp add: Let_def CONTROL_CMD_READ_BIT_def)
  moreover have "raw_version_resp ex_sat_env = ?pl" by (simp add: ex_sat_env_def)
  ultimately show ?thesis
    by (simp add: check_for_xmos_def dfu_get_fw_version_def case_prod_beta GET_VERSION_def numeral_eq_Suc)
qed


end
