(* ===== verification/Audio_Base.thy ===== *)
theory Audio_Base
  imports Sat1_Prelude
begin

text \<open>
  What the audio components share: the description of an audio stream (\<open>audio::AudioStreamInfo\<close>: bits per sample, channels and
  sample rate; its conversions between frames, bytes and milliseconds are operations of the environments), and the
  FreeRTOS objects each of them has: one event group, one counting semaphore and one task, reached through
  \<open>'w rtos_env\<close>. An event group holds bits that are set and cleared; taking the semaphore does not block.

  Named hypothesis: \<open>rtos_law\<close>, the documented behaviour of event groups and counting semaphores.
\<close>

record stream_info =
  si_bits :: u8
  si_channels :: u8
  si_rate :: u32

text \<open>\<open>microphone::State\<close>, \<open>speaker::State\<close>, and the error codes the components tell apart.\<close>

datatype mic_state = MIC_STOPPED | MIC_STARTING | MIC_RUNNING | MIC_STOPPING

datatype spk_state = SPK_STOPPED | SPK_STARTING | SPK_RUNNING | SPK_STOPPING

datatype esp_err = ESP_OK | ESP_ERR_NO_MEM | ESP_ERR_INVALID_STATE | ESP_ERR_NOT_SUPPORTED | ESP_FAIL

datatype AudioResamplerState = RESAMPLING | RESAMPLER_FINISHED | RESAMPLER_FAILED

record 'w rtos_env =
  eg_create :: "'w \<Rightarrow> bool \<times> 'w"
  eg_get :: "'w \<Rightarrow> u32"
  eg_set :: "u32 \<Rightarrow> 'w \<Rightarrow> 'w"
  eg_clear :: "u32 \<Rightarrow> 'w \<Rightarrow> 'w"
  sem_create :: "nat \<Rightarrow> nat \<Rightarrow> 'w \<Rightarrow> bool \<times> 'w"
  sem_count :: "'w \<Rightarrow> nat"
  sem_take :: "'w \<Rightarrow> 'w"
  sem_give :: "'w \<Rightarrow> 'w"
  rtos_task_create :: "'w \<Rightarrow> bool \<times> 'w"
  rtos_task_delete :: "'w \<Rightarrow> 'w"
  rtos_delay :: "nat \<Rightarrow> 'w \<Rightarrow> 'w"
  set_clear_timeout :: "nat \<Rightarrow> 'w \<Rightarrow> 'w"

text \<open>Reading something of the world.\<close>

definition obs :: "('w \<Rightarrow> 'a) \<Rightarrow> ('s \<times> 'w, 'a) state" where
  [prim_defs]: "obs f = State (\<lambda>(s, w). (f w, (s, w)))"

lemma run_obs [simp]: "run_state (obs f) sw = (f (snd sw), sw)"
  by (simp add: obs_def case_prod_beta)

definition ALL_BITS :: u32 where "ALL_BITS = 0x00FFFFFF"

text \<open>A step that leaves the event bits and the semaphore alone.\<close>

definition quiet :: "('w, 'e) rtos_env_scheme \<Rightarrow> ('w \<Rightarrow> 'w) \<Rightarrow> bool" where
  "quiet E f \<longleftrightarrow> (\<forall>w. eg_get E (f w) = eg_get E w \<and> sem_count E (f w) = sem_count E w)"

definition rtos_law :: "('w, 'e) rtos_env_scheme \<Rightarrow> nat \<Rightarrow> bool" where
  "rtos_law E max_count \<longleftrightarrow>
     (\<forall>b w. eg_get E (eg_set E b w) = eg_get E w OR b \<and> sem_count E (eg_set E b w) = sem_count E w) \<and>
     (\<forall>b w. eg_get E (eg_clear E b w) = eg_get E w AND NOT b \<and> sem_count E (eg_clear E b w) = sem_count E w) \<and>
     (\<forall>w. sem_count E (sem_take E w) = sem_count E w - 1 \<and> eg_get E (sem_take E w) = eg_get E w) \<and>
     (\<forall>w. sem_count E (sem_give E w) = min max_count (sem_count E w + 1) \<and> eg_get E (sem_give E w) = eg_get E w) \<and>
     quiet E (\<lambda>w. snd (rtos_task_create E w)) \<and> quiet E (rtos_task_delete E) \<and>
     (\<forall>n. quiet E (rtos_delay E n)) \<and> (\<forall>n. quiet E (set_clear_timeout E n))"

lemma rtos_bits:
  assumes "rtos_law E max_count"
  shows "eg_get E (eg_set E b w) = eg_get E w OR b" "sem_count E (eg_set E b w) = sem_count E w"
    "eg_get E (eg_clear E b w) = eg_get E w AND NOT b" "sem_count E (eg_clear E b w) = sem_count E w"
    "sem_count E (sem_take E w) = sem_count E w - 1" "eg_get E (sem_take E w) = eg_get E w"
    "sem_count E (sem_give E w) = min max_count (sem_count E w + 1)" "eg_get E (sem_give E w) = eg_get E w"
    "eg_get E (snd (rtos_task_create E w)) = eg_get E w" "sem_count E (snd (rtos_task_create E w)) = sem_count E w"
    "eg_get E (rtos_task_delete E w) = eg_get E w" "sem_count E (rtos_task_delete E w) = sem_count E w"
    "eg_get E (rtos_delay E n w) = eg_get E w" "sem_count E (rtos_delay E n w) = sem_count E w"
    "eg_get E (set_clear_timeout E n w) = eg_get E w" "sem_count E (set_clear_timeout E n w) = sem_count E w"
  using assms by (simp_all add: rtos_law_def quiet_def)

section \<open>What a program leaves alone\<close>

text \<open>The program does not change the part \<open>g\<close> of the world; \<open>untouched\<close>: the bits of the mask \<open>k\<close> in the event group.\<close>

definition keeps :: "('w \<Rightarrow> 'b) \<Rightarrow> ('s \<times> 'w, 'a) state \<Rightarrow> bool" where
  "keeps g m \<longleftrightarrow> (\<forall>sw. g (snd (snd (run_state m sw))) = g (snd sw))"

abbreviation untouched :: "('w, 'e) rtos_env_scheme \<Rightarrow> u32 \<Rightarrow> ('s \<times> 'w, 'a) state \<Rightarrow> bool" where
  "untouched E k m \<equiv> keeps (\<lambda>w. eg_get E w AND k) m"

named_theorems untouched_rules "programs that leave part of the world alone"

lemma keeps_run: "keeps g m \<Longrightarrow> g (snd (snd (run_state m sw))) = g (snd sw)"
  unfolding keeps_def by blast

lemma keepsD: "keeps g m \<Longrightarrow> run_state m (s, w) = (r, (s', w')) \<Longrightarrow> g w' = g w"
  using keeps_run [of g m "(s, w)"] by simp

lemmas untouched_run = keeps_run [of "\<lambda>w. eg_get E w AND k" for E k] and untouchedD = keepsD [of "\<lambda>w. eg_get E w AND k" for E k]

lemma keeps_bind [untouched_rules]:
  "keeps g m \<Longrightarrow> (\<And>x. keeps g (f x)) \<Longrightarrow> keeps g (State_Monad.bind m f)"
  by (simp add: keeps_def case_prod_beta del: split_paired_All)

lemma keeps_pure [untouched_rules]:
  "keeps g (ret x)" "keeps g (obj_get a)" "keeps g (obj_mod h)" "keeps g (obs f)"
  by (simp_all add: keeps_def prim_defs case_prod_beta)

lemma keeps_if [untouched_rules]:
  "(b \<Longrightarrow> keeps g m) \<Longrightarrow> (\<not> b \<Longrightarrow> keeps g n) \<Longrightarrow> keeps g (if b then m else n)"
  by simp

lemma keeps_ext:
  "(\<And>w. g (snd (f w)) = g w) \<Longrightarrow> keeps g (ext f)" "(\<And>w. g (h w) = g w) \<Longrightarrow> keeps g (ext0 h)"
  by (simp_all add: keeps_def prim_defs case_prod_beta)

text \<open>The program does not change the object.\<close>

definition inert :: "('s \<times> 'w, 'a) state \<Rightarrow> bool" where
  "inert m \<longleftrightarrow> (\<forall>sw. fst (snd (run_state m sw)) = fst sw)"

named_theorems inert_rules "programs that leave the object alone"

lemma inert_run: "inert m \<Longrightarrow> fst (snd (run_state m sw)) = fst sw"
  unfolding inert_def by blast

lemma inert_bind [inert_rules]:
  "inert m \<Longrightarrow> (\<And>x. inert (f x)) \<Longrightarrow> inert (State_Monad.bind m f)"
  by (simp add: inert_def case_prod_beta del: split_paired_All)

lemma inert_prims [inert_rules]:
  "inert (ret x)" "inert (obj_get a)" "inert (obs f)" "inert (ext e)" "inert (ext0 h)"
  by (simp_all add: inert_def prim_defs case_prod_beta)

lemma inert_if [inert_rules]:
  "(b \<Longrightarrow> inert m) \<Longrightarrow> (\<not> b \<Longrightarrow> inert n) \<Longrightarrow> inert (if b then m else n)"
  by simp

text \<open>A step that leaves the event bits alone.\<close>

definition silent :: "('w, 'e) rtos_env_scheme \<Rightarrow> ('w \<Rightarrow> 'w) \<Rightarrow> bool" where
  "silent E f \<longleftrightarrow> (\<forall>w. eg_get E (f w) = eg_get E w)"

lemma quiet_silent: "quiet E f \<Longrightarrow> silent E f"
  by (simp add: quiet_def silent_def)

lemma untouched_silent:
  "silent E (\<lambda>w. snd (g w)) \<Longrightarrow> untouched E k (ext g)" "silent E h \<Longrightarrow> untouched E k (ext0 h)"
  by (simp_all add: keeps_ext silent_def)

lemma mask_disjoint:
  fixes b k x :: u32
  assumes "b AND k = 0"
  shows "(x OR b) AND k = x AND k" "(x AND NOT b) AND k = x AND k"
proof -
  have *: "bit b n \<Longrightarrow> bit k n \<Longrightarrow> False" for n using assms by (metis bit_and_iff bit_0_eq bot_apply bot_bool_def)
  show "(x OR b) AND k = x AND k" by (rule bit_word_eqI) (auto simp: bit_simps dest: *)
  show "(x AND NOT b) AND k = x AND k" by (rule bit_word_eqI) (auto simp: bit_simps dest: *)
qed

lemma mask_cleared:
  fixes b k x :: u32
  assumes "k AND NOT b = 0"
  shows "(x AND NOT b) AND k = 0"
proof -
  have "(x AND NOT b) AND k = x AND (k AND NOT b)" by (simp add: ac_simps)
  then show ?thesis using assms by simp
qed

lemma mask_set: "(x OR b) AND b = (b :: u32)"
  by (rule bit_word_eqI) (auto simp: bit_simps)

lemma untouched_eg:
  assumes "rtos_law E n"
  shows "b AND k = 0 \<Longrightarrow> untouched E k (ext0 (eg_set E b))" "b AND k = 0 \<Longrightarrow> untouched E k (ext0 (eg_clear E b))"
    "untouched E k (ext (rtos_task_create E))" "untouched E k (ext0 (rtos_task_delete E))" "untouched E k (ext0 (rtos_delay E d))"
    "untouched E k (ext0 (set_clear_timeout E d))" "untouched E k (ext0 (sem_take E))" "untouched E k (ext0 (sem_give E))"
  by (simp_all add: keeps_ext rtos_bits [OF assms] mask_disjoint)

end
