(* ===== verification/Task_Lifecycle.thy ===== *)
theory Task_Lifecycle
  imports Audio_Base
begin

text \<open>
  The protocol by which the audio components own a FreeRTOS task. The main loop creates the task and keeps its handle; the task
  announces in the event group that it runs and, as its last act, that it has stopped; only then does the loop delete it
  and forget the handle. Any other step (a client's call, an interrupt, the world) leaves handle and announcements alone.

  \<open>task_sys\<close> is what the protocol sees of a component, \<open>life_step\<close> its interleaved steps together with the phase the task is really in.
  The locale \<open>task_owner\<close> states what each kind of step promises, \<open>running_task\<close> adds the component's running state; the
  invariants are proved in them once and hold for every component that is an instance.
\<close>

section \<open>Interleaved steps\<close>

datatype task_phase = NO_TASK | CREATED | LOOPING | LEAVING | ENDED

text \<open>The steps of the loop and of the others, and of the task (before its loop, one turn, after it: the flag says whether the loop goes on).\<close>

record 'c task_sys =
  sys_loop :: "'c \<Rightarrow> 'c \<Rightarrow> bool"
  sys_other :: "'c \<Rightarrow> 'c \<Rightarrow> bool"
  sys_begin :: "'c \<Rightarrow> bool \<Rightarrow> 'c \<Rightarrow> bool"
  sys_turn :: "'c \<Rightarrow> bool \<Rightarrow> 'c \<Rightarrow> bool"
  sys_end :: "'c \<Rightarrow> 'c \<Rightarrow> bool"
  sys_handle :: "'c \<Rightarrow> bool"
  sys_stopped :: "'c \<Rightarrow> bool"

text \<open>A turn of the loop that finds the announcement of the task's end deletes the task; one that ends with a handle it did not have, or had
  given up, has created a new task.\<close>

definition loop_phase :: "'c task_sys \<Rightarrow> 'c \<Rightarrow> 'c \<Rightarrow> task_phase \<Rightarrow> task_phase" where
  "loop_phase S c c' p =
     (if \<not> sys_handle S c' then NO_TASK else if p = NO_TASK \<or> sys_stopped S c then CREATED else p)"

inductive life_step :: "'c task_sys \<Rightarrow> 'c \<times> task_phase \<Rightarrow> 'c \<times> task_phase \<Rightarrow> bool" for S :: "'c task_sys" where
  life_loop: "sys_loop S c c' \<Longrightarrow> life_step S (c, p) (c', loop_phase S c c' p)"
| life_other: "sys_other S c c' \<Longrightarrow> life_step S (c, p) (c', p)"
| life_begin: "sys_begin S c go c' \<Longrightarrow> life_step S (c, CREATED) (c', if go then LOOPING else LEAVING)"
| life_turn: "sys_turn S c go c' \<Longrightarrow> life_step S (c, LOOPING) (c', if go then LOOPING else LEAVING)"
| life_end: "sys_end S c c' \<Longrightarrow> life_step S (c, LEAVING) (c', ENDED)"

inductive life_reach :: "'c task_sys \<Rightarrow> 'c \<Rightarrow> 'c \<times> task_phase \<Rightarrow> bool" for S :: "'c task_sys" and c0 where
  reach_start: "life_reach S c0 (c0, NO_TASK)"
| reach_life: "life_reach S c0 x \<Longrightarrow> life_step S x y \<Longrightarrow> life_reach S c0 y"

section \<open>The handle and the end of the task\<close>

locale task_owner =
  fixes sys :: "'e \<Rightarrow> 'c task_sys" and law :: "'e \<Rightarrow> bool"
  assumes loop_clears: "law E \<Longrightarrow> sys_loop (sys E) c c' \<Longrightarrow> \<not> sys_stopped (sys E) c'"
    and loop_keeps: "law E \<Longrightarrow> sys_loop (sys E) c c' \<Longrightarrow> \<not> sys_stopped (sys E) c \<Longrightarrow> sys_handle (sys E) c \<Longrightarrow> sys_handle (sys E) c'"
    and others_keep: "law E \<Longrightarrow> sys_other (sys E) c c' \<or> sys_begin (sys E) c go c' \<or> sys_turn (sys E) c go c' \<Longrightarrow>
      sys_handle (sys E) c' = sys_handle (sys E) c \<and> sys_stopped (sys E) c' = sys_stopped (sys E) c"
    and end_announces: "law E \<Longrightarrow> sys_end (sys E) c c' \<Longrightarrow> sys_handle (sys E) c' = sys_handle (sys E) c \<and> sys_stopped (sys E) c'"
begin

definition owner_inv :: "'e \<Rightarrow> 'c \<times> task_phase \<Rightarrow> bool" where
  "owner_inv E x \<longleftrightarrow> (sys_handle (sys E) (fst x) \<longleftrightarrow> snd x \<noteq> NO_TASK) \<and> (sys_stopped (sys E) (fst x) \<longleftrightarrow> snd x = ENDED)"

lemma owner_step:
  assumes "law E" "life_step (sys E) x y" "owner_inv E x"
  shows "owner_inv E y"
  using assms(2,3)
proof (cases rule: life_step.cases)
  case (life_loop c c' p)
  then show ?thesis
    using loop_clears [OF assms(1), of c c'] loop_keeps [OF assms(1), of c c'] assms(3)
    by (auto simp: owner_inv_def loop_phase_def)
next
  case (life_end c c')
  then show ?thesis using end_announces [OF assms(1), of c c'] assms(3) by (simp add: owner_inv_def)
qed (use others_keep [OF assms(1)] assms(3) in \<open>fastforce simp: owner_inv_def\<close>)+

lemma owner_reach:
  assumes "law E" "life_reach (sys E) c0 x" "\<not> sys_handle (sys E) c0" "\<not> sys_stopped (sys E) c0"
  shows "owner_inv E x"
  using assms(2)
  by induction (use assms owner_step in \<open>auto simp: owner_inv_def\<close>)

end

section \<open>The running state\<close>

locale running_task = task_owner sys law
  for sys :: "'e \<Rightarrow> 'c task_sys" and law :: "'e \<Rightarrow> bool" +
  fixes announced running :: "'e \<Rightarrow> 'c \<Rightarrow> bool"
  assumes loop_run: "law E \<Longrightarrow> sys_loop (sys E) c c' \<Longrightarrow> \<not> announced E c' \<and>
      (running E c' \<longrightarrow> \<not> sys_stopped (sys E) c \<and> (running E c \<or> announced E c))"
    and other_run: "law E \<Longrightarrow> sys_other (sys E) c c' \<Longrightarrow> announced E c' = announced E c \<and> (running E c' \<longrightarrow> running E c)"
begin

definition run_inv :: "'e \<Rightarrow> 'c \<times> task_phase \<Rightarrow> bool" where
  "run_inv E x \<longleftrightarrow> owner_inv E x \<and> (announced E (fst x) \<or> running E (fst x) \<longrightarrow> snd x \<in> {LOOPING, LEAVING, ENDED})"

lemma run_step:
  assumes "law E" "life_step (sys E) x y" "run_inv E x"
  shows "run_inv E y"
proof -
  have inv: "owner_inv E x" "owner_inv E y" using assms owner_step by (auto simp: run_inv_def)
  show ?thesis
    using assms(2)
  proof (cases rule: life_step.cases)
    case (life_loop c c' p)
    then show ?thesis
      using loop_run [OF assms(1), of c c'] loop_keeps [OF assms(1), of c c'] assms(3) inv
      by (auto simp: run_inv_def owner_inv_def loop_phase_def)
  next
    case (life_other c c' p)
    then show ?thesis using other_run [OF assms(1), of c c'] assms(3) inv by (auto simp: run_inv_def)
  qed (use assms(3) inv in \<open>auto simp: run_inv_def\<close>)
qed

lemma run_reach:
  assumes "law E" "life_reach (sys E) c0 x" "\<not> sys_handle (sys E) c0" "\<not> sys_stopped (sys E) c0"
    and "\<not> announced E c0" "\<not> running E c0"
  shows "run_inv E x"
  using assms(2)
  by induction (use assms run_step in \<open>auto simp: run_inv_def owner_inv_def\<close>)

end

end
