(* ===== verification/I2s_Audio.thy ===== *)
theory I2s_Audio
  imports Audio_Base
begin

text \<open>
  \<open>components/i2s_audio/i2s_audio.h\<close> and \<open>i2s_audio.cpp\<close>: an I2S port with its two channel handles, and the start and stop
  of its transmit (\<open>I2SAudioOut\<close>) and receive (\<open>I2SAudioIn\<close>) channels.

  The record \<open>i2s_bus\<close> holds the members of the port and of the reader and the writer registered at it. A channel handle
  is a number, \<open>None\<close> the null pointer. The I2S driver of ESP-IDF and the port's mutex are operations of \<open>'w i2s_env\<close>;
  an \<open>esp_err_t\<close> is represented by whether it is \<open>ESP_OK\<close>. The numbers of the slot bit widths are those of their
  enumeration, with 0 for \<open>I2S_SLOT_BIT_WIDTH_AUTO\<close>.
\<close>

section \<open>Settings\<close>

datatype i2s_slot_mode = I2S_SLOT_MODE_MONO | I2S_SLOT_MODE_STEREO

datatype i2s_std_slot_mask = I2S_STD_SLOT_LEFT | I2S_STD_SLOT_RIGHT | I2S_STD_SLOT_BOTH

datatype i2s_clk_src = I2S_CLK_SRC_DEFAULT | I2S_CLK_SRC_APLL

datatype i2s_dir = I2S_DIR_RX | I2S_DIR_TX

datatype i2s_access = ACCESS_FREE | ACCESS_RX | ACCESS_TX

definition I2S_SLOT_BIT_WIDTH_AUTO :: u8 where "I2S_SLOT_BIT_WIDTH_AUTO = 0"

record i2s_base =
  slot_mode :: i2s_slot_mode
  std_slot_mask :: i2s_std_slot_mask
  slot_bit_width :: u8
  i2s_comm_fmt :: string
  i2s_sample_rate :: u32
  use_apll :: bool
  mclk_multiple :: nat
  i2s_access_of :: i2s_access
  pdm :: bool
  is_fixed :: bool

record i2s_std_clk_config =
  sample_rate_hz :: u32
  clk_src :: i2s_clk_src
  clk_mclk_multiple :: nat

record i2s_std_slot_config =
  sc_data_bit_width :: u8
  sc_slot_bit_width :: u8
  sc_slot_mode :: i2s_slot_mode
  sc_slot_mask :: i2s_std_slot_mask
  sc_ws_width :: u32
  sc_bit_shift :: bool

record i2s_std_gpio_config =
  pin_mclk :: int
  pin_bclk :: int
  pin_ws :: int
  pin_dout :: int
  pin_din :: int

record i2s_std_config =
  clk_cfg :: i2s_std_clk_config
  slot_cfg :: i2s_std_slot_config
  gpio_cfg :: i2s_std_gpio_config

record i2s_chan_config =
  cc_id :: nat
  cc_master :: bool
  dma_desc_num :: u8
  dma_frame_num :: u32
  auto_clear :: bool

text \<open>The three default slot configurations are macros of the driver; \<open>has_apll\<close> and \<open>plain_esp32\<close> are the conditions of
  the preprocessor. \<open>i2s_new_channel\<close> gets the configuration and which of the two handles are asked for and gives the
  new handles, or nothing.\<close>

record 'w i2s_env = "'w rtos_env" +
  philips_slot_cfg :: "u8 \<Rightarrow> i2s_slot_mode \<Rightarrow> i2s_std_slot_config"
  pcm_slot_cfg :: "u8 \<Rightarrow> i2s_slot_mode \<Rightarrow> i2s_std_slot_config"
  msb_slot_cfg :: "u8 \<Rightarrow> i2s_slot_mode \<Rightarrow> i2s_std_slot_config"
  has_apll :: bool
  plain_esp32 :: bool
  port_lock :: "'w \<Rightarrow> 'w"
  port_unlock :: "'w \<Rightarrow> 'w"
  i2s_new_channel :: "i2s_chan_config \<Rightarrow> bool \<Rightarrow> bool \<Rightarrow> 'w \<Rightarrow> (nat option \<times> nat option) option \<times> 'w"
  i2s_channel_init_std_mode :: "nat \<Rightarrow> i2s_std_config \<Rightarrow> 'w \<Rightarrow> bool \<times> 'w"
  i2s_channel_get_info :: "nat option \<Rightarrow> 'w \<Rightarrow> i2s_dir option \<times> 'w"
  i2s_channel_register_event_callback :: "nat option \<Rightarrow> bool \<Rightarrow> 'w \<Rightarrow> bool \<times> 'w"
  i2s_channel_enable :: "nat option \<Rightarrow> 'w \<Rightarrow> bool \<times> 'w"
  i2s_channel_disable :: "nat option \<Rightarrow> 'w \<Rightarrow> bool \<times> 'w"
  i2s_del_channel :: "nat option \<Rightarrow> 'w \<Rightarrow> bool \<times> 'w"

definition num_of_channels :: "i2s_base \<Rightarrow> int" where
  "num_of_channels b = (if std_slot_mask b = I2S_STD_SLOT_LEFT \<or> std_slot_mask b = I2S_STD_SLOT_RIGHT then 1 else 2)"

definition i2s_bits_per_sample :: "i2s_base \<Rightarrow> u8" where
  "i2s_bits_per_sample b = slot_bit_width b"

text \<open>The settings the configuration makes before the first use.\<close>

definition set_slot_mode :: "i2s_slot_mode \<Rightarrow> i2s_base \<Rightarrow> i2s_base" where
  "set_slot_mode x s = s\<lparr>slot_mode := x\<rparr>"

definition set_std_slot_mask :: "i2s_std_slot_mask \<Rightarrow> i2s_base \<Rightarrow> i2s_base" where
  "set_std_slot_mask x s = s\<lparr>std_slot_mask := x\<rparr>"

definition set_slot_bit_width :: "u8 \<Rightarrow> i2s_base \<Rightarrow> i2s_base" where
  "set_slot_bit_width x s = s\<lparr>slot_bit_width := x\<rparr>"

definition set_comm_fmt_string :: "string \<Rightarrow> i2s_base \<Rightarrow> i2s_base" where
  "set_comm_fmt_string x s = s\<lparr>i2s_comm_fmt := x\<rparr>"

definition set_sample_rate :: "u32 \<Rightarrow> i2s_base \<Rightarrow> i2s_base" where
  "set_sample_rate x s = s\<lparr>i2s_sample_rate := x\<rparr>"

definition set_use_apll :: "u32 \<Rightarrow> i2s_base \<Rightarrow> i2s_base" where
  "set_use_apll x s = s\<lparr>use_apll := (x \<noteq> 0)\<rparr>"

definition set_mclk_multiple :: "nat \<Rightarrow> i2s_base \<Rightarrow> i2s_base" where
  "set_mclk_multiple x s = s\<lparr>mclk_multiple := x\<rparr>"

definition set_pdm :: "bool \<Rightarrow> i2s_base \<Rightarrow> i2s_base" where
  "set_pdm x s = s\<lparr>pdm := x\<rparr>"

definition has_fixed_i2s_rate :: "i2s_base \<Rightarrow> bool" where
  "has_fixed_i2s_rate b = is_fixed b"

definition has_fixed_i2s_bitdepth :: "i2s_base \<Rightarrow> bool" where
  "has_fixed_i2s_bitdepth b = is_fixed b"

definition get_std_clk_cfg :: "('w, 'e) i2s_env_scheme \<Rightarrow> i2s_base \<Rightarrow> i2s_std_clk_config" where
  "get_std_clk_cfg E b =
     \<lparr>sample_rate_hz = i2s_sample_rate b,
      clk_src = (if has_apll E \<and> use_apll b then I2S_CLK_SRC_APLL else I2S_CLK_SRC_DEFAULT),
      clk_mclk_multiple = mclk_multiple b\<rparr>"

definition get_std_slot_cfg :: "('w, 'e) i2s_env_scheme \<Rightarrow> i2s_base \<Rightarrow> i2s_std_slot_config" where
  "get_std_slot_cfg E b =
     (let cfg = (if i2s_comm_fmt b = ''std'' then philips_slot_cfg E (slot_bit_width b) (slot_mode b)
                 else if i2s_comm_fmt b = ''pcm'' then pcm_slot_cfg E (slot_bit_width b) (slot_mode b)
                 else msb_slot_cfg E (slot_bit_width b) (slot_mode b));
          cfg1 = (if plain_esp32 E
                  then (if slot_bit_width b \<noteq> I2S_SLOT_BIT_WIDTH_AUTO
                        then cfg\<lparr>sc_ws_width := ucast (slot_bit_width b)\<rparr> else cfg)
                  else cfg\<lparr>sc_slot_bit_width := slot_bit_width b\<rparr>)
      in cfg1\<lparr>sc_slot_mask := std_slot_mask b\<rparr>)"

section \<open>The port\<close>

definition I2S_GPIO_UNUSED :: int where "I2S_GPIO_UNUSED = -1"

record i2s_bus =
  audio_in :: bool
  audio_out :: bool
  i2s_role_master :: bool
  tx_handle :: "nat option"
  rx_handle :: "nat option"
  mclk_pin :: int
  bclk_pin :: int
  lrclk_pin :: int
  i2s_port :: nat
  dma_buffer_length :: u32
  dma_buffer_count :: u8
  in_base :: i2s_base
  in_din_pin :: int
  out_base :: i2s_base
  out_dout_pin :: int
  callbacks_registered :: bool

text \<open>A port with a reader and a writer whose settings are given.\<close>

definition bus_init :: "i2s_base \<Rightarrow> i2s_base \<Rightarrow> i2s_bus" where
  "bus_init inb outb =
     \<lparr>audio_in = False, audio_out = False, i2s_role_master = True, tx_handle = None, rx_handle = None,
      mclk_pin = I2S_GPIO_UNUSED, bclk_pin = I2S_GPIO_UNUSED, lrclk_pin = 0, i2s_port = 0, dma_buffer_length = 240,
      dma_buffer_count = 4, in_base = inb, in_din_pin = I2S_GPIO_UNUSED, out_base = outb,
      out_dout_pin = I2S_GPIO_UNUSED, callbacks_registered = False\<rparr>"

definition register_in :: "i2s_bus \<Rightarrow> i2s_bus" where
  "register_in s = s\<lparr>audio_in := True\<rparr>"

definition register_out :: "i2s_bus \<Rightarrow> i2s_bus" where
  "register_out s = s\<lparr>audio_out := True\<rparr>"

text \<open>The settings of the port and of its two users.\<close>

definition set_mclk_pin :: "int \<Rightarrow> i2s_bus \<Rightarrow> i2s_bus" where
  "set_mclk_pin x s = s\<lparr>mclk_pin := x\<rparr>"

definition set_bclk_pin :: "int \<Rightarrow> i2s_bus \<Rightarrow> i2s_bus" where
  "set_bclk_pin x s = s\<lparr>bclk_pin := x\<rparr>"

definition set_lrclk_pin :: "int \<Rightarrow> i2s_bus \<Rightarrow> i2s_bus" where
  "set_lrclk_pin x s = s\<lparr>lrclk_pin := x\<rparr>"

definition set_port :: "nat \<Rightarrow> i2s_bus \<Rightarrow> i2s_bus" where
  "set_port x s = s\<lparr>i2s_port := x\<rparr>"

definition set_i2s_role :: "bool \<Rightarrow> i2s_bus \<Rightarrow> i2s_bus" where
  "set_i2s_role x s = s\<lparr>i2s_role_master := x\<rparr>"

definition set_din_pin :: "int \<Rightarrow> i2s_bus \<Rightarrow> i2s_bus" where
  "set_din_pin x s = s\<lparr>in_din_pin := x\<rparr>"

definition set_dout_pin :: "int \<Rightarrow> i2s_bus \<Rightarrow> i2s_bus" where
  "set_dout_pin x s = s\<lparr>out_dout_pin := x\<rparr>"

definition is_adjustable :: "i2s_bus \<Rightarrow> bool" where
  "is_adjustable s \<longleftrightarrow> \<not> is_fixed (out_base s)"

type_synonym ('w, 'a) bus_prog = "(i2s_bus \<times> 'w, 'a) state"

definition get_pin_config :: "i2s_bus \<Rightarrow> i2s_std_gpio_config" where
  "get_pin_config s =
     \<lparr>pin_mclk = mclk_pin s, pin_bclk = bclk_pin s, pin_ws = lrclk_pin s,
      pin_dout = (if audio_out s then out_dout_pin s else I2S_GPIO_UNUSED),
      pin_din = (if audio_in s then in_din_pin s else I2S_GPIO_UNUSED)\<rparr>"

definition get_dma_buffer_size_bytes :: "i2s_bus \<Rightarrow> u32" where
  "get_dma_buffer_size_bytes s =
     dma_buffer_length s * word_of_int (num_of_channels (out_base s)) * ucast (i2s_bits_per_sample (out_base s)) div 8"

definition get_dma_buffer_size_ms :: "i2s_bus \<Rightarrow> u32" where
  "get_dma_buffer_size_ms s = dma_buffer_length s * 1000 div i2s_sample_rate (out_base s)"

definition std_cfg_of :: "('w, 'e) i2s_env_scheme \<Rightarrow> i2s_base \<Rightarrow> i2s_bus \<Rightarrow> i2s_std_config" where
  "std_cfg_of E b s =
     \<lparr>clk_cfg = get_std_clk_cfg E b, slot_cfg = get_std_slot_cfg E b, gpio_cfg = get_pin_config s\<rparr>"

definition init_driver :: "('w, 'e) i2s_env_scheme \<Rightarrow> i2s_std_config \<Rightarrow> ('w, bool) bus_prog" where
  "init_driver E std_cfg = do {
     ext0 (port_lock E);
     s \<leftarrow> obj_get id;
     r \<leftarrow> ext (i2s_new_channel E
       \<lparr>cc_id = i2s_port s, cc_master = i2s_role_master s, dma_desc_num = dma_buffer_count s,
        dma_frame_num = dma_buffer_length s, auto_clear = True\<rparr> (audio_out s) (audio_in s));
     case r of
       None \<Rightarrow> do { ext0 (port_unlock E); ret False }
     | Some (tx, rx) \<Rightarrow> do {
         (if audio_out s then obj_mod (\<lambda>s. s\<lparr>tx_handle := tx\<rparr>) else ret ());
         (if audio_in s then obj_mod (\<lambda>s. s\<lparr>rx_handle := rx\<rparr>) else ret ());
         t \<leftarrow> obj_get tx_handle;
         ok_tx \<leftarrow> (case t of
            None \<Rightarrow> ret True
          | Some h \<Rightarrow> do {
              ok \<leftarrow> ext (i2s_channel_init_std_mode E h std_cfg);
              if ok then ret True
              else do {
                _ \<leftarrow> ext (i2s_del_channel E t);
                obj_mod (\<lambda>s. s\<lparr>tx_handle := None\<rparr>);
                ret False
              }
            });
         if \<not> ok_tx then do { ext0 (port_unlock E); ret False }
         else do {
           r \<leftarrow> obj_get rx_handle;
           ok_rx \<leftarrow> (case r of
              None \<Rightarrow> ret True
            | Some h \<Rightarrow> do {
                ok \<leftarrow> ext (i2s_channel_init_std_mode E h std_cfg);
                if ok then ret True
                else do {
                  _ \<leftarrow> ext (i2s_del_channel E r);
                  obj_mod (\<lambda>s. s\<lparr>rx_handle := None\<rparr>);
                  ret False
                }
              });
           ext0 (port_unlock E);
           ret ok_rx
         }
       }
   }"

section \<open>Transmit channel\<close>

text \<open>The argument says whether the caller's callbacks have an \<open>on_sent\<close> member.\<close>

definition out_handle_ready :: "('w, 'e) i2s_env_scheme \<Rightarrow> ('w, bool) bus_prog" where
  "out_handle_ready E = do {
     t \<leftarrow> obj_get tx_handle;
     r \<leftarrow> obj_get rx_handle;
     if t \<noteq> None then ret True
     else if r \<noteq> None then ret False
     else do {
       cfg \<leftarrow> obj_get (\<lambda>s. std_cfg_of E (out_base s) s);
       init_driver E cfg
     }
   }"

definition out_enable :: "('w, 'e) i2s_env_scheme \<Rightarrow> bool \<Rightarrow> ('w, bool) bus_prog" where
  "out_enable E on_sent = do {
     h \<leftarrow> obj_get tx_handle;
     info \<leftarrow> ext (i2s_channel_get_info E h);
     if info \<noteq> Some I2S_DIR_TX then ret False
     else do {
       reg \<leftarrow> obj_get callbacks_registered;
       registered \<leftarrow> (if on_sent \<and> \<not> reg then do {
           ok \<leftarrow> ext (i2s_channel_register_event_callback E h True);
           (if ok then obj_mod (\<lambda>s. s\<lparr>callbacks_registered := True\<rparr>) else ret ());
           ret ok
         } else ret True);
       if \<not> registered then ret False
       else do {
         ok \<leftarrow> ext (i2s_channel_enable E h);
         if ok then ret True
         else do {
           _ \<leftarrow> ext (i2s_del_channel E h);
           obj_mod (\<lambda>s. s\<lparr>tx_handle := None, callbacks_registered := False\<rparr>);
           ret False
         }
       }
     }
   }"

definition out_start_i2s_channel :: "('w, 'e) i2s_env_scheme \<Rightarrow> bool \<Rightarrow> ('w, bool) bus_prog" where
  "out_start_i2s_channel E on_sent = do {
     ready \<leftarrow> out_handle_ready E;
     if \<not> ready then ret False else out_enable E on_sent
   }"

definition out_stop_i2s_channel :: "('w, 'e) i2s_env_scheme \<Rightarrow> ('w, bool) bus_prog" where
  "out_stop_i2s_channel E = do {
     t \<leftarrow> obj_get tx_handle;
     if t = None then ret False
     else do {
       ok \<leftarrow> ext (i2s_channel_disable E t);
       if \<not> ok then ret False
       else do {
         r \<leftarrow> obj_get rx_handle;
         deleted \<leftarrow> (if r = None then do {
             ok \<leftarrow> ext (i2s_del_channel E t);
             (if ok then obj_mod (\<lambda>s. s\<lparr>tx_handle := None\<rparr>) else ret ());
             ret ok
           } else ret True);
         if \<not> deleted then ret False
         else do { obj_mod (\<lambda>s. s\<lparr>callbacks_registered := False\<rparr>); ret True }
       }
     }
   }"

section \<open>Receive channel\<close>

definition in_handle_ready :: "('w, 'e) i2s_env_scheme \<Rightarrow> ('w, bool) bus_prog" where
  "in_handle_ready E = do {
     r \<leftarrow> obj_get rx_handle;
     t \<leftarrow> obj_get tx_handle;
     if r \<noteq> None then ret True
     else if t \<noteq> None then ret False
     else do {
       cfg \<leftarrow> obj_get (\<lambda>s. std_cfg_of E (in_base s) s);
       init_driver E cfg
     }
   }"

definition in_enable :: "('w, 'e) i2s_env_scheme \<Rightarrow> ('w, bool) bus_prog" where
  "in_enable E = do {
     h \<leftarrow> obj_get rx_handle;
     info \<leftarrow> ext (i2s_channel_get_info E h);
     if info \<noteq> Some I2S_DIR_RX then ret False
     else do {
       ok \<leftarrow> ext (i2s_channel_enable E h);
       if ok then ret True
       else do {
         _ \<leftarrow> ext (i2s_del_channel E h);
         ret False
       }
     }
   }"

definition in_start_i2s_channel :: "('w, 'e) i2s_env_scheme \<Rightarrow> ('w, bool) bus_prog" where
  "in_start_i2s_channel E = do {
     ready \<leftarrow> in_handle_ready E;
     if \<not> ready then ret False else in_enable E
   }"

definition in_stop_i2s_channel :: "('w, 'e) i2s_env_scheme \<Rightarrow> ('w, bool) bus_prog" where
  "in_stop_i2s_channel E = do {
     r \<leftarrow> obj_get rx_handle;
     if r = None then ret False
     else do {
       ok \<leftarrow> ext (i2s_channel_disable E r);
       if \<not> ok then ret False
       else do {
         ok \<leftarrow> ext (i2s_del_channel E r);
         if \<not> ok then ret False
         else do { obj_mod (\<lambda>s. s\<lparr>rx_handle := None\<rparr>); ret True }
       }
     }
   }"

end
