(* ===== verification/I2s_Microphone.thy ===== *)
theory I2s_Microphone
  imports I2s_Audio "HOL-Library.Signed_Division"
begin

text \<open>
  \<open>class I2SAudioMicrophone\<close> of \<open>components/i2s_audio/microphone/i2s_audio_microphone.h\<close> and \<open>.cpp\<close>: the microphone, its main
  loop, and its task, which reads 48 kHz samples and hands every third one to the listeners.

  The record \<open>mic\<close> holds the members; the status flags of the base class \<open>Component\<close> are among them, and \<open>mic_bus\<close> is the
  I2S port. The task is its start (\<open>mic_task_start\<close>), one turn of its reading loop (\<open>mic_task_step\<close>, which says whether the loop
  goes on) and its end (\<open>mic_task_end\<close>). Samples of 32 bits are read from the byte vector in little-endian order.
  The conversions of \<open>AudioStreamInfo\<close> and the packing of samples are operations of \<open>'w mic_env\<close>.
\<close>

section \<open>State and environment\<close>

definition MAX_LISTENERS :: nat where "MAX_LISTENERS = 16"
definition READ_DURATION_MS :: u32 where "READ_DURATION_MS = 16"
definition DC_OFFSET_MOVING_AVERAGE_COEFFICIENT_DENOMINATOR :: int where
  "DC_OFFSET_MOVING_AVERAGE_COEFFICIENT_DENOMINATOR = 1000"

definition MIC_COMMAND_STOP :: u32 where "MIC_COMMAND_STOP = push_bit 0 1"
definition MIC_TASK_STARTING :: u32 where "MIC_TASK_STARTING = push_bit 10 1"
definition MIC_TASK_RUNNING :: u32 where "MIC_TASK_RUNNING = push_bit 11 1"
definition MIC_TASK_STOPPED :: u32 where "MIC_TASK_STOPPED = push_bit 13 1"

datatype read_err = READ_OK | READ_TIMEOUT | READ_FAIL

record mic =
  mic_state_of :: mic_state
  mic_failed :: bool
  mic_error :: bool
  mic_warning :: bool
  active_listeners_semaphore :: bool
  mic_event_group :: bool
  mic_task_handle :: bool
  correct_dc_offset :: bool
  dc_offset :: u32
  mic_stream_info :: stream_info
  mic_bus :: i2s_bus

text \<open>\<open>i2s_channel_read\<close> gives the error and the bytes read; \<open>ticks_ms\<close> and \<open>ms_ticks\<close> are \<open>pdTICKS_TO_MS\<close> and
  \<open>pdMS_TO_TICKS\<close>.\<close>

record 'w mic_env = "'w i2s_env" +
  i2s_channel_read :: "nat option \<Rightarrow> nat \<Rightarrow> nat \<Rightarrow> 'w \<Rightarrow> (read_err \<times> u8 list) \<times> 'w"
  ticks_ms :: "nat \<Rightarrow> nat"
  ms_ticks :: "u32 \<Rightarrow> nat"
  ms_to_bytes :: "stream_info \<Rightarrow> u32 \<Rightarrow> nat"
  samples_to_bytes :: "stream_info \<Rightarrow> nat \<Rightarrow> nat"
  bytes_to_samples :: "stream_info \<Rightarrow> nat \<Rightarrow> nat"
  unpack_audio_sample_to_q31 :: "u8 list \<Rightarrow> u32"
  pack_q31_as_audio_sample :: "u32 \<Rightarrow> nat \<Rightarrow> u8 list"
  has_data_callbacks :: "'w \<Rightarrow> bool"
  mic_data_callback :: "u8 list \<Rightarrow> 'w \<Rightarrow> 'w"

definition set_correct_dc_offset :: "bool \<Rightarrow> mic \<Rightarrow> mic" where
  "set_correct_dc_offset x s = s\<lparr>correct_dc_offset := x\<rparr>"

type_synonym ('w, 'a) mic_prog = "(mic \<times> 'w, 'a) state"

definition on_mic_bus :: "('w, 'a) bus_prog \<Rightarrow> ('w, 'a) mic_prog" where
  "on_mic_bus m = State (\<lambda>(s, w). case run_state m (mic_bus s, w) of (r, (b, w')) \<Rightarrow> (r, (s\<lparr>mic_bus := b\<rparr>, w')))"

section \<open>Main loop\<close>

definition configure_stream_settings :: "('w, unit) mic_prog" where
  "configure_stream_settings = obj_mod (\<lambda>s.
     let b = in_base (mic_bus s);
         bits_per_sample = (if slot_bit_width b \<noteq> I2S_SLOT_BIT_WIDTH_AUTO then slot_bit_width b else 32);
         channel_count = (if slot_mode b = I2S_SLOT_MODE_STEREO then 2 else word_of_int (num_of_channels b))
     in s\<lparr>mic_stream_info := \<lparr>si_bits = bits_per_sample, si_channels = channel_count, si_rate = 16000\<rparr>\<rparr>)"

definition mic_setup :: "'w mic_env \<Rightarrow> ('w, unit) mic_prog" where
  "mic_setup E = do {
     b \<leftarrow> obj_get (\<lambda>s. pdm (in_base (mic_bus s)));
     if b then obj_mod (\<lambda>s. s\<lparr>mic_failed := True\<rparr>)
     else do {
       sem \<leftarrow> ext (sem_create E MAX_LISTENERS MAX_LISTENERS);
       obj_mod (\<lambda>s. s\<lparr>active_listeners_semaphore := sem\<rparr>);
       if \<not> sem then obj_mod (\<lambda>s. s\<lparr>mic_failed := True\<rparr>)
       else do {
         eg \<leftarrow> ext (eg_create E);
         obj_mod (\<lambda>s. s\<lparr>mic_event_group := eg\<rparr>);
         if \<not> eg then obj_mod (\<lambda>s. s\<lparr>mic_failed := True\<rparr>)
         else configure_stream_settings
       }
     }
   }"

definition mic_start :: "'w mic_env \<Rightarrow> ('w, unit) mic_prog" where
  "mic_start E = do {
     failed \<leftarrow> obj_get mic_failed;
     if failed then ret () else ext0 (sem_take E)
   }"

definition mic_stop :: "'w mic_env \<Rightarrow> ('w, unit) mic_prog" where
  "mic_stop E = do {
     skip \<leftarrow> obj_get (\<lambda>s. mic_state_of s = MIC_STOPPED \<or> mic_failed s);
     if skip then ret () else ext0 (sem_give E)
   }"

definition start_driver :: "'w mic_env \<Rightarrow> ('w, bool) mic_prog" where
  "start_driver E = do {
     ok \<leftarrow> on_mic_bus (in_start_i2s_channel E);
     if \<not> ok then ret False
     else do { configure_stream_settings; ret True }
   }"

definition stop_driver :: "'w mic_env \<Rightarrow> ('w, bool) mic_prog" where
  "stop_driver E = on_mic_bus (in_stop_i2s_channel E)"

text \<open>\<open>status_momentary_error\<close> sets the error flag and has it cleared after a while.\<close>

definition mic_momentary_error :: "'w mic_env \<Rightarrow> ('w, unit) mic_prog" where
  "mic_momentary_error E = do { obj_mod (\<lambda>s. s\<lparr>mic_error := True\<rparr>); ext0 (set_clear_timeout E 1000) }"

text \<open>Handling the bits the task has set.\<close>

definition mic_loop_events :: "'w mic_env \<Rightarrow> ('w, unit) mic_prog" where
  "mic_loop_events E = do {
     event_group_bits \<leftarrow> obs (eg_get E);
     (if event_group_bits AND MIC_TASK_STARTING \<noteq> 0 then ext0 (eg_clear E MIC_TASK_STARTING) else ret ());
     (if event_group_bits AND MIC_TASK_RUNNING \<noteq> 0 then do {
        ext0 (eg_clear E MIC_TASK_RUNNING);
        obj_mod (\<lambda>s. s\<lparr>mic_state_of := MIC_RUNNING\<rparr>)
      } else ret ());
     (if event_group_bits AND MIC_TASK_STOPPED \<noteq> 0 then do {
        ext0 (rtos_task_delete E);
        obj_mod (\<lambda>s. s\<lparr>mic_task_handle := False\<rparr>);
        _ \<leftarrow> stop_driver E;
        ext0 (eg_clear E ALL_BITS);
        obj_mod (\<lambda>s. s\<lparr>mic_error := False, mic_state_of := MIC_STOPPED\<rparr>)
      } else ret ())
   }"

text \<open>Starting and stopping by the number of listeners.\<close>

definition mic_loop_listeners :: "'w mic_env \<Rightarrow> ('w, unit) mic_prog" where
  "mic_loop_listeners E = do {
     count \<leftarrow> obs (sem_count E);
     obj_mod (\<lambda>s. if count < MAX_LISTENERS \<and> mic_state_of s = MIC_STOPPED then s\<lparr>mic_state_of := MIC_STARTING\<rparr> else s);
     count \<leftarrow> obs (sem_count E);
     obj_mod (\<lambda>s. if count = MAX_LISTENERS \<and> mic_state_of s = MIC_RUNNING then s\<lparr>mic_state_of := MIC_STOPPING\<rparr> else s)
   }"

definition mic_loop_starting :: "'w mic_env \<Rightarrow> ('w, unit) mic_prog" where
  "mic_loop_starting E = do {
     err \<leftarrow> obj_get mic_error;
     if err then ret ()
     else do {
       ok \<leftarrow> start_driver E;
       if \<not> ok then do { mic_momentary_error E; _ \<leftarrow> stop_driver E; ret () }
       else do {
         task \<leftarrow> obj_get mic_task_handle;
         if task then ret ()
         else do {
           created \<leftarrow> ext (rtos_task_create E);
           obj_mod (\<lambda>s. s\<lparr>mic_task_handle := created\<rparr>);
           if created then ret ()
           else do { mic_momentary_error E; _ \<leftarrow> stop_driver E; ret () }
         }
       }
     }
   }"

definition mic_loop :: "'w mic_env \<Rightarrow> ('w, unit) mic_prog" where
  "mic_loop E = do {
     mic_loop_events E;
     mic_loop_listeners E;
     st \<leftarrow> obj_get mic_state_of;
     case st of
       MIC_STARTING \<Rightarrow> mic_loop_starting E
     | MIC_RUNNING \<Rightarrow> ret ()
     | MIC_STOPPING \<Rightarrow> ext0 (eg_set E MIC_COMMAND_STOP)
     | MIC_STOPPED \<Rightarrow> ret ()
   }"

section \<open>Samples\<close>

definition mic_read :: "'w mic_env \<Rightarrow> nat \<Rightarrow> nat \<Rightarrow> ('w, u8 list) mic_prog" where
  "mic_read E len ticks_to_wait = do {
     h \<leftarrow> obj_get (\<lambda>s. rx_handle (mic_bus s));
     r \<leftarrow> ext (i2s_channel_read E h len (ticks_ms E ticks_to_wait));
     if fst r \<noteq> READ_OK \<and> (fst r \<noteq> READ_TIMEOUT \<or> ticks_to_wait \<noteq> 0) then do {
       obj_mod (\<lambda>s. s\<lparr>mic_warning := True\<rparr>);
       ret []
     } else if length (snd r) = 0 \<and> ticks_to_wait > 0 then do {
       obj_mod (\<lambda>s. s\<lparr>mic_warning := True\<rparr>);
       ret []
     } else do {
       obj_mod (\<lambda>s. s\<lparr>mic_warning := False\<rparr>);
       ret (snd r)
     }
   }"

text \<open>The subsampling loop on the 32-bit samples, in place.\<close>

function subsample_loop :: "nat \<Rightarrow> nat \<Rightarrow> u32 list \<Rightarrow> u32 list" where
  "subsample_loop i samples_read samples_32 =
     (if i < samples_read then subsample_loop (i + 3) samples_read (samples_32[i div 3 := samples_32 ! i])
      else samples_32)"
  by auto
termination by (relation "measure (\<lambda>(i, n, xs). n - i)") auto

declare subsample_loop.simps [simp del]

text \<open>The vector after the subsampling: \<open>bytes\<close> is what was read into it.\<close>

definition subsampled :: "u8 list \<Rightarrow> u8 list" where
  "subsampled bytes =
     (let samples_read = length bytes div 4
      in take (samples_read div 3 * 4) (concat (map le32_bytes (subsample_loop 0 samples_read (le32_list_of bytes)))))"

text \<open>One sample of the correction loop: the running sum and the corrected bytes. \<open>sample -= dc_offset_\<close> and the
  products below wrap at 32 bits.\<close>

fun dc_loop :: "'w mic_env \<Rightarrow> nat \<Rightarrow> u32 \<Rightarrow> nat \<Rightarrow> int \<Rightarrow> u8 list \<Rightarrow> int \<times> u8 list" where
  "dc_loop E bytes_per_sample dc 0 acc data = (acc, data)"
| "dc_loop E bytes_per_sample dc (Suc k) acc data =
     (let sample = unpack_audio_sample_to_q31 E (take bytes_per_sample data);
          r = dc_loop E bytes_per_sample dc k (acc + sint sample) (drop bytes_per_sample data)
      in (fst r, pack_q31_as_audio_sample E (sample - dc) bytes_per_sample @ snd r))"

definition dc_update :: "u32 \<Rightarrow> u32 \<Rightarrow> u32" where
  "dc_update new_offset dc =
     word_of_int (sint new_offset sdiv DC_OFFSET_MOVING_AVERAGE_COEFFICIENT_DENOMINATOR +
       sint (word_of_int ((DC_OFFSET_MOVING_AVERAGE_COEFFICIENT_DENOMINATOR - 1) * sint dc) :: u32)
         sdiv DC_OFFSET_MOVING_AVERAGE_COEFFICIENT_DENOMINATOR)"

definition fix_dc_offset :: "'w mic_env \<Rightarrow> u8 list \<Rightarrow> mic \<Rightarrow> u8 list \<times> mic" where
  "fix_dc_offset E data s =
     (let bytes_per_sample = samples_to_bytes E (mic_stream_info s) 1;
          total_samples = bytes_to_samples E (mic_stream_info s) (length data)
      in if total_samples = 0 then (data, s)
         else let r = dc_loop E bytes_per_sample (dc_offset s) total_samples 0 data;
                  new_offset = word_of_int (fst r sdiv int total_samples)
              in (snd r, s\<lparr>dc_offset := dc_update new_offset (dc_offset s)\<rparr>))"

section \<open>The task\<close>

definition mic_task_start :: "'w mic_env \<Rightarrow> ('w, nat) mic_prog" where
  "mic_task_start E = do {
     ext0 (eg_set E MIC_TASK_STARTING);
     info \<leftarrow> obj_get mic_stream_info;
     ext0 (eg_set E MIC_TASK_RUNNING);
     ret (3 * ms_to_bytes E info READ_DURATION_MS)
   }"

definition mic_task_step :: "'w mic_env \<Rightarrow> nat \<Rightarrow> ('w, bool) mic_prog" where
  "mic_task_step E bytes_to_read = do {
     bits \<leftarrow> obs (eg_get E);
     if bits AND MIC_COMMAND_STOP \<noteq> 0 then ret False
     else do {
       listening \<leftarrow> obs (has_data_callbacks E);
       (if listening then do {
          bytes \<leftarrow> mic_read E bytes_to_read (2 * ms_ticks E READ_DURATION_MS);
          correct \<leftarrow> obj_get correct_dc_offset;
          out \<leftarrow> (if correct then do {
              fixed \<leftarrow> obj_get (fix_dc_offset E (subsampled bytes));
              obj_mod (\<lambda>_. snd fixed);
              ret (fst fixed)
            } else ret (subsampled bytes));
          ext0 (mic_data_callback E out)
        } else ext0 (rtos_delay E (ms_ticks E READ_DURATION_MS)));
       ret True
     }
   }"

definition mic_task_end :: "'w mic_env \<Rightarrow> ('w, unit) mic_prog" where
  "mic_task_end E = ext0 (eg_set E MIC_TASK_STOPPED)"

end
