(* ===== verification/I2s_Audio_Correct.thy ===== *)
theory I2s_Audio_Correct
  imports I2s_Audio
begin

text \<open>
  Properties of the I2S port: the two handles of the port are exactly the channels the driver has allocated, so nothing leaks and
  nothing dangles, except after a failed start of the receive channel; and what each channel's life means for
  the other one.

  Named hypothesis about the I2S driver: \<open>i2s_law\<close>, over the sets of the allocated and of the running channels; and
  \<open>bus_quiet\<close>: the driver touches neither the event group nor the semaphore of the components above it.
\<close>

section \<open>The driver\<close>

text \<open>New channels are fresh; a channel can be deleted exactly when it is allocated and not running, enabled only when
  it is allocated, and disabled exactly when it is running. Nothing else changes the two sets.\<close>

definition i2s_law :: "('w, 'e) i2s_env_scheme \<Rightarrow> ('w \<Rightarrow> nat set) \<Rightarrow> ('w \<Rightarrow> nat set) \<Rightarrow> bool" where
  "i2s_law E alloc run \<longleftrightarrow>
     (\<forall>w. alloc (port_lock E w) = alloc w \<and> run (port_lock E w) = run w) \<and>
     (\<forall>w. alloc (port_unlock E w) = alloc w \<and> run (port_unlock E w) = run w) \<and>
     (\<forall>c a b w w'. i2s_new_channel E c a b w = (None, w') \<longrightarrow> alloc w' = alloc w \<and> run w' = run w) \<and>
     (\<forall>c a b w t r w'. i2s_new_channel E c a b w = (Some (t, r), w') \<longrightarrow>
        (t \<noteq> None) = a \<and> (r \<noteq> None) = b \<and> set_option t \<inter> set_option r = {} \<and>
        (set_option t \<union> set_option r) \<inter> alloc w = {} \<and> alloc w' = alloc w \<union> set_option t \<union> set_option r \<and> run w' = run w) \<and>
     (\<forall>h c w. alloc (snd (i2s_channel_init_std_mode E h c w)) = alloc w \<and> run (snd (i2s_channel_init_std_mode E h c w)) = run w) \<and>
     (\<forall>h w. alloc (snd (i2s_channel_get_info E h w)) = alloc w \<and> run (snd (i2s_channel_get_info E h w)) = run w) \<and>
     (\<forall>h b w. alloc (snd (i2s_channel_register_event_callback E h b w)) = alloc w \<and>
        run (snd (i2s_channel_register_event_callback E h b w)) = run w) \<and>
     (\<forall>h w. alloc (snd (i2s_channel_enable E h w)) = alloc w \<and>
        run (snd (i2s_channel_enable E h w)) = (if fst (i2s_channel_enable E h w) then run w \<union> set_option h else run w) \<and>
        (fst (i2s_channel_enable E h w) \<longrightarrow> set_option h \<subseteq> alloc w)) \<and>
     (\<forall>h w. alloc (snd (i2s_channel_disable E h w)) = alloc w \<and>
        run (snd (i2s_channel_disable E h w)) = run w - set_option h \<and>
        fst (i2s_channel_disable E h w) = (h \<noteq> None \<and> set_option h \<subseteq> run w)) \<and>
     (\<forall>h w. run (snd (i2s_del_channel E h w)) = run w \<and>
        fst (i2s_del_channel E h w) = (h \<noteq> None \<and> set_option h \<subseteq> alloc w - run w) \<and>
        alloc (snd (i2s_del_channel E h w)) = (if fst (i2s_del_channel E h w) then alloc w - set_option h else alloc w))"

text \<open>The handles of the port are the allocated channels, each channel once.\<close>

definition bus_ok :: "('w \<Rightarrow> nat set) \<Rightarrow> ('w \<Rightarrow> nat set) \<Rightarrow> i2s_bus \<Rightarrow> 'w \<Rightarrow> bool" where
  "bus_ok alloc run s w \<longleftrightarrow>
     alloc w = set_option (tx_handle s) \<union> set_option (rx_handle s) \<and> run w \<subseteq> alloc w \<and>
     set_option (tx_handle s) \<inter> set_option (rx_handle s) = {}"

lemma i2s_sets:
  assumes "i2s_law E alloc run"
  shows "alloc (port_lock E w) = alloc w" "run (port_lock E w) = run w"
    "alloc (port_unlock E w) = alloc w" "run (port_unlock E w) = run w"
    "alloc (snd (i2s_channel_init_std_mode E i c w)) = alloc w" "run (snd (i2s_channel_init_std_mode E i c w)) = run w"
    "alloc (snd (i2s_channel_get_info E h w)) = alloc w" "run (snd (i2s_channel_get_info E h w)) = run w"
    "alloc (snd (i2s_channel_register_event_callback E h b w)) = alloc w"
    "run (snd (i2s_channel_register_event_callback E h b w)) = run w"
    "alloc (snd (i2s_channel_enable E h w)) = alloc w"
    "run (snd (i2s_channel_enable E h w)) = (if fst (i2s_channel_enable E h w) then run w \<union> set_option h else run w)"
    "alloc (snd (i2s_channel_disable E h w)) = alloc w" "run (snd (i2s_channel_disable E h w)) = run w - set_option h"
    "fst (i2s_channel_disable E h w) = (h \<noteq> None \<and> set_option h \<subseteq> run w)"
    "run (snd (i2s_del_channel E h w)) = run w"
    "fst (i2s_del_channel E h w) = (h \<noteq> None \<and> set_option h \<subseteq> alloc w - run w)"
    "alloc (snd (i2s_del_channel E h w)) =
       (if h \<noteq> None \<and> set_option h \<subseteq> alloc w - run w then alloc w - set_option h else alloc w)"
  using assms by (simp_all add: i2s_law_def)

lemma i2s_enable_alloc:
  "i2s_law E alloc run \<Longrightarrow> fst (i2s_channel_enable E h w) \<Longrightarrow> set_option h \<subseteq> alloc w"
  by (simp add: i2s_law_def)

lemma i2s_new_sets:
  assumes "i2s_law E alloc run" and "i2s_new_channel E c a b w = (r, w')"
  shows "run w' = run w"
    and "r = None \<Longrightarrow> alloc w' = alloc w"
    and "r = Some (t, u) \<Longrightarrow> (t \<noteq> None) = a \<and> (u \<noteq> None) = b \<and> set_option t \<inter> set_option u = {} \<and>
      alloc w' = alloc w \<union> set_option t \<union> set_option u"
  using assms by (cases r; auto simp: i2s_law_def)+

lemma init_driver_ok:
  assumes law: "i2s_law E alloc run" and none: "tx_handle s = None" "rx_handle s = None" and ok: "bus_ok alloc run s w"
    and run: "run_state (init_driver E cfg) (s, w) = (b, (s', w'))"
  shows "bus_ok alloc run s' w' \<and> run w' = {}"
proof -
  note S = i2s_sets [OF law]
  have e: "alloc w = {}" "run w = {}" using ok none by (auto simp: bus_ok_def)
  let ?c = "\<lparr>cc_id = i2s_port s, cc_master = i2s_role_master s, dma_desc_num = dma_buffer_count s,
        dma_frame_num = dma_buffer_length s, auto_clear = True\<rparr>"
  obtain r w1 where new: "i2s_new_channel E ?c (audio_out s) (audio_in s) (port_lock E w) = (r, w1)" by (metis prod.exhaust)
  note N = i2s_new_sets [OF law new, unfolded S e]
  show ?thesis
  proof (cases r)
    case None
    then show ?thesis using run new none N(1,2) by (simp add: init_driver_def bus_ok_def S) (auto simp: S)
  next
    case (Some tr)
    obtain t u where tr: "tr = (t, u)" by (cases tr)
    show ?thesis
      using run new Some tr none N(1) N(3) [of t u]
      by (cases t; cases u) (auto simp: init_driver_def bus_ok_def S case_prod_beta split: if_splits)
  qed
qed

section \<open>No leak and no dangling handle\<close>

definition idle_handle :: "('w \<Rightarrow> nat set) \<Rightarrow> nat option \<Rightarrow> 'w \<Rightarrow> bool" where
  "idle_handle run h w \<longleftrightarrow> set_option h \<inter> run w = {}"

lemma handle_ready_ok:
  assumes "i2s_law E alloc run" and "bus_ok alloc run s w"
  shows "run_state (out_handle_ready E) (s, w) = (b, (s', w')) \<Longrightarrow> idle_handle run (tx_handle s) w \<Longrightarrow>
      bus_ok alloc run s' w' \<and> idle_handle run (tx_handle s') w'"
    and "run_state (in_handle_ready E) (s, w) = (b, (s', w')) \<Longrightarrow> idle_handle run (rx_handle s) w \<Longrightarrow>
      bus_ok alloc run s' w' \<and> idle_handle run (rx_handle s') w'"
  using init_driver_ok [OF assms(1) _ _ assms(2)] assms(2)
  by (auto simp: out_handle_ready_def in_handle_ready_def idle_handle_def split: if_splits)

lemma out_enable_ok:
  assumes law: "i2s_law E alloc run" and ok: "bus_ok alloc run s w" and idle: "idle_handle run (tx_handle s) w"
    and run: "run_state (out_enable E cb) (s, w) = (b, (s', w'))"
  shows "bus_ok alloc run s' w'"
  using ok idle run i2s_enable_alloc [OF law]
  by (cases "tx_handle s")
    (auto simp: out_enable_def bus_ok_def idle_handle_def i2s_sets [OF law] case_prod_beta split: if_splits)

text \<open>Enabling the receive channel may fail; then the channel is gone but the handle stays.\<close>

lemma in_enable_ok:
  assumes law: "i2s_law E alloc run" and ok: "bus_ok alloc run s w" and idle: "idle_handle run (rx_handle s) w"
    and run: "run_state (in_enable E) (s, w) = (b, (s', w'))"
  shows "s' = s \<and> (bus_ok alloc run s w' \<or> \<not> b \<and> (\<exists>h. rx_handle s = Some h \<and> h \<notin> alloc w'))"
  using ok idle run i2s_enable_alloc [OF law]
  by (cases "rx_handle s")
    (auto simp: in_enable_def bus_ok_def idle_handle_def i2s_sets [OF law] case_prod_beta split: if_splits)

text \<open>C21: the handles of the I2S port are the channels of the driver. If the port's handles are exactly the allocated channels,
  they still are after starting the transmit channel (when it is not running), after stopping it, and after stopping
  the receive channel, whether these succeed or not: no channel leaks and no handle dangles. Starting the receive
  channel keeps this too, except that when it reports failure the handle may be left pointing to a deleted channel.\<close>

theorem i2s_handles_exact:
  assumes "i2s_law E alloc run" and "bus_ok alloc run s w"
  shows "(idle_handle run (tx_handle s) w \<longrightarrow>
      (\<forall>cb b s1 w1. run_state (out_start_i2s_channel E cb) (s, w) = (b, (s1, w1)) \<longrightarrow> bus_ok alloc run s1 w1)) \<and>
    (\<forall>b s1 w1. run_state (out_stop_i2s_channel E) (s, w) = (b, (s1, w1)) \<longrightarrow> bus_ok alloc run s1 w1) \<and>
    (\<forall>b s1 w1. run_state (in_stop_i2s_channel E) (s, w) = (b, (s1, w1)) \<longrightarrow> bus_ok alloc run s1 w1) \<and>
    (idle_handle run (rx_handle s) w \<longrightarrow>
      (\<forall>b s1 w1. run_state (in_start_i2s_channel E) (s, w) = (b, (s1, w1)) \<longrightarrow>
        bus_ok alloc run s1 w1 \<or> \<not> b \<and> (\<exists>h. rx_handle s1 = Some h \<and> h \<notin> alloc w1)))"
proof (intro conjI impI allI)
  fix cb b s1 w1
  assume idle: "idle_handle run (tx_handle s) w" and r: "run_state (out_start_i2s_channel E cb) (s, w) = (b, (s1, w1))"
  obtain ready s2 w2 where h: "run_state (out_handle_ready E) (s, w) = (ready, (s2, w2))" by (metis prod.exhaust)
  show "bus_ok alloc run s1 w1"
    using handle_ready_ok(1) [OF assms h idle] out_enable_ok [OF assms(1), of s2 w2 cb b s1 w1] r h
    by (auto simp: out_start_i2s_channel_def split: if_splits)
next
  fix b s1 w1
  assume idle: "idle_handle run (rx_handle s) w" and r: "run_state (in_start_i2s_channel E) (s, w) = (b, (s1, w1))"
  obtain ready s2 w2 where h: "run_state (in_handle_ready E) (s, w) = (ready, (s2, w2))" by (metis prod.exhaust)
  show "bus_ok alloc run s1 w1 \<or> \<not> b \<and> (\<exists>h. rx_handle s1 = Some h \<and> h \<notin> alloc w1)"
    using handle_ready_ok(2) [OF assms h idle] in_enable_ok [OF assms(1), of s2 w2 b s1 w1] r h
    by (auto simp: in_start_i2s_channel_def split: if_splits)
next
  fix b s1 w1
  assume "run_state (out_stop_i2s_channel E) (s, w) = (b, (s1, w1))"
  then show "bus_ok alloc run s1 w1"
    using assms(2) by (cases "tx_handle s"; cases "rx_handle s")
      (auto simp: out_stop_i2s_channel_def bus_ok_def i2s_sets [OF assms(1)] case_prod_beta split: if_splits)
next
  fix b s1 w1
  assume "run_state (in_stop_i2s_channel E) (s, w) = (b, (s1, w1))"
  then show "bus_ok alloc run s1 w1"
    using assms(2) by (cases "rx_handle s")
      (auto simp: in_stop_i2s_channel_def bus_ok_def i2s_sets [OF assms(1)] case_prod_beta split: if_splits)
qed

section \<open>The driver and the RTOS objects\<close>

text \<open>The driver touches neither the event group nor the semaphore.\<close>

definition bus_quiet :: "('w, 'e) i2s_env_scheme \<Rightarrow> bool" where
  "bus_quiet E \<longleftrightarrow>
     (\<forall>h. quiet E (\<lambda>w. snd (i2s_channel_get_info E h w)) \<and> quiet E (\<lambda>w. snd (i2s_channel_enable E h w)) \<and>
          quiet E (\<lambda>w. snd (i2s_channel_disable E h w)) \<and> quiet E (\<lambda>w. snd (i2s_del_channel E h w)))"

lemma bus_quiet_bits:
  assumes "bus_quiet E"
  shows "eg_get E (snd (i2s_channel_get_info E h w)) = eg_get E w" "sem_count E (snd (i2s_channel_get_info E h w)) = sem_count E w"
    "eg_get E (snd (i2s_channel_enable E h w)) = eg_get E w" "sem_count E (snd (i2s_channel_enable E h w)) = sem_count E w"
    "eg_get E (snd (i2s_channel_disable E h w)) = eg_get E w" "sem_count E (snd (i2s_channel_disable E h w)) = sem_count E w"
    "eg_get E (snd (i2s_del_channel E h w)) = eg_get E w" "sem_count E (snd (i2s_del_channel E h w)) = sem_count E w"
  using assms by (simp_all add: bus_quiet_def quiet_def)

text \<open>The whole I2S driver leaves the component's event group alone.\<close>

definition driver_quiet :: "('w, 'e) i2s_env_scheme \<Rightarrow> bool" where
  "driver_quiet E \<longleftrightarrow> bus_quiet E \<and> quiet E (port_lock E) \<and> quiet E (port_unlock E) \<and>
     (\<forall>c a b. quiet E (\<lambda>w. snd (i2s_new_channel E c a b w))) \<and>
     (\<forall>h c. quiet E (\<lambda>w. snd (i2s_channel_init_std_mode E h c w))) \<and>
     (\<forall>h b. quiet E (\<lambda>w. snd (i2s_channel_register_event_callback E h b w)))"

lemma driver_untouched:
  assumes "driver_quiet E"
  shows "untouched E k (ext0 (port_lock E))" "untouched E k (ext0 (port_unlock E))" "untouched E k (ext (i2s_new_channel E c a b))"
    "untouched E k (ext (i2s_channel_init_std_mode E i g))" "untouched E k (ext (i2s_channel_register_event_callback E h b))"
    "untouched E k (ext (i2s_channel_get_info E h))" "untouched E k (ext (i2s_channel_enable E h))"
    "untouched E k (ext (i2s_channel_disable E h))" "untouched E k (ext (i2s_del_channel E h))"
  using assms by (auto intro!: untouched_silent quiet_silent simp: driver_quiet_def bus_quiet_def)

lemma init_driver_untouched:
  assumes "driver_quiet E"
  shows "untouched E k (init_driver E cfg)"
  unfolding init_driver_def
  by (intro untouched_rules driver_untouched [OF assms])
    (auto intro!: untouched_rules driver_untouched [OF assms] split: option.split)

lemma channel_untouched:
  assumes "driver_quiet E"
  shows "untouched E k (out_start_i2s_channel E b)" "untouched E k (out_stop_i2s_channel E)"
    "untouched E k (in_start_i2s_channel E)" "untouched E k (in_stop_i2s_channel E)"
  unfolding out_start_i2s_channel_def out_handle_ready_def out_enable_def out_stop_i2s_channel_def in_start_i2s_channel_def
    in_handle_ready_def in_enable_def in_stop_i2s_channel_def
  by (intro untouched_rules driver_untouched [OF assms] init_driver_untouched [OF assms])+

section \<open>A failed start of the receive channel\<close>

text \<open>When the driver refuses to enable the receive channel, the port keeps a handle to a channel that has been deleted: the
  start reports failure, the channel is gone, the handle is still set; stopping the channel then fails and does not
  clear the handle either, so that every later start uses the deleted channel again.\<close>

theorem rx_start_failure_dangles:
  assumes "i2s_law E alloc run" and "bus_ok alloc run s w" and "rx_handle s = Some h" and "h \<notin> run w"
    and "fst (i2s_channel_get_info E (Some h) w) = Some I2S_DIR_RX"
    and "\<not> fst (i2s_channel_enable E (Some h) (snd (i2s_channel_get_info E (Some h) w)))"
  shows "\<exists>w1 w2. run_state (in_start_i2s_channel E) (s, w) = (False, (s, w1)) \<and> h \<notin> alloc w1 \<and>
    run_state (in_stop_i2s_channel E) (s, w1) = (False, (s, w2)) \<and> rx_handle s = Some h \<and> h \<notin> alloc w2"
proof -
  note S = i2s_sets [OF assms(1)]
  let ?w1 = "snd (i2s_del_channel E (Some h) (snd (i2s_channel_enable E (Some h) (snd (i2s_channel_get_info E (Some h) w)))))"
  have start: "run_state (in_start_i2s_channel E) (s, w) = (False, (s, ?w1))"
    using assms(3,5,6) by (simp add: in_start_i2s_channel_def in_handle_ready_def in_enable_def)
  have gone: "h \<notin> alloc ?w1" "h \<notin> run ?w1"
    using assms(2-4,6) by (auto simp: S bus_ok_def)
  have "run_state (in_stop_i2s_channel E) (s, ?w1) = (False, (s, snd (i2s_channel_disable E (Some h) ?w1)))"
    using assms(3) gone(2) by (simp add: in_stop_i2s_channel_def S(15))
  moreover have "h \<notin> alloc (snd (i2s_channel_disable E (Some h) ?w1))" using gone(1) by (simp add: S(13))
  ultimately show ?thesis using start gone(1) assms(3) by blast
qed

text \<open>The two channels are not treated alike. After the receive channel has been stopped while the transmit channel
  exists, it cannot be started again: every start is refused without touching the driver until the transmit channel has
  been stopped. After the transmit channel has been stopped while the receive channel exists, its handle is still there
  and a start goes on to the driver.\<close>

theorem rx_restart_refused:
  "(run_state (in_stop_i2s_channel E) (s, w) = (True, (s1, w1)) \<longrightarrow> tx_handle s \<noteq> None \<longrightarrow>
      run_state (in_start_i2s_channel E) (s1, w1') = (False, (s1, w1'))) \<and>
   (run_state (out_stop_i2s_channel E) (s, w) = (True, (s2, w2)) \<longrightarrow> rx_handle s \<noteq> None \<longrightarrow>
      run_state (out_start_i2s_channel E cb) (s2, w2') = run_state (out_enable E cb) (s2, w2'))"
proof (intro conjI impI)
  assume r: "run_state (in_stop_i2s_channel E) (s, w) = (True, (s1, w1))" "tx_handle s \<noteq> None"
  then have "rx_handle s1 = None" "tx_handle s1 \<noteq> None"
    by (auto simp: in_stop_i2s_channel_def case_prod_beta split: if_splits)
  then show "run_state (in_start_i2s_channel E) (s1, w1') = (False, (s1, w1'))"
    by (simp add: in_start_i2s_channel_def in_handle_ready_def)
next
  assume r: "run_state (out_stop_i2s_channel E) (s, w) = (True, (s2, w2))" "rx_handle s \<noteq> None"
  then have "tx_handle s2 \<noteq> None"
    by (auto simp: out_stop_i2s_channel_def case_prod_beta split: if_splits)
  then show "run_state (out_start_i2s_channel E cb) (s2, w2') = run_state (out_enable E cb) (s2, w2')"
    by (simp add: out_start_i2s_channel_def out_handle_ready_def)
qed

section \<open>An example driver\<close>

text \<open>A driver that numbers its channels; the world holds the next number, the allocated and the running channels. The
  parameter says whether channels can be enabled.\<close>

type_synonym ex_i2s_world = "nat \<times> nat set \<times> nat set"

definition ex_alloc :: "ex_i2s_world \<Rightarrow> nat set" where
  "ex_alloc w = (case w of (n, A, R) \<Rightarrow> A \<inter> {..<n})"

definition ex_run :: "ex_i2s_world \<Rightarrow> nat set" where
  "ex_run w = snd (snd w)"

definition ex_slot :: "u8 \<Rightarrow> i2s_slot_mode \<Rightarrow> i2s_std_slot_config" where
  "ex_slot b m = \<lparr>sc_data_bit_width = b, sc_slot_bit_width = 0, sc_slot_mode = m, sc_slot_mask = I2S_STD_SLOT_BOTH,
     sc_ws_width = 0, sc_bit_shift = True\<rparr>"

definition ex_i2s :: "bool \<Rightarrow> ex_i2s_world i2s_env" where
  "ex_i2s can =
     \<lparr>eg_create = Pair True, eg_get = (\<lambda>w. 0), eg_set = (\<lambda>b. id), eg_clear = (\<lambda>b. id), sem_create = (\<lambda>n k. Pair True),
      sem_count = (\<lambda>w. 0), sem_take = id, sem_give = id, rtos_task_create = Pair True, rtos_task_delete = id,
      rtos_delay = (\<lambda>n. id), set_clear_timeout = (\<lambda>n. id), philips_slot_cfg = ex_slot, pcm_slot_cfg = ex_slot, msb_slot_cfg = ex_slot, has_apll = False, plain_esp32 = False,
      port_lock = id, port_unlock = id,
      i2s_new_channel = (\<lambda>c a b (n, A, R). (Some (if a then Some n else None, if b then Some (n + 1) else None),
        (n + 2, (A \<inter> {..<n}) \<union> (if a then {n} else {}) \<union> (if b then {n + 1} else {}), R))),
      i2s_channel_init_std_mode = (\<lambda>h c w. (True, w)),
      i2s_channel_get_info = (\<lambda>h w. (map_option (\<lambda>n. if even n then I2S_DIR_TX else I2S_DIR_RX) h, w)),
      i2s_channel_register_event_callback = (\<lambda>h b w. (True, w)),
      i2s_channel_enable = (\<lambda>h w. if can \<and> set_option h \<subseteq> ex_alloc w
        then (True, (fst w, fst (snd w), ex_run w \<union> set_option h)) else (False, w)),
      i2s_channel_disable = (\<lambda>h w. (h \<noteq> None \<and> set_option h \<subseteq> ex_run w, (fst w, fst (snd w), ex_run w - set_option h))),
      i2s_del_channel = (\<lambda>h w. if h \<noteq> None \<and> set_option h \<subseteq> ex_alloc w - ex_run w
        then (True, (fst w, fst (snd w) - set_option h, ex_run w)) else (False, w))\<rparr>"

lemma ex_i2s_law: "i2s_law (ex_i2s can) ex_alloc ex_run"
  unfolding i2s_law_def by (auto simp: ex_i2s_def ex_alloc_def ex_run_def split: if_splits)

definition ex_base :: i2s_base where
  "ex_base = \<lparr>slot_mode = I2S_SLOT_MODE_STEREO, std_slot_mask = I2S_STD_SLOT_BOTH, slot_bit_width = 32,
     i2s_comm_fmt = ''std'', i2s_sample_rate = 48000, use_apll = False, mclk_multiple = 256, i2s_access_of = ACCESS_RX,
     pdm = False, is_fixed = True\<rparr>"

definition ex_bus :: i2s_bus where
  "ex_bus = register_out (register_in (bus_init ex_base (ex_base\<lparr>i2s_access_of := ACCESS_TX\<rparr>)))"

theorem i2s_handles_exact_witness:
  "\<exists>b s1 w1. run_state (out_start_i2s_channel (ex_i2s True) True) (ex_bus, (0, {}, {})) = (b, (s1, w1)) \<and>
     bus_ok ex_alloc ex_run s1 w1 \<and> tx_handle s1 = Some 0"
proof -
  let ?w = "(0, {}, {}) :: ex_i2s_world"
  have pre: "bus_ok ex_alloc ex_run ex_bus ?w" "idle_handle ex_run (tx_handle ex_bus) ?w"
    by (simp_all add: bus_ok_def idle_handle_def ex_alloc_def ex_run_def ex_bus_def register_in_def register_out_def bus_init_def)
  obtain b s1 w1 where r: "run_state (out_start_i2s_channel (ex_i2s True) True) (ex_bus, ?w) = (b, (s1, w1))"
    by (metis prod.exhaust)
  then have "tx_handle s1 = Some 0"
    by (auto simp: out_start_i2s_channel_def out_handle_ready_def out_enable_def init_driver_def ex_i2s_def ex_alloc_def
        ex_run_def ex_bus_def register_in_def register_out_def bus_init_def split: if_splits)
  with r i2s_handles_exact [OF ex_i2s_law pre(1)] pre(2) show ?thesis by blast
qed

theorem rx_start_failure_dangles_witness:
  "\<exists>w1 w2. run_state (in_start_i2s_channel (ex_i2s False)) (ex_bus\<lparr>rx_handle := Some 1\<rparr>, (2, {1}, {})) =
       (False, (ex_bus\<lparr>rx_handle := Some 1\<rparr>, w1)) \<and> 1 \<notin> ex_alloc w1 \<and>
     run_state (in_stop_i2s_channel (ex_i2s False)) (ex_bus\<lparr>rx_handle := Some 1\<rparr>, w1) =
       (False, (ex_bus\<lparr>rx_handle := Some 1\<rparr>, w2)) \<and> 1 \<notin> ex_alloc w2"
proof -
  let ?w = "(2, {1}, {}) :: ex_i2s_world"
  have "bus_ok ex_alloc ex_run (ex_bus\<lparr>rx_handle := Some 1\<rparr>) ?w" "(1 :: nat) \<notin> ex_run ?w"
    "fst (i2s_channel_get_info (ex_i2s False) (Some 1) ?w) = Some I2S_DIR_RX"
    "\<not> fst (i2s_channel_enable (ex_i2s False) (Some 1) (snd (i2s_channel_get_info (ex_i2s False) (Some 1) ?w)))"
    by (auto simp: bus_ok_def ex_alloc_def ex_run_def ex_i2s_def ex_bus_def register_in_def register_out_def bus_init_def)
  from rx_start_failure_dangles [OF ex_i2s_law this(1) _ this(2-4)] show ?thesis by auto
qed

theorem rx_restart_refused_witness:
  "\<exists>s1 w1. run_state (in_stop_i2s_channel (ex_i2s True)) (ex_bus\<lparr>tx_handle := Some 0, rx_handle := Some 1\<rparr>, (2, {0, 1}, {0, 1})) =
       (True, (s1, w1)) \<and> run_state (in_start_i2s_channel (ex_i2s True)) (s1, w1) = (False, (s1, w1))"
proof -
  let ?s = "ex_bus\<lparr>tx_handle := Some 0, rx_handle := Some 1\<rparr>"
  let ?w = "(2, {0, 1}, {0, 1}) :: ex_i2s_world"
  obtain s1 w1 where r: "run_state (in_stop_i2s_channel (ex_i2s True)) (?s, ?w) = (True, (s1, w1))"
    by (simp add: in_stop_i2s_channel_def ex_i2s_def ex_alloc_def ex_run_def)
  have "tx_handle ?s \<noteq> None" by simp
  from r rx_restart_refused [THEN conjunct1, rule_format, OF r this] show ?thesis by blast
qed

end
