(* ===== verification/Microphone_Interface.thy ===== *)
theory Microphone_Interface
  imports Audio_Base
begin

text \<open>
  The contract of \<open>microphone::Microphone\<close> as its clients see it: \<open>start\<close> takes one of the listener slots, \<open>stop\<close> gives one back
  unless the microphone is stopped, and a failed microphone ignores both. Each of the two microphones implements it with a
  counting semaphore.
\<close>

fun repeat_prog :: "nat \<Rightarrow> ('s, unit) state \<Rightarrow> ('s, unit) state" where
  "repeat_prog 0 p = ret ()"
| "repeat_prog (Suc n) p = do { p; repeat_prog n p }"

locale listened_microphone =
  fixes start stop :: "'e \<Rightarrow> ('s \<times> 'w, unit) state" and law :: "'e \<Rightarrow> bool" and slots :: "'e \<Rightarrow> 'w \<Rightarrow> nat"
    and max_slots :: nat and stopped failed :: "'s \<Rightarrow> bool"
  assumes start_takes: "law E \<Longrightarrow> \<not> failed s \<Longrightarrow> \<exists>w'. run_state (start E) (s, w) = ((), (s, w')) \<and> slots E w' = slots E w - 1"
    and stop_gives: "law E \<Longrightarrow> \<not> failed s \<Longrightarrow> \<not> stopped s \<Longrightarrow>
      \<exists>w'. run_state (stop E) (s, w) = ((), (s, w')) \<and> slots E w' = min max_slots (slots E w + 1)"
    and ignored: "failed s \<Longrightarrow> run_state (start E) (s, w) = ((), (s, w))"
      "failed s \<or> stopped s \<Longrightarrow> run_state (stop E) (s, w) = ((), (s, w))"
begin

lemma starts_take:
  assumes "law E" "\<not> failed s"
  shows "\<exists>w'. run_state (repeat_prog n (start E)) (s, w) = ((), (s, w')) \<and> slots E w' = slots E w - n"
proof (induction n arbitrary: w)
  case (Suc n)
  obtain w1 where "run_state (start E) (s, w) = ((), (s, w1))" "slots E w1 = slots E w - 1"
    using start_takes [OF assms] by blast
  with Suc [of w1] show ?case by auto
qed simp

lemma stops_give:
  assumes "law E" "\<not> failed s" "\<not> stopped s"
  shows "slots E w \<le> max_slots \<Longrightarrow>
    \<exists>w'. run_state (repeat_prog n (stop E)) (s, w) = ((), (s, w')) \<and> slots E w' = min max_slots (slots E w + n)"
proof (induction n arbitrary: w)
  case (Suc n)
  obtain w1 where "run_state (stop E) (s, w) = ((), (s, w1))" "slots E w1 = min max_slots (slots E w + 1)"
    using stop_gives [OF assms] by blast
  with Suc.IH [of w1] show ?case by auto
qed simp

text \<open>Clients that each start and later stop a microphone that is not stopped leave its slots as they were.\<close>

lemma balanced:
  assumes "law E" "\<not> failed s" "\<not> stopped s" "n \<le> slots E w" "slots E w \<le> max_slots"
  shows "\<exists>w'. run_state (do { repeat_prog n (start E); repeat_prog n (stop E) }) (s, w) = ((), (s, w')) \<and> slots E w' = slots E w"
proof -
  obtain w1 where 1: "run_state (repeat_prog n (start E)) (s, w) = ((), (s, w1))" "slots E w1 = slots E w - n"
    using starts_take [OF assms(1,2)] by blast
  then obtain w2 where "run_state (repeat_prog n (stop E)) (s, w1) = ((), (s, w2))" "slots E w2 = min max_slots (slots E w1 + n)"
    using stops_give [OF assms(1-3), of w1 n] assms(5) by (metis diff_le_self order_trans)
  with 1 assms(4,5) show ?thesis by auto
qed

text \<open>A client that stops a microphone before its loop has taken notice of the start keeps its slot.\<close>

lemma early_stop_keeps_slot:
  assumes "law E" "\<not> failed s" "stopped s"
  shows "\<exists>w'. run_state (do { start E; stop E }) (s, w) = ((), (s, w')) \<and> slots E w' = slots E w - 1"
  using start_takes [OF assms(1,2), of w] ignored(2) [of s E] assms(3) by auto

end

end
