(* ===== verification/I2s_Microphone_Life.thy ===== *)
theory I2s_Microphone_Life
  imports Task_Lifecycle I2s_Microphone_Correct
begin

text \<open>
  The I2S microphone as an instance of \<open>running_task\<close>: all its operations interleaved.

  Named hypothesis: \<open>mic_law\<close>.
\<close>

text \<open>Reading and the listeners' callbacks leave the microphone's event group alone.\<close>

definition mic_law :: "'w mic_env \<Rightarrow> bool" where
  "mic_law E \<longleftrightarrow> rtos_law E MAX_LISTENERS \<and> driver_quiet E \<and>
     (\<forall>h n t. silent E (\<lambda>w. snd (i2s_channel_read E h n t w))) \<and> (\<forall>d. silent E (mic_data_callback E d))"

text \<open>Besides the calls of clients, the error flag is cleared after a while and the world moves on.\<close>

definition mic_sys :: "'w mic_env \<Rightarrow> (mic \<times> 'w) task_sys" where
  "mic_sys E =
     \<lparr>sys_loop = (\<lambda>c c'. c' = snd (run_state (mic_loop E) c)),
      sys_other = (\<lambda>c c'. c' = snd (run_state (mic_start E) c) \<or> c' = snd (run_state (mic_stop E) c) \<or>
        c' = ((fst c)\<lparr>mic_error := False\<rparr>, snd c) \<or> (\<exists>w'. c' = (fst c, w') \<and> eg_get E w' = eg_get E (snd c))),
      sys_begin = (\<lambda>c go c'. go \<and> c' = snd (run_state (mic_task_start E) c)),
      sys_turn = (\<lambda>c go c'. \<exists>n. go = fst (run_state (mic_task_step E n) c) \<and> c' = snd (run_state (mic_task_step E n) c)),
      sys_end = (\<lambda>c c'. c' = snd (run_state (mic_task_end E) c)),
      sys_handle = (\<lambda>c. mic_task_handle (fst c)),
      sys_stopped = (\<lambda>c. eg_get E (snd c) AND MIC_TASK_STOPPED \<noteq> 0)\<rparr>"

lemma on_mic_bus_untouched:
  assumes "untouched E k m"
  shows "untouched E k (on_mic_bus m)"
  using assms by (simp add: keeps_def on_mic_bus_run)

lemma mic_driver_untouched:
  assumes "driver_quiet E"
  shows "untouched E k (start_driver E)" "untouched E k (stop_driver E)"
  unfolding start_driver_def stop_driver_def configure_stream_settings_def
  by (intro untouched_rules on_mic_bus_untouched channel_untouched [OF assms])+

lemma mic_driver_obj:
  "mic_task_handle (fst (snd (run_state (start_driver E) c))) = mic_task_handle (fst c)"
  "mic_state_of (fst (snd (run_state (start_driver E) c))) = mic_state_of (fst c)"
  "mic_task_handle (fst (snd (run_state (stop_driver E) c))) = mic_task_handle (fst c)"
  "mic_state_of (fst (snd (run_state (stop_driver E) c))) = mic_state_of (fst c)"
  by (cases c; simp add: start_driver_def stop_driver_def on_mic_bus_run configure_stream_settings_def Let_def)+

text \<open>What the loop does about the announcements of the task.\<close>

lemma mic_events_run:
  fixes E :: "'w mic_env"
  defines "b \<equiv> \<lambda>w. eg_get E w"
  defines "w0 \<equiv> \<lambda>w. let x = (if b w AND MIC_TASK_STARTING \<noteq> 0 then eg_clear E MIC_TASK_STARTING w else w)
      in if b w AND MIC_TASK_RUNNING \<noteq> 0 then eg_clear E MIC_TASK_RUNNING x else x"
  defines "s0 \<equiv> \<lambda>s w. if b w AND MIC_TASK_RUNNING \<noteq> 0 then s\<lparr>mic_state_of := MIC_RUNNING\<rparr> else s"
  shows "run_state (mic_loop_events E) (s, w) = ((),
    if b w AND MIC_TASK_STOPPED = 0 then (s0 s w, w0 w)
    else let d = run_state (stop_driver E) ((s0 s w)\<lparr>mic_task_handle := False\<rparr>, rtos_task_delete E (w0 w))
      in ((fst (snd d))\<lparr>mic_error := False, mic_state_of := MIC_STOPPED\<rparr>, eg_clear E ALL_BITS (snd (snd d))))"
  unfolding assms mic_loop_events_def
  by (cases "eg_get E w AND MIC_TASK_STARTING = 0"; cases "eg_get E w AND MIC_TASK_RUNNING = 0";
      cases "eg_get E w AND MIC_TASK_STOPPED = 0") (simp_all add: Let_def case_prod_beta)

lemma mic_events_spec:
  assumes law: "mic_law E" and run: "run_state (mic_loop_events E) (s, w) = ((), (s1, w1))"
  shows "eg_get E w1 AND MIC_TASK_STOPPED = 0" "eg_get E w1 AND MIC_TASK_RUNNING = 0"
    "eg_get E w AND MIC_TASK_STOPPED \<noteq> 0 \<Longrightarrow> mic_state_of s1 = MIC_STOPPED"
    "eg_get E w AND MIC_TASK_STOPPED = 0 \<Longrightarrow> mic_task_handle s1 = mic_task_handle s \<and>
       mic_state_of s1 = (if eg_get E w AND MIC_TASK_RUNNING \<noteq> 0 then MIC_RUNNING else mic_state_of s)"
proof -
  have "rtos_law E MAX_LISTENERS" using law by (simp add: mic_law_def)
  note rb = rtos_bits [OF this]
  have k: "MIC_TASK_STARTING AND MIC_TASK_RUNNING = 0" "MIC_TASK_STARTING AND MIC_TASK_STOPPED = 0"
    "MIC_TASK_RUNNING AND MIC_TASK_STOPPED = 0" "MIC_TASK_STOPPED AND NOT ALL_BITS = 0" "MIC_TASK_RUNNING AND NOT ALL_BITS = 0"
    "MIC_TASK_RUNNING AND NOT MIC_TASK_RUNNING = 0"
    by (simp_all add: mic_bits)
  show "eg_get E w1 AND MIC_TASK_STOPPED = 0" "eg_get E w1 AND MIC_TASK_RUNNING = 0"
    using run k by (auto simp: mic_events_run Let_def rb mask_cleared mask_disjoint split: if_splits)
  show "mic_state_of s1 = MIC_STOPPED" if "eg_get E w AND MIC_TASK_STOPPED \<noteq> 0"
    using run that by (auto simp: mic_events_run Let_def)
  show "mic_task_handle s1 = mic_task_handle s \<and> mic_state_of s1 = (if eg_get E w AND MIC_TASK_RUNNING \<noteq> 0 then MIC_RUNNING else mic_state_of s)"
    if "eg_get E w AND MIC_TASK_STOPPED = 0"
    using run that by (auto simp: mic_events_run split: if_splits)
qed

text \<open>The rest of the loop creates a task only where there is none, and never makes the microphone run.\<close>

definition mic_loop_rest :: "'w mic_env \<Rightarrow> ('w, unit) mic_prog" where
  "mic_loop_rest E = do {
     mic_loop_listeners E;
     st \<leftarrow> obj_get mic_state_of;
     case st of
       MIC_STARTING \<Rightarrow> mic_loop_starting E
     | MIC_RUNNING \<Rightarrow> ret ()
     | MIC_STOPPING \<Rightarrow> ext0 (eg_set E MIC_COMMAND_STOP)
     | MIC_STOPPED \<Rightarrow> ret ()
   }"

lemma mic_starting_untouched:
  assumes "mic_law E"
  shows "untouched E k (mic_loop_starting E)"
proof -
  have R: "rtos_law E MAX_LISTENERS" "driver_quiet E" using assms by (simp_all add: mic_law_def)
  show ?thesis
    unfolding mic_loop_starting_def mic_momentary_error_def
    by (intro untouched_rules mic_driver_untouched [OF R(2)] untouched_eg [OF R(1)])
qed

lemma mic_rest_untouched:
  assumes "mic_law E" "MIC_COMMAND_STOP AND k = 0"
  shows "untouched E k (mic_loop_rest E)"
proof -
  have R: "rtos_law E MAX_LISTENERS" using assms by (simp add: mic_law_def)
  show ?thesis
    unfolding mic_loop_rest_def mic_loop_listeners_def
    by (intro untouched_rules)
      (auto intro!: untouched_rules mic_starting_untouched [OF assms(1)] untouched_eg(1) [OF R] assms(2) split: mic_state.split)
qed

lemma mic_starting_obj:
  assumes "run_state (mic_loop_starting E) (s, w) = ((), (s', w'))"
  shows "mic_state_of s' = mic_state_of s" "mic_task_handle s \<Longrightarrow> mic_task_handle s'"
proof -
  obtain ok s1 w1 where d: "run_state (start_driver E) (s, w) = (ok, (s1, w1))" by (metis prod.collapse)
  then have s1: "mic_task_handle s1 = mic_task_handle s" "mic_state_of s1 = mic_state_of s"
    using mic_driver_obj(1,2) [of E "(s, w)"] by simp_all
  show "mic_state_of s' = mic_state_of s" "mic_task_handle s \<Longrightarrow> mic_task_handle s'"
    using assms d s1
    by (auto simp: mic_loop_starting_def mic_momentary_error_def case_prod_beta mic_driver_obj prod_eq_iff split: if_splits)
qed

lemma mic_rest_obj:
  assumes "run_state (mic_loop_rest E) (s, w) = ((), (s', w'))"
  shows "mic_state_of s' = MIC_RUNNING \<Longrightarrow> mic_state_of s = MIC_RUNNING" "mic_task_handle s \<Longrightarrow> mic_task_handle s'"
  using assms mic_starting_obj [of E _ w s' w']
  by (auto simp: mic_loop_rest_def mic_loop_listeners_def split: mic_state.splits if_splits)

lemma mic_loop_spec:
  assumes law: "mic_law E" and run: "run_state (mic_loop E) (s, w) = ((), (s', w'))"
  shows "eg_get E w' AND MIC_TASK_STOPPED = 0" "eg_get E w' AND MIC_TASK_RUNNING = 0"
    "eg_get E w AND MIC_TASK_STOPPED = 0 \<Longrightarrow> mic_task_handle s \<Longrightarrow> mic_task_handle s'"
    "mic_state_of s' = MIC_RUNNING \<Longrightarrow> eg_get E w AND MIC_TASK_STOPPED = 0 \<and>
       (mic_state_of s = MIC_RUNNING \<or> eg_get E w AND MIC_TASK_RUNNING \<noteq> 0)"
proof -
  obtain s1 w1 where ev: "run_state (mic_loop_events E) (s, w) = ((), (s1, w1))" by (metis prod.collapse unit_eq)
  have "mic_loop E = do { mic_loop_events E; mic_loop_rest E }"
    by (simp add: mic_loop_def mic_loop_rest_def)
  then have rest: "run_state (mic_loop_rest E) (s1, w1) = ((), (s', w'))" using run ev by simp
  note S = mic_events_spec [OF law ev] and O = mic_rest_obj [OF rest]
  have k: "MIC_COMMAND_STOP AND MIC_TASK_STOPPED = 0" "MIC_COMMAND_STOP AND MIC_TASK_RUNNING = 0" by (simp_all add: mic_bits)
  show "eg_get E w' AND MIC_TASK_STOPPED = 0" "eg_get E w' AND MIC_TASK_RUNNING = 0"
    using untouchedD [OF mic_rest_untouched [OF law k(1)] rest] untouchedD [OF mic_rest_untouched [OF law k(2)] rest] S(1,2) by simp_all
  show "mic_task_handle s'" if "eg_get E w AND MIC_TASK_STOPPED = 0" "mic_task_handle s" using that S(4) O(2) by simp
  show "eg_get E w AND MIC_TASK_STOPPED = 0 \<and> (mic_state_of s = MIC_RUNNING \<or> eg_get E w AND MIC_TASK_RUNNING \<noteq> 0)"
    if "mic_state_of s' = MIC_RUNNING"
    using O(1) [OF that] S(3,4) by (cases "eg_get E w AND MIC_TASK_STOPPED = 0") (auto split: if_splits)
qed

lemma mic_read_handle: "mic_task_handle (fst (snd (run_state (mic_read E n t) c))) = mic_task_handle (fst c)"
  by (cases c) (simp add: mic_read_def case_prod_beta)

lemma fix_dc_handle: "mic_task_handle (snd (fix_dc_offset E d s)) = mic_task_handle s"
  by (simp add: fix_dc_offset_def Let_def)

lemma mic_task_steps:
  assumes "mic_law E"
  shows "untouched E MIC_TASK_STOPPED (mic_task_start E)" "untouched E k (mic_task_step E n)" "untouched E k (mic_start E)"
    "untouched E k (mic_stop E)"
    "mic_task_handle (fst (snd (run_state (mic_task_start E) c))) = mic_task_handle (fst c)"
    "mic_task_handle (fst (snd (run_state (mic_task_step E n) c))) = mic_task_handle (fst c)"
    "fst (snd (run_state (mic_start E) c)) = fst c" "fst (snd (run_state (mic_stop E) c)) = fst c"
proof -
  have R: "rtos_law E MAX_LISTENERS" using assms by (simp add: mic_law_def)
  have Q: "untouched E k (ext (i2s_channel_read E h m t))" "untouched E k (ext0 (mic_data_callback E d))" for k h m t d
    using assms by (auto intro!: untouched_silent simp: mic_law_def)
  show "untouched E MIC_TASK_STOPPED (mic_task_start E)"
    unfolding mic_task_start_def by (intro untouched_rules untouched_eg(1) [OF R]) (simp_all add: mic_bits)
  show "untouched E k (mic_task_step E n)"
    unfolding mic_task_step_def mic_read_def by (intro untouched_rules untouched_eg [OF R] Q)
  show "untouched E k (mic_start E)" "untouched E k (mic_stop E)"
    unfolding mic_start_def mic_stop_def by (intro untouched_rules untouched_eg [OF R])+
  show "mic_task_handle (fst (snd (run_state (mic_task_start E) c))) = mic_task_handle (fst c)"
    "fst (snd (run_state (mic_start E) c)) = fst c" "fst (snd (run_state (mic_stop E) c)) = fst c"
    by (cases c; simp add: mic_task_start_def mic_start_def mic_stop_def)+
  show "mic_task_handle (fst (snd (run_state (mic_task_step E n) c))) = mic_task_handle (fst c)"
    by (cases c) (simp add: mic_task_step_def case_prod_beta mic_read_handle fix_dc_handle)
qed

interpretation mic_life: running_task mic_sys mic_law "\<lambda>E c. eg_get E (snd c) AND MIC_TASK_RUNNING \<noteq> 0"
    "\<lambda>E c. mic_state_of (fst c) = MIC_RUNNING"
proof
  fix E :: "'w mic_env" and c c' :: "mic \<times> 'w" and go
  assume law: "mic_law E"
  have "rtos_law E MAX_LISTENERS" using law by (simp add: mic_law_def)
  note R = rtos_bits(1) [OF this]
  obtain s w where c: "c = (s, w)" by (cases c)
  { assume l: "sys_loop (mic_sys E) c c'"
    obtain s' w' where c': "c' = (s', w')" by (cases c')
    have run: "run_state (mic_loop E) (s, w) = ((), (s', w'))" using l by (intro prod_eqI) (simp_all add: mic_sys_def c c')
    note S = mic_loop_spec [OF law run]
    show "\<not> sys_stopped (mic_sys E) c'" using S(1) by (simp add: mic_sys_def c')
    show "sys_handle (mic_sys E) c'" if "\<not> sys_stopped (mic_sys E) c" "sys_handle (mic_sys E) c"
      using that S(3) by (simp add: mic_sys_def c c')
    show "\<not> eg_get E (snd c') AND MIC_TASK_RUNNING \<noteq> 0 \<and> (mic_state_of (fst c') = MIC_RUNNING \<longrightarrow>
        \<not> sys_stopped (mic_sys E) c \<and> (mic_state_of (fst c) = MIC_RUNNING \<or> eg_get E (snd c) AND MIC_TASK_RUNNING \<noteq> 0))"
      using S(2,4) by (simp add: mic_sys_def c c') }
  note T = mic_task_steps [OF law]
  show "sys_handle (mic_sys E) c' = sys_handle (mic_sys E) c \<and> sys_stopped (mic_sys E) c' = sys_stopped (mic_sys E) c"
    if "sys_other (mic_sys E) c c' \<or> sys_begin (mic_sys E) c go c' \<or> sys_turn (mic_sys E) c go c'"
    using that by (auto simp: mic_sys_def T(5-8) T(1-4) [THEN untouched_run])
  show "sys_handle (mic_sys E) c' = sys_handle (mic_sys E) c \<and> sys_stopped (mic_sys E) c'" if "sys_end (mic_sys E) c c'"
    using that by (cases c) (simp add: mic_sys_def mic_task_end_def R mask_set, simp add: mic_bits)
  show "(eg_get E (snd c') AND MIC_TASK_RUNNING \<noteq> 0) = (eg_get E (snd c) AND MIC_TASK_RUNNING \<noteq> 0) \<and>
      (mic_state_of (fst c') = MIC_RUNNING \<longrightarrow> mic_state_of (fst c) = MIC_RUNNING)" if "sys_other (mic_sys E) c c'"
    using that by (auto simp: mic_sys_def T(7,8) T(3,4) [THEN untouched_run])
qed


lemma ex_mic_law: "mic_law ex_mic_env"
  using ex_mic_rtos ex_mic_quiet
  by (auto simp: mic_law_def driver_quiet_def quiet_def silent_def ex_mic_env_def ex_i2s_def split: prod.splits)


end
