(* ===== verification/I2s_Speaker.thy ===== *)
theory I2s_Speaker
  imports I2s_Audio Complex_Main
begin

text \<open>
  \<open>class I2SAudioSpeakerBase\<close> and \<open>class I2SAudioSpeaker\<close> of \<open>components/i2s_audio/speaker/\<close>: the main loop, the commands, the
  interrupt handler of the transmit channel and the speaker task.

  The record \<open>spk\<close> holds the members; \<open>spk_bus\<close> is the I2S port. The local variables of the task are the record \<open>spk_task\<close>: its
  constants, the flags, the frames written and not yet reported, and the bytes in the transfer buffer. The ring buffer, the
  transfer buffer's source, the event queue, the clock, the volume library and the output callback are operations of
  \<open>'w spk_env\<close>; volumes are rational numbers. The task is its start (\<open>speaker_task_start\<close>), one turn of its loop
  (\<open>speaker_task_step\<close>) and its end (\<open>speaker_task_end\<close>); emptying the event queue need not end, so a turn gives an option.
\<close>

section \<open>State and environment\<close>

definition COMMAND_START :: u32 where "COMMAND_START = push_bit 0 1"
definition COMMAND_STOP :: u32 where "COMMAND_STOP = push_bit 1 1"
definition COMMAND_STOP_GRACEFULLY :: u32 where "COMMAND_STOP_GRACEFULLY = push_bit 2 1"
definition TASK_STARTING :: u32 where "TASK_STARTING = push_bit 10 1"
definition TASK_RUNNING :: u32 where "TASK_RUNNING = push_bit 11 1"
definition TASK_STOPPING :: u32 where "TASK_STOPPING = push_bit 12 1"
definition TASK_STOPPED :: u32 where "TASK_STOPPED = push_bit 13 1"
definition ERR_ESP_NO_MEM :: u32 where "ERR_ESP_NO_MEM = push_bit 19 1"
definition ERR_DROPPED_EVENT :: u32 where "ERR_DROPPED_EVENT = push_bit 20 1"

definition DMA_BUFFERS_COUNT :: u32 where "DMA_BUFFERS_COUNT = 4"
definition I2S_EVENT_QUEUE_COUNT :: u32 where "I2S_EVENT_QUEUE_COUNT = DMA_BUFFERS_COUNT + 1"
definition INT32_MAX :: u32 where "INT32_MAX = 0x7FFFFFFF"

datatype I2SCommFmt = FMT_STANDARD | FMT_PCM | FMT_MSB

record spk =
  spk_state_of :: spk_state
  spk_ready :: bool
  spk_failed :: bool
  spk_error :: bool
  spk_volume :: rat
  spk_mute :: bool
  audio_dac :: bool
  speaker_task_handle :: bool
  spk_event_group :: bool
  spk_buffer_duration_ms :: u32
  spk_timeout :: "u32 option"
  pause_state :: bool
  q31_volume_factor :: u32
  i2s_event_queue :: bool
  audio_stream_info :: stream_info
  current_stream_info :: stream_info
  spk_comm_fmt :: I2SCommFmt
  spk_bus :: i2s_bus

text \<open>\<open>esp_mono_swap\<close> is the condition of the preprocessor; \<open>volume_to_q31\<close> is \<open>db_to_q31\<close> after \<open>remap\<close>; \<open>gain_apply\<close> gets the
  factor, the number of samples and their size. \<open>tb_transfer\<close> gives the bytes it appends to the transfer buffer;
  \<open>evq_receive\<close> the next time stamp, if there is one.\<close>

record 'w spk_env = "'w i2s_env" +
  volume_to_q31 :: "rat \<Rightarrow> u32"
  gain_apply :: "u32 \<Rightarrow> nat \<Rightarrow> nat \<Rightarrow> u8 list \<Rightarrow> u8 list"
  esp_mono_swap :: bool
  dac_set_volume :: "rat \<Rightarrow> 'w \<Rightarrow> 'w"
  dac_set_mute :: "bool \<Rightarrow> 'w \<Rightarrow> 'w"
  rb_create :: "nat \<Rightarrow> 'w \<Rightarrow> bool \<times> 'w"
  rb_alive :: "'w \<Rightarrow> bool"
  rb_available :: "'w \<Rightarrow> nat"
  rb_write :: "u8 list \<Rightarrow> nat \<Rightarrow> 'w \<Rightarrow> nat \<times> 'w"
  tb_create :: "nat \<Rightarrow> 'w \<Rightarrow> bool \<times> 'w"
  tb_transfer :: "u8 list \<Rightarrow> nat \<Rightarrow> 'w \<Rightarrow> u8 list \<times> 'w"
  tb_free :: "'w \<Rightarrow> 'w"
  evq_create :: "u32 \<Rightarrow> 'w \<Rightarrow> bool \<times> 'w"
  evq_reset :: "'w \<Rightarrow> 'w"
  evq_receive :: "'w \<Rightarrow> int option \<times> 'w"
  evq_full :: "'w \<Rightarrow> bool"
  evq_send :: "int \<Rightarrow> 'w \<Rightarrow> 'w"
  timer_us :: "'w \<Rightarrow> int \<times> 'w"
  spk_millis :: "'w \<Rightarrow> u32 \<times> 'w"
  spk_ticks :: "u32 \<Rightarrow> nat"
  frames_to_bytes :: "stream_info \<Rightarrow> u32 \<Rightarrow> nat"
  frames_to_microseconds :: "stream_info \<Rightarrow> u32 \<Rightarrow> u32"
  spk_ms_to_bytes :: "stream_info \<Rightarrow> u32 \<Rightarrow> nat"
  spk_samples_to_bytes :: "stream_info \<Rightarrow> nat \<Rightarrow> nat"
  bytes_to_frames :: "stream_info \<Rightarrow> nat \<Rightarrow> u32"
  i2s_channel_preload_data :: "nat option \<Rightarrow> u8 list \<Rightarrow> 'w \<Rightarrow> nat \<times> 'w"
  i2s_channel_write :: "nat option \<Rightarrow> u8 list \<Rightarrow> u32 \<Rightarrow> 'w \<Rightarrow> nat \<times> 'w"
  audio_output_callback :: "u32 \<Rightarrow> int \<Rightarrow> 'w \<Rightarrow> 'w"

definition spk_set_buffer_duration :: "u32 \<Rightarrow> spk \<Rightarrow> spk" where
  "spk_set_buffer_duration x s = s\<lparr>spk_buffer_duration_ms := x\<rparr>"

definition spk_set_timeout :: "u32 \<Rightarrow> spk \<Rightarrow> spk" where
  "spk_set_timeout x s = s\<lparr>spk_timeout := Some x\<rparr>"

definition spk_set_pause_state :: "bool \<Rightarrow> spk \<Rightarrow> spk" where
  "spk_set_pause_state x s = s\<lparr>pause_state := x\<rparr>"

type_synonym ('w, 'a) spk_prog = "(spk \<times> 'w, 'a) state"

definition on_spk_bus :: "('w, 'a) bus_prog \<Rightarrow> ('w, 'a) spk_prog" where
  "on_spk_bus m = State (\<lambda>(s, w). case run_state m (spk_bus s, w) of (r, (b, w')) \<Rightarrow> (r, (s\<lparr>spk_bus := b\<rparr>, w')))"

section \<open>Volume\<close>

definition spk_set_volume :: "'w spk_env \<Rightarrow> rat \<Rightarrow> ('w, unit) spk_prog" where
  "spk_set_volume E volume = do {
     obj_mod (\<lambda>s. s\<lparr>spk_volume := volume\<rparr>);
     dac \<leftarrow> obj_get audio_dac;
     if dac then ext0 (dac_set_volume E volume)
     else obj_mod (\<lambda>s. s\<lparr>q31_volume_factor :=
       (if volume \<ge> 1 then INT32_MAX else if volume \<le> 0 then 0 else volume_to_q31 E volume)\<rparr>)
   }"

definition spk_set_mute_state :: "'w spk_env \<Rightarrow> bool \<Rightarrow> ('w, unit) spk_prog" where
  "spk_set_mute_state E mute_state = do {
     obj_mod (\<lambda>s. s\<lparr>spk_mute := mute_state\<rparr>);
     dac \<leftarrow> obj_get audio_dac;
     if dac then ext0 (dac_set_mute E mute_state)
     else if mute_state then obj_mod (\<lambda>s. s\<lparr>q31_volume_factor := 0\<rparr>)
     else do { v \<leftarrow> obj_get spk_volume; spk_set_volume E v }
   }"

definition apply_software_volume :: "'w spk_env \<Rightarrow> spk \<Rightarrow> u8 list \<Rightarrow> u8 list" where
  "apply_software_volume E s data =
     (if q31_volume_factor s = INT32_MAX then data
      else let bytes_per_sample = spk_samples_to_bytes E (current_stream_info s) 1
           in gain_apply E (q31_volume_factor s) (length data div bytes_per_sample) bytes_per_sample data)"

text \<open>Exchanging neighbouring 16-bit samples; an odd sample at the end stays.\<close>

fun swap_pairs :: "u8 list \<Rightarrow> u8 list" where
  "swap_pairs (a # b # c # d # bs) = c # d # a # b # swap_pairs bs"
| "swap_pairs bs = bs"

definition swap_esp32_mono_samples :: "'w spk_env \<Rightarrow> spk \<Rightarrow> u8 list \<Rightarrow> u8 list" where
  "swap_esp32_mono_samples E s data =
     (if esp_mono_swap E \<and> si_channels (current_stream_info s) = 1 \<and> si_bits (current_stream_info s) = 16
      then swap_pairs data else data)"

section \<open>Commands and the main loop\<close>

definition spk_setup :: "'w spk_env \<Rightarrow> ('w, unit) spk_prog" where
  "spk_setup E = do {
     eg \<leftarrow> ext (eg_create E);
     obj_mod (\<lambda>s. s\<lparr>spk_event_group := eg\<rparr>);
     if \<not> eg then obj_mod (\<lambda>s. s\<lparr>spk_failed := True\<rparr>)
     else do { v \<leftarrow> obj_get spk_volume; spk_set_volume E v }
   }"

definition spk_start :: "'w spk_env \<Rightarrow> ('w, unit) spk_prog" where
  "spk_start E = do {
     skip \<leftarrow> obj_get (\<lambda>s. \<not> spk_ready s \<or> spk_failed s \<or> spk_error s \<or> spk_state_of s = SPK_STARTING \<or>
       spk_state_of s = SPK_RUNNING);
     if skip then ret ()
     else do {
       obj_mod (\<lambda>s. s\<lparr>spk_state_of := SPK_STARTING\<rparr>);
       ext0 (eg_set E COMMAND_START)
     }
   }"

definition spk_stop_impl :: "'w spk_env \<Rightarrow> bool \<Rightarrow> ('w, unit) spk_prog" where
  "spk_stop_impl E wait_on_empty = do {
     skip \<leftarrow> obj_get (\<lambda>s. spk_failed s \<or> spk_state_of s = SPK_STOPPED);
     if skip then ret ()
     else ext0 (eg_set E (if wait_on_empty then COMMAND_STOP_GRACEFULLY else COMMAND_STOP))
   }"

definition spk_stop :: "'w spk_env \<Rightarrow> ('w, unit) spk_prog" where
  "spk_stop E = spk_stop_impl E False"

definition spk_finish :: "'w spk_env \<Rightarrow> ('w, unit) spk_prog" where
  "spk_finish E = spk_stop_impl E True"

definition spk_play :: "'w spk_env \<Rightarrow> u8 list \<Rightarrow> nat \<Rightarrow> ('w, nat) spk_prog" where
  "spk_play E data ticks_to_wait = do {
     failed \<leftarrow> obj_get spk_failed;
     if failed then ret 0
     else do {
       st \<leftarrow> obj_get spk_state_of;
       (if st \<noteq> SPK_RUNNING \<and> st \<noteq> SPK_STARTING then spk_start E else ret ());
       st \<leftarrow> obj_get spk_state_of;
       alive \<leftarrow> obs (rb_alive E);
       if st = SPK_RUNNING \<and> alive then ext (rb_write E data ticks_to_wait) else ret 0
     }
   }"

definition spk_play_now :: "'w spk_env \<Rightarrow> u8 list \<Rightarrow> ('w, nat) spk_prog" where
  "spk_play_now E data = spk_play E data 0"

definition spk_has_buffered_data :: "'w spk_env \<Rightarrow> 'w \<Rightarrow> bool" where
  "spk_has_buffered_data E w \<longleftrightarrow> rb_alive E w \<and> rb_available E w > 0"

definition set_i2s_comm_fmt :: "I2SCommFmt \<Rightarrow> ('w, unit) spk_prog" where
  "set_i2s_comm_fmt fmt = obj_mod (\<lambda>s.
     s\<lparr>spk_comm_fmt := fmt,
       spk_bus := (spk_bus s)\<lparr>out_base := (out_base (spk_bus s))\<lparr>i2s_comm_fmt :=
         (case fmt of FMT_PCM \<Rightarrow> ''pcm'' | FMT_MSB \<Rightarrow> ''msb'' | FMT_STANDARD \<Rightarrow> ''std'')\<rparr>\<rparr>\<rparr>)"

text \<open>\<open>I2SAudioSpeaker::start_i2s_driver\<close>: whether it is \<open>ESP_OK\<close>.\<close>

definition start_i2s_driver :: "'w spk_env \<Rightarrow> stream_info \<Rightarrow> ('w, bool) spk_prog" where
  "start_i2s_driver E info = do {
     obj_mod (\<lambda>s. s\<lparr>current_stream_info := info\<rparr>);
     b \<leftarrow> obj_get (\<lambda>s. out_base (spk_bus s));
     if is_fixed b \<and> i2s_sample_rate b \<noteq> si_rate info then ret False
     else if is_fixed b \<and> i2s_bits_per_sample b \<noteq> si_bits info \<and>
             uint (i2s_bits_per_sample b) \<noteq> 2 * uint (si_bits info) then ret False
     else do {
       queue \<leftarrow> obj_get i2s_event_queue;
       (if \<not> queue then do {
          q \<leftarrow> ext (evq_create E I2S_EVENT_QUEUE_COUNT);
          obj_mod (\<lambda>s. s\<lparr>i2s_event_queue := q\<rparr>)
        } else ext0 (evq_reset E));
       on_spk_bus (out_start_i2s_channel E False)
     }
   }"

definition spk_loop_events :: "'w spk_env \<Rightarrow> u32 \<Rightarrow> ('w, unit) spk_prog" where
  "spk_loop_events E event_group_bits = do {
     (if event_group_bits AND TASK_STARTING \<noteq> 0 then ext0 (eg_clear E TASK_STARTING) else ret ());
     (if event_group_bits AND TASK_RUNNING \<noteq> 0 then do {
        ext0 (eg_clear E TASK_RUNNING);
        obj_mod (\<lambda>s. s\<lparr>spk_state_of := SPK_RUNNING\<rparr>)
      } else ret ());
     (if event_group_bits AND TASK_STOPPING \<noteq> 0 then do {
        ext0 (eg_clear E TASK_STOPPING);
        obj_mod (\<lambda>s. s\<lparr>spk_state_of := SPK_STOPPING\<rparr>)
      } else ret ());
     (if event_group_bits AND TASK_STOPPED \<noteq> 0 then do {
        task \<leftarrow> obj_get speaker_task_handle;
        (if task then do {
           ext0 (rtos_task_delete E);
           obj_mod (\<lambda>s. s\<lparr>speaker_task_handle := False\<rparr>)
         } else ret ());
        _ \<leftarrow> on_spk_bus (out_stop_i2s_channel E);
        ext0 (eg_clear E ALL_BITS);
        obj_mod (\<lambda>s. s\<lparr>spk_error := False, spk_state_of := SPK_STOPPED\<rparr>)
      } else ret ());
     (if event_group_bits AND ERR_ESP_NO_MEM \<noteq> 0 then ext0 (eg_clear E ERR_ESP_NO_MEM) else ret ())
   }"

definition spk_loop_start :: "'w spk_env \<Rightarrow> ('w, unit) spk_prog" where
  "spk_loop_start E = do {
     ext0 (eg_clear E COMMAND_START);
     info \<leftarrow> obj_get audio_stream_info;
     ok \<leftarrow> start_i2s_driver E info;
     if \<not> ok then do {
       obj_mod (\<lambda>s. s\<lparr>spk_state_of := SPK_STOPPED, spk_error := True\<rparr>);
       ext0 (set_clear_timeout E 1000)
     } else do {
       task \<leftarrow> obj_get speaker_task_handle;
       if task then ret ()
       else do {
         created \<leftarrow> ext (rtos_task_create E);
         obj_mod (\<lambda>s. s\<lparr>speaker_task_handle := created\<rparr>);
         if created then ret ()
         else do {
           obj_mod (\<lambda>s. s\<lparr>spk_error := True\<rparr>);
           _ \<leftarrow> on_spk_bus (out_stop_i2s_channel E);
           obj_mod (\<lambda>s. s\<lparr>spk_state_of := SPK_STOPPED\<rparr>)
         }
       }
     }
   }"

definition spk_loop :: "'w spk_env \<Rightarrow> ('w, unit) spk_prog" where
  "spk_loop E = do {
     event_group_bits \<leftarrow> obs (eg_get E);
     spk_loop_events E event_group_bits;
     st \<leftarrow> obj_get spk_state_of;
     if event_group_bits AND COMMAND_START \<noteq> 0 \<and> st = SPK_STARTING then spk_loop_start E else ret ()
   }"

text \<open>The interrupt handler: a completed DMA buffer puts its time stamp into the queue; if the queue is full the oldest is
  dropped and the task is told to stop.\<close>

definition i2s_on_sent_cb :: "'w spk_env \<Rightarrow> ('w, unit) spk_prog" where
  "i2s_on_sent_cb E = do {
     now \<leftarrow> ext (timer_us E);
     full \<leftarrow> obs (evq_full E);
     (if full then do {
        _ \<leftarrow> ext (evq_receive E);
        ext0 (eg_set E (ERR_DROPPED_EVENT OR COMMAND_STOP))
      } else ret ());
     ext0 (evq_send E now)
   }"

section \<open>The task\<close>

record spk_task =
  frames_per_buffer :: u32
  actual_dma_buffer_ms :: u32
  expand_factor :: nat
  stop_gracefully :: bool
  tx_dma_underflow :: bool
  frames_written :: u32
  last_data_received_time :: u32
  transfer_buffer :: "u8 list"

definition ring_buffer_size :: "'w spk_env \<Rightarrow> spk \<Rightarrow> u32 \<Rightarrow> nat" where
  "ring_buffer_size E s dma_buffer_ms =
     spk_ms_to_bytes E (current_stream_info s) (max (dma_buffer_ms * DMA_BUFFERS_COUNT) (spk_buffer_duration_ms s))"

text \<open>The part before the loop; \<open>None\<close> when the buffers cannot be had. A stream of zero bits per sample has no factor (the
  division traps); \<open>start_i2s_driver\<close> refuses it.\<close>

definition speaker_task_start :: "'w spk_env \<Rightarrow> ('w, spk_task option) spk_prog" where
  "speaker_task_start E = do {
     ext0 (eg_set E TASK_STARTING);
     s \<leftarrow> obj_get id;
     let frames = dma_buffer_length (spk_bus s);
     let bytes = frames_to_bytes E (current_stream_info s) frames;
     let dma_ms = frames_to_microseconds E (current_stream_info s) frames div 1000;
     let factor = unat (i2s_bits_per_sample (out_base (spk_bus s)) div si_bits (current_stream_info s));
     tb \<leftarrow> ext (tb_create E bytes);
     rb \<leftarrow> (if tb \<and> factor \<noteq> 0 then ext (rb_create E (ring_buffer_size E s dma_ms)) else ret False);
     if \<not> rb then do { ext0 (eg_set E ERR_ESP_NO_MEM); ret None }
     else do {
       now \<leftarrow> ext (spk_millis E);
       ext0 (eg_set E TASK_RUNNING);
       ret (Some \<lparr>frames_per_buffer = frames, actual_dma_buffer_ms = dma_ms, expand_factor = factor, stop_gracefully = False,
         tx_dma_underflow = True, frames_written = 0, last_data_received_time = now, transfer_buffer = []\<rparr>)
     }
   }"

text \<open>Emptying the event queue: every time stamp accounts for one DMA buffer.\<close>

definition account_event :: "'w spk_env \<Rightarrow> stream_info \<Rightarrow> int \<Rightarrow> spk_task \<times> 'w \<Rightarrow> spk_task \<times> 'w" where
  "account_event E info write_timestamp tw =
     (case tw of (t, w) \<Rightarrow>
        let L = frames_per_buffer t;
            under = L > frames_written t;
            frames_sent = (if under then frames_written t else L);
            stamp = (if under then write_timestamp - uint (frames_to_microseconds E info (L - frames_written t))
                     else write_timestamp);
            t1 = t\<lparr>tx_dma_underflow := under, frames_written := frames_written t - frames_sent\<rparr>
        in if frames_sent > 0 then (t1, audio_output_callback E frames_sent stamp w) else (t1, w))"

partial_function (option) drain_events ::
    "'w spk_env \<Rightarrow> stream_info \<Rightarrow> spk_task \<times> 'w \<Rightarrow> (spk_task \<times> 'w) option" where
  "drain_events E info tw =
     (let r = evq_receive E (snd tw)
      in case fst r of
           None \<Rightarrow> Some (fst tw, snd r)
         | Some stamp \<Rightarrow> drain_events E info (account_event E info stamp (fst tw, snd r)))"

text \<open>A 16-bit sample becomes the upper half of a 32-bit sample.\<close>

fun expand_samples :: "u8 list \<Rightarrow> u8 list" where
  "expand_samples (lo # hi # bs) = le32_bytes (push_bit 16 (scast (le16_of [lo, hi]) :: u32)) @ expand_samples bs"
| "expand_samples _ = []"

text \<open>Writing the transfer buffer to the channel.\<close>

definition write_transfer_buffer :: "'w spk_env \<Rightarrow> spk \<Rightarrow> spk_task \<times> 'w \<Rightarrow> spk_task \<times> 'w" where
  "write_transfer_buffer E s tw =
     (case tw of (t, w) \<Rightarrow>
        let h = tx_handle (spk_bus s);
            data = (if expand_factor t = 2 then expand_samples (transfer_buffer t) else transfer_buffer t);
            r = (if tx_dma_underflow t then
                   let w1 = snd (i2s_channel_disable E h w);
                       w2 = snd (i2s_channel_register_event_callback E h False w1)
                   in i2s_channel_preload_data E h data w2
                 else i2s_channel_write E h data (actual_dma_buffer_ms t) w);
            bytes_written = fst r div expand_factor t
        in if bytes_written > 0 then
             let m = spk_millis E (snd r);
                 t1 = t\<lparr>last_data_received_time := fst m,
                        frames_written := frames_written t + bytes_to_frames E (current_stream_info s) bytes_written,
                        transfer_buffer := drop bytes_written (transfer_buffer t)\<rparr>
             in if tx_dma_underflow t then
                  (t1\<lparr>tx_dma_underflow := False\<rparr>,
                   snd (i2s_channel_enable E h (snd (i2s_channel_register_event_callback E h True (evq_reset E (snd m))))))
                else (t1, snd m)
           else (t, snd r))"

datatype turn = GO_ON spk_task | LEAVE

text \<open>The condition of the loop; the clock is only read when it is needed.\<close>

definition spk_keeps_running :: "'w spk_env \<Rightarrow> spk_task \<Rightarrow> ('w, bool) spk_prog" where
  "spk_keeps_running E t = do {
     s \<leftarrow> obj_get id;
     case spk_timeout s of
       None \<Rightarrow> ret True
     | Some limit \<Rightarrow>
         if pause_state s then ret True
         else do { now \<leftarrow> ext (spk_millis E); ret (now - last_data_received_time t \<le> limit) }
   }"

text \<open>What a turn does after the events: read from the ring buffer and write to the channel.\<close>

definition spk_transfer :: "'w spk_env \<Rightarrow> spk \<Rightarrow> spk_task \<times> 'w \<Rightarrow> turn \<times> 'w" where
  "spk_transfer E s tw =
     (case tw of (t, w) \<Rightarrow>
        if pause_state s then (GO_ON t, rtos_delay E (spk_ticks E (actual_dma_buffer_ms t)) w)
        else
          let read_delay = frames_to_microseconds E (current_stream_info s) (frames_written t) div 1000 div 2;
              r = tb_transfer E (transfer_buffer t) (spk_ticks E read_delay) w;
              new_data = (if length (fst r) > 0
                          then swap_esp32_mono_samples E s (apply_software_volume E s (fst r)) else fst r);
              t1 = t\<lparr>transfer_buffer := transfer_buffer t @ new_data\<rparr>
          in if transfer_buffer t1 = [] then
               if stop_gracefully t1 \<and> tx_dma_underflow t1 then (LEAVE, snd r)
               else (GO_ON t1, rtos_delay E (spk_ticks E (actual_dma_buffer_ms t1 div 2 + 1)) (snd r))
             else (case write_transfer_buffer E s (t1, snd r) of (t2, w2) \<Rightarrow> (GO_ON t2, w2)))"

definition speaker_task_step :: "'w spk_env \<Rightarrow> spk_task \<Rightarrow> spk \<times> 'w \<Rightarrow> (turn \<times> (spk \<times> 'w)) option" where
  "speaker_task_step E t sw =
     (case run_state (spk_keeps_running E t) sw of (go, (s, w)) \<Rightarrow>
        if \<not> go then Some (LEAVE, (s, w))
        else
          let bits = eg_get E w
          in if bits AND COMMAND_STOP \<noteq> 0 then Some (LEAVE, (s, eg_clear E COMMAND_STOP w))
             else
               let w1 = (if bits AND COMMAND_STOP_GRACEFULLY \<noteq> 0 then eg_clear E COMMAND_STOP_GRACEFULLY w else w);
                   t1 = (if bits AND COMMAND_STOP_GRACEFULLY \<noteq> 0 then t\<lparr>stop_gracefully := True\<rparr> else t)
               in if audio_stream_info s \<noteq> current_stream_info s then Some (LEAVE, (s, w1))
                  else do {
                    tw \<leftarrow> drain_events E (current_stream_info s) (t1, w1);
                    (case spk_transfer E s tw of (turn, w2) \<Rightarrow> Some (turn, (s, w2)))
                  })"

definition speaker_task_end :: "'w spk_env \<Rightarrow> ('w, unit) spk_prog" where
  "speaker_task_end E = do {
     ext0 (eg_set E TASK_STOPPING);
     ext0 (tb_free E);
     ext0 (eg_set E TASK_STOPPED)
   }"

end
