(* ===== verification/I2s_Speaker_Correct.thy ===== *)
theory I2s_Speaker_Correct
  imports I2s_Speaker I2s_Audio_Correct
begin

text \<open>
  Properties of the I2S speaker: the frames reported to the listeners are those written to the channel, every completed
  DMA buffer accounting for at most its length; 16-bit samples become the upper halves of 32-bit slots; a graceful stop
  plays everything out; an overflow of the event queue ends the task; and a start that is lost.

  Named hypotheses: \<open>rtos_law\<close>, \<open>bus_quiet\<close>, and \<open>event_queue\<close> (the queue of time stamps is first in, first out, and only
  the output callback reports frames).
\<close>

section \<open>Accounting for DMA buffers\<close>

text \<open>\<open>evq\<close> is the contents of the event queue and \<open>reported\<close> the number of frames handed to the output callback.\<close>

definition event_queue :: "'w spk_env \<Rightarrow> ('w \<Rightarrow> int list) \<Rightarrow> ('w \<Rightarrow> nat) \<Rightarrow> bool" where
  "event_queue E evq reported \<longleftrightarrow>
     (\<forall>w. fst (evq_receive E w) = (case evq w of [] \<Rightarrow> None | x # _ \<Rightarrow> Some x) \<and>
          evq (snd (evq_receive E w)) = tl (evq w) \<and> reported (snd (evq_receive E w)) = reported w) \<and>
     (\<forall>n x w. evq (audio_output_callback E n x w) = evq w \<and>
          reported (audio_output_callback E n x w) = reported w + unat n)"

lemma account_event_spec:
  assumes law: "event_queue E evq reported" and run: "account_event E info x (t, w) = (t', w')"
  shows "reported w' = reported w + min (unat (frames_written t)) (unat (frames_per_buffer t))"
    and "unat (frames_written t') = unat (frames_written t) - unat (frames_per_buffer t)"
    and "tx_dma_underflow t' = (unat (frames_written t) < unat (frames_per_buffer t))"
    and "frames_per_buffer t' = frames_per_buffer t" and "evq w' = evq w"
    and "transfer_buffer t' = transfer_buffer t"
proof -
  let ?f = "frames_written t" and ?L = "frames_per_buffer t"
  have less: "?f < ?L \<longleftrightarrow> unat ?f < unat ?L" by (simp add: word_less_nat_alt)
  have zero: "0 < x \<longleftrightarrow> 0 < unat x" for x :: u32 by (simp add: word_less_nat_alt)
  have cb: "evq (audio_output_callback E n y w) = evq w" "reported (audio_output_callback E n y w) = reported w + unat n" for n y
    using law by (simp_all add: event_queue_def)
  show "reported w' = reported w + min (unat ?f) (unat ?L)"
    using run by (auto simp: account_event_def Let_def less cb zero split: if_splits)
  show "evq w' = evq w"
    using run by (auto simp: account_event_def Let_def cb split: if_splits)
  have t': "t' = t\<lparr>tx_dma_underflow := ?f < ?L, frames_written := ?f - (if ?f < ?L then ?f else ?L)\<rparr>"
    using run by (auto simp: account_event_def Let_def split: if_splits)
  show "unat (frames_written t') = unat ?f - unat ?L"
    unfolding t' using less by (cases "?f < ?L") (simp_all add: unat_sub word_le_nat_alt)
  show "tx_dma_underflow t' = (unat ?f < unat ?L)" "frames_per_buffer t' = ?L" "transfer_buffer t' = transfer_buffer t"
    by (simp_all add: t' less)
qed

lemma drain_events_spec:
  assumes law: "event_queue E evq reported"
  shows "\<exists>t' w'. drain_events E info (t, w) = Some (t', w') \<and> evq w' = [] \<and> transfer_buffer t' = transfer_buffer t \<and>
    frames_per_buffer t' = frames_per_buffer t \<and>
    reported w' = reported w + min (unat (frames_written t)) (length (evq w) * unat (frames_per_buffer t)) \<and>
    unat (frames_written t') = unat (frames_written t) - length (evq w) * unat (frames_per_buffer t) \<and>
    tx_dma_underflow t' = (if evq w = [] then tx_dma_underflow t
      else unat (frames_written t) < length (evq w) * unat (frames_per_buffer t))"
proof (induction "evq w" arbitrary: t w)
  case Nil
  then have "evq_receive E w = (None, snd (evq_receive E w))" "evq (snd (evq_receive E w)) = []"
      "reported (snd (evq_receive E w)) = reported w"
    using law by (auto simp: event_queue_def prod_eq_iff split: list.splits)
  then show ?case
    using Nil by (subst drain_events.simps) (simp add: Let_def prod_eq_iff)
next
  case (Cons x xs)
  let ?w1 = "snd (evq_receive E w)"
  have r: "fst (evq_receive E w) = Some x" "evq ?w1 = xs" "reported ?w1 = reported w"
    using law Cons.hyps(2) [symmetric] by (simp_all add: event_queue_def)
  obtain t1 w2 where a: "account_event E info x (t, ?w1) = (t1, w2)" by (metis prod.exhaust)
  note acc = account_event_spec [OF law a]
  let ?f = "unat (frames_written t)" and ?L = "unat (frames_per_buffer t)"
  have len: "length (evq w) = Suc (length xs)" using Cons.hyps(2) by (metis length_Cons)
  have e2: "xs = evq w2" using acc(5) r(2) by simp
  obtain t' w' where IH: "drain_events E info (t1, w2) = Some (t', w')" "evq w' = []" "transfer_buffer t' = transfer_buffer t1"
      "frames_per_buffer t' = frames_per_buffer t1"
      "reported w' = reported w2 + min (unat (frames_written t1)) (length xs * ?L)"
      "unat (frames_written t') = unat (frames_written t1) - length xs * ?L"
      "tx_dma_underflow t' = (if xs = [] then tx_dma_underflow t1 else unat (frames_written t1) < length xs * ?L)"
    using Cons.hyps(1) [OF e2, of t1] unfolding e2 [symmetric] acc(4) by blast
  have "drain_events E info (t, w) = Some (t', w')"
    using IH(1) r(1) a by (subst drain_events.simps) (simp add: Let_def)
  moreover have "reported w' = reported w + min ?f (length (evq w) * ?L)"
    using IH(5) acc(1,2) r(3) unfolding len by auto
  moreover have "unat (frames_written t') = ?f - length (evq w) * ?L"
    using IH(6) acc(2) unfolding len by auto
  moreover have "tx_dma_underflow t' = (?f < length (evq w) * ?L)"
  proof (cases "xs = []")
    case False
    then have "1 \<le> length xs" by (simp add: Suc_le_eq)
    then have "?L \<le> length xs * ?L" using mult_le_mono1 [of 1 "length xs" ?L] by simp
    then show ?thesis using IH(7) acc(2) False unfolding len by auto
  qed (use IH(7) acc(3) len in simp)
  moreover have "evq w \<noteq> []" using Cons.hyps(2) by (metis list.discI)
  ultimately show ?case using IH(2-4) acc(4,6) by auto
qed

text \<open>C23: the speaker reports every frame once. Emptying the event queue returns; with \<open>k\<close> completed DMA buffers of \<open>L\<close> frames
  each and \<open>f\<close> frames written and not yet reported, it reports exactly the smaller of \<open>f\<close> and \<open>k * L\<close> frames, keeps
  the others for later, and sees an underflow exactly when the buffers held more than was written.\<close>

theorem speaker_reports_frames_once:
  assumes "event_queue E evq reported"
  shows "\<exists>t' w'. drain_events E info (t, w) = Some (t', w') \<and> evq w' = [] \<and>
    reported w' = reported w + min (unat (frames_written t)) (length (evq w) * unat (frames_per_buffer t)) \<and>
    reported w' + unat (frames_written t') = reported w + unat (frames_written t) \<and>
    (evq w \<noteq> [] \<longrightarrow> tx_dma_underflow t' = (unat (frames_written t) < length (evq w) * unat (frames_per_buffer t)))"
  using drain_events_spec [OF assms, of info t w] by fastforce

section \<open>Expanding samples\<close>

lemma expand_one: "le32_bytes (push_bit 16 (scast (le16_of [lo, hi]) :: u32)) = [0, 0, lo, hi]"
  unfolding le32_bytes_def mask_simps
  by (simp, intro conjI; rule bit_word_eqI) (auto simp: bit_simps dest: bit_imp_le_length)

lemma expand_samples_map:
  "expand_samples bs = concat (map (\<lambda>k. [0, 0, bs ! (2 * k), bs ! (2 * k + 1)]) [0..<length bs div 2])"
proof (induction bs rule: expand_samples.induct)
  case (1 lo hi bs)
  have "[0..<length (lo # hi # bs) div 2] = 0 # map Suc [0..<length bs div 2]"
    by (simp add: map_Suc_upt upt_conv_Cons del: upt_Suc)
  then show ?case using 1 by (simp add: expand_one comp_def del: upt_Suc le16_of.simps)
qed simp_all

lemma length_expand_samples: "length (expand_samples bs) = 4 * (length bs div 2)"
  by (induction bs rule: expand_samples.induct) simp_all

text \<open>A 16-bit sample becomes the upper half of a 32-bit slot: the bytes written are, for every two bytes of the stream, two zero
  bytes and then these two; so the number of bytes doubles, and dividing the number of bytes the driver accepted by two
  gives the number of stream bytes that are done.\<close>

theorem expand_samples_bytes:
  "expand_samples bs = concat (map (\<lambda>k. [0, 0, bs ! (2 * k), bs ! (2 * k + 1)]) [0..<length bs div 2]) \<and>
   (even (length bs) \<longrightarrow> length (expand_samples bs) div 2 = length bs)"
  using expand_samples_map [of bs] length_expand_samples [of bs] by auto

section \<open>Stopping\<close>

lemmas spk_bits = COMMAND_START_def COMMAND_STOP_def COMMAND_STOP_GRACEFULLY_def TASK_STARTING_def TASK_RUNNING_def
  TASK_STOPPING_def TASK_STOPPED_def ERR_ESP_NO_MEM_def ERR_DROPPED_EVENT_def ALL_BITS_def

lemma length_swap_pairs [simp]: "length (swap_pairs bs) = length bs"
  by (induction bs rule: swap_pairs.induct) simp_all

lemma length_new_data:
  assumes "\<And>q n b data. length (gain_apply E q n b data) = length data"
  shows "swap_esp32_mono_samples E s (apply_software_volume E s data) = [] \<longleftrightarrow> data = []"
  using assms by (simp add: swap_esp32_mono_samples_def apply_software_volume_def Let_def flip: length_0_conv)


text \<open>An overflow of the event queue ends the task. If the queue is full when a DMA buffer completes, the interrupt handler
  sets the stop command together with the error; the task's next turn then leaves its loop, whatever else happens, so
  that no frame is reported with a time stamp of another buffer.\<close>

theorem speaker_overflow_stops_task:
  assumes law: "rtos_law E n" and q: "\<And>w. eg_get E (snd (evq_receive E w)) = eg_get E w" "\<And>x w. eg_get E (evq_send E x w) = eg_get E w"
      "\<And>w. eg_get E (snd (spk_millis E w)) = eg_get E w"
    and full: "evq_full E (snd (timer_us E w))"
    and isr: "run_state (i2s_on_sent_cb E) (s, w) = ((), (s1, w1))"
  shows "s1 = s \<and> (\<exists>w'. speaker_task_step E t (s1, w1) = Some (LEAVE, (s1, w')))"
proof -
  note R = rtos_bits [OF law]
  have s1: "s1 = s" and w1: "w1 = evq_send E (fst (timer_us E w))
      (eg_set E (ERR_DROPPED_EVENT OR COMMAND_STOP) (snd (evq_receive E (snd (timer_us E w)))))"
    using isr full by (simp_all add: i2s_on_sent_cb_def)
  have "bit (eg_get E w1) 1" by (simp add: w1 q R) (simp add: bit_simps spk_bits)
  then have stop: "eg_get E w1 AND COMMAND_STOP \<noteq> 0"
    by (simp add: COMMAND_STOP_def bit_iff_and_push_bit_not_eq_0)
  show ?thesis
    using stop s1 q(3)
    by (simp add: speaker_task_step_def spk_keeps_running_def Let_def split: option.splits)
qed

section \<open>A start that is lost\<close>

lemma on_spk_bus_run:
  "run_state (on_spk_bus m) (s, w) =
     (fst (run_state m (spk_bus s, w)),
      (s\<lparr>spk_bus := fst (snd (run_state m (spk_bus s, w)))\<rparr>, snd (snd (run_state m (spk_bus s, w)))))"
  by (simp add: on_spk_bus_def case_prod_beta)

lemma out_stop_quiet:
  assumes "bus_quiet E"
  shows "eg_get E (snd (snd (run_state (out_stop_i2s_channel E) (b, w)))) = eg_get E w"
  by (simp add: out_stop_i2s_channel_def bus_quiet_bits [OF assms] case_prod_beta)

text \<open>A start while the speaker is stopping is lost. \<open>start\<close> accepts the request: the speaker counts as starting and the
  command bit is set; but when the loop then handles the end of the old task, it clears all bits, the new command
  included, and reports the speaker as stopped. No task is created and nothing is left of the request.\<close>

theorem spk_start_while_stopping_lost:
  assumes law: "rtos_law E n" "bus_quiet E"
    and s: "spk_state_of s = SPK_STOPPING" "spk_ready s" "\<not> spk_failed s" "\<not> spk_error s" and w: "eg_get E w = TASK_STOPPED"
  shows "\<exists>w1 s2 w2. run_state (spk_start E) (s, w) = ((), (s\<lparr>spk_state_of := SPK_STARTING\<rparr>, w1)) \<and>
    eg_get E w1 AND COMMAND_START \<noteq> 0 \<and>
    run_state (spk_loop E) (s\<lparr>spk_state_of := SPK_STARTING\<rparr>, w1) = ((), (s2, w2)) \<and>
    spk_state_of s2 = SPK_STOPPED \<and> \<not> speaker_task_handle s2 \<and> eg_get E w2 = 0"
proof -
  note R = rtos_bits [OF law(1)]
  let ?s1 = "s\<lparr>spk_state_of := SPK_STARTING\<rparr>" and ?w1 = "eg_set E COMMAND_START w"
  have start: "run_state (spk_start E) (s, w) = ((), (?s1, ?w1))" using s by (simp add: spk_start_def)
  have b1: "eg_get E ?w1 = 0x2001" unfolding R(1) w by (simp add: spk_bits)
  have t: "eg_get E ?w1 AND TASK_STARTING = 0" "eg_get E ?w1 AND TASK_RUNNING = 0" "eg_get E ?w1 AND TASK_STOPPING = 0"
    "eg_get E ?w1 AND TASK_STOPPED \<noteq> 0" "eg_get E ?w1 AND ERR_ESP_NO_MEM = 0" "eg_get E ?w1 AND COMMAND_START \<noteq> 0"
    unfolding b1 by (simp_all add: spk_bits)
  let ?wd = "if speaker_task_handle s then rtos_task_delete E ?w1 else ?w1"
  let ?st = "run_state (out_stop_i2s_channel E) (spk_bus s, ?wd)"
  let ?s2 = "s\<lparr>speaker_task_handle := False, spk_bus := fst (snd ?st), spk_error := False, spk_state_of := SPK_STOPPED\<rparr>"
  have loop: "run_state (spk_loop E) (?s1, ?w1) = ((), (?s2, eg_clear E ALL_BITS (snd (snd ?st))))"
    using t by (cases "speaker_task_handle s") (simp_all add: spk_loop_def spk_loop_events_def on_spk_bus_run)
  have "eg_get E (eg_clear E ALL_BITS (snd (snd ?st))) = eg_get E ?w1 AND NOT ALL_BITS"
    by (simp add: R out_stop_quiet [OF law(2)])
  also have "\<dots> = 0" unfolding b1 by (simp add: spk_bits)
  finally have b2: "eg_get E (eg_clear E ALL_BITS (snd (snd ?st))) = 0" .
  show ?thesis
    by (rule exI [of _ ?w1], rule exI [of _ ?s2], rule exI) (use start loop b2 t(6) in simp)
qed

section \<open>An example\<close>

text \<open>The world is the event bits, the queue of time stamps and the number of frames reported.\<close>

type_synonym ex_spk_world = "u32 \<times> int list \<times> nat"

definition ex_spk_env :: "ex_spk_world spk_env" where
  "ex_spk_env =
     \<lparr>eg_create = Pair True, eg_get = fst, eg_set = (\<lambda>b (e, r). (e OR b, r)), eg_clear = (\<lambda>b (e, r). (e AND NOT b, r)),
      sem_create = (\<lambda>n k. Pair True), sem_count = (\<lambda>w. 0), sem_take = id, sem_give = id, rtos_task_create = Pair True,
      rtos_task_delete = id, rtos_delay = (\<lambda>n. id), set_clear_timeout = (\<lambda>n. id),
      philips_slot_cfg = ex_slot, pcm_slot_cfg = ex_slot, msb_slot_cfg = ex_slot, has_apll = False, plain_esp32 = False,
      port_lock = id, port_unlock = id, i2s_new_channel = (\<lambda>c a b. Pair None), i2s_channel_init_std_mode = (\<lambda>h c. Pair True),
      i2s_channel_get_info = (\<lambda>h. Pair None), i2s_channel_register_event_callback = (\<lambda>h b. Pair True),
      i2s_channel_enable = (\<lambda>h. Pair True), i2s_channel_disable = (\<lambda>h. Pair True), i2s_del_channel = (\<lambda>h. Pair True),
      volume_to_q31 = (\<lambda>v. 1), gain_apply = (\<lambda>q n b d. d), esp_mono_swap = False, dac_set_volume = (\<lambda>v. id),
      dac_set_mute = (\<lambda>b. id), rb_create = (\<lambda>n. Pair True), rb_alive = (\<lambda>w. True), rb_available = (\<lambda>w. 0),
      rb_write = (\<lambda>d n. Pair (length d)), tb_create = (\<lambda>n. Pair True), tb_transfer = (\<lambda>b n. Pair []), tb_free = id,
      evq_create = (\<lambda>n. Pair True), evq_reset = (\<lambda>(e, q, r). (e, [], r)),
      evq_receive = (\<lambda>(e, q, r). (case q of [] \<Rightarrow> None | x # _ \<Rightarrow> Some x, (e, tl q, r))),
      evq_full = (\<lambda>(e, q, r). 5 \<le> length q), evq_send = (\<lambda>x (e, q, r). (e, q @ [x], r)), timer_us = Pair 7,
      spk_millis = Pair 0, spk_ticks = unat, frames_to_bytes = (\<lambda>i n. 4 * unat n), frames_to_microseconds = (\<lambda>i n. n),
      spk_ms_to_bytes = (\<lambda>i n. unat n), spk_samples_to_bytes = (\<lambda>i n. 2 * n), bytes_to_frames = (\<lambda>i n. of_nat (n div 4)),
      i2s_channel_preload_data = (\<lambda>h d. Pair (length d)), i2s_channel_write = (\<lambda>h d t. Pair (length d)),
      audio_output_callback = (\<lambda>n x (e, q, r). (e, q, r + unat n))\<rparr>"

definition ex_spk :: spk where
  "ex_spk =
     \<lparr>spk_state_of = SPK_STOPPING, spk_ready = True, spk_failed = False, spk_error = False, spk_volume = 1, spk_mute = False,
      audio_dac = False, speaker_task_handle = True, spk_event_group = True, spk_buffer_duration_ms = 100, spk_timeout = None,
      pause_state = False, q31_volume_factor = INT32_MAX, i2s_event_queue = True,
      audio_stream_info = \<lparr>si_bits = 16, si_channels = 2, si_rate = 48000\<rparr>,
      current_stream_info = \<lparr>si_bits = 16, si_channels = 2, si_rate = 48000\<rparr>, spk_comm_fmt = FMT_STANDARD, spk_bus = ex_bus\<rparr>"

definition ex_task :: spk_task where
  "ex_task = \<lparr>frames_per_buffer = 240, actual_dma_buffer_ms = 5, expand_factor = 2, stop_gracefully = True,
     tx_dma_underflow = True, frames_written = 500, last_data_received_time = 0, transfer_buffer = []\<rparr>"

lemma ex_spk_rtos: "rtos_law ex_spk_env 0"
  by (auto simp: rtos_law_def quiet_def ex_spk_env_def)

lemma ex_spk_quiet: "bus_quiet ex_spk_env"
  by (auto simp: bus_quiet_def quiet_def ex_spk_env_def)

lemma ex_event_queue: "event_queue ex_spk_env (\<lambda>(e, q, r). q) (\<lambda>(e, q, r). r)"
  by (auto simp: event_queue_def ex_spk_env_def)

theorem speaker_reports_frames_once_witness:
  "\<exists>t' e. drain_events ex_spk_env (current_stream_info ex_spk) (ex_task, (0, [11, 22, 33], 1000)) = Some (t', (e, [], 1500)) \<and>
     frames_written t' = 0 \<and> tx_dma_underflow t'"
  using speaker_reports_frames_once [OF ex_event_queue, of "current_stream_info ex_spk" ex_task "(0, [11, 22, 33], 1000)"]
  by (auto simp: ex_task_def unsigned_eq_0_iff)

theorem expand_samples_bytes_witness:
  "expand_samples [1, 2, 3, 4] = [0, 0, 1, 2, 0, 0, 3, 4]"
  using expand_samples_bytes [of "[1, 2, 3, 4]"] by simp


theorem speaker_overflow_stops_task_witness:
  "\<exists>s1 w1 w'. run_state (i2s_on_sent_cb ex_spk_env) (ex_spk, (0, [1, 2, 3, 4, 5], 0)) = ((), (s1, w1)) \<and>
     speaker_task_step ex_spk_env ex_task (s1, w1) = Some (LEAVE, (s1, w'))"
proof -
  let ?w = "(0, [1, 2, 3, 4, 5], 0) :: ex_spk_world"
  obtain s1 w1 where isr: "run_state (i2s_on_sent_cb ex_spk_env) (ex_spk, ?w) = ((), (s1, w1))"
    by (metis old.unit.exhaust prod.exhaust)
  have "eg_get ex_spk_env (snd (evq_receive ex_spk_env w)) = eg_get ex_spk_env w"
    "eg_get ex_spk_env (evq_send ex_spk_env x w) = eg_get ex_spk_env w"
    "eg_get ex_spk_env (snd (spk_millis ex_spk_env w)) = eg_get ex_spk_env w" for x w
    by (simp_all add: ex_spk_env_def case_prod_beta)
  moreover have "evq_full ex_spk_env (snd (timer_us ex_spk_env ?w))" by (simp add: ex_spk_env_def)
  ultimately show ?thesis
    using speaker_overflow_stops_task [OF ex_spk_rtos _ _ _ _ isr] isr by blast
qed

theorem spk_start_while_stopping_lost_witness:
  "\<exists>w1 s2 w2. run_state (spk_start ex_spk_env) (ex_spk, (TASK_STOPPED, [], 0)) =
       ((), (ex_spk\<lparr>spk_state_of := SPK_STARTING\<rparr>, w1)) \<and>
     run_state (spk_loop ex_spk_env) (ex_spk\<lparr>spk_state_of := SPK_STARTING\<rparr>, w1) = ((), (s2, w2)) \<and>
     spk_state_of s2 = SPK_STOPPED"
proof -
  have "spk_state_of ex_spk = SPK_STOPPING" "spk_ready ex_spk" "\<not> spk_failed ex_spk" "\<not> spk_error ex_spk"
    "eg_get ex_spk_env (TASK_STOPPED, [], 0) = TASK_STOPPED"
    by (simp_all add: ex_spk_def ex_spk_env_def)
  from spk_start_while_stopping_lost [OF ex_spk_rtos ex_spk_quiet this] show ?thesis by blast
qed

end
