(* ===== verification/I2s_Speaker_Life.thy ===== *)
theory I2s_Speaker_Life
  imports Task_Lifecycle I2s_Speaker_Correct
begin

text \<open>
  The I2S speaker as an instance of \<open>running_task\<close>: all its operations and the interrupt handler interleaved.

  Named hypothesis: \<open>spk_law\<close>.
\<close>

text \<open>Queues, buffers, clock, converter, the client's callback and writing leave the speaker's event group alone.\<close>

definition spk_law :: "'w spk_env \<Rightarrow> bool" where
  "spk_law E \<longleftrightarrow> rtos_law E 0 \<and> driver_quiet E \<and>
     silent E (\<lambda>w. snd (spk_millis E w)) \<and> silent E (\<lambda>w. snd (timer_us E w)) \<and>
     silent E (\<lambda>w. snd (evq_receive E w)) \<and> silent E (evq_reset E) \<and> (\<forall>x. silent E (evq_send E x)) \<and>
     (\<forall>n. silent E (\<lambda>w. snd (evq_create E n w))) \<and> (\<forall>n. silent E (\<lambda>w. snd (rb_create E n w))) \<and>
     (\<forall>d n. silent E (\<lambda>w. snd (rb_write E d n w))) \<and> (\<forall>n. silent E (\<lambda>w. snd (tb_create E n w))) \<and>
     (\<forall>b n. silent E (\<lambda>w. snd (tb_transfer E b n w))) \<and> silent E (tb_free E) \<and>
     (\<forall>v. silent E (dac_set_volume E v)) \<and> (\<forall>m. silent E (dac_set_mute E m)) \<and>
     (\<forall>h d. silent E (\<lambda>w. snd (i2s_channel_preload_data E h d w))) \<and>
     (\<forall>h d n. silent E (\<lambda>w. snd (i2s_channel_write E h d n w))) \<and> (\<forall>n x. silent E (audio_output_callback E n x))"

lemma spk_lawD:
  assumes "spk_law E"
  shows "rtos_law E 0" "driver_quiet E" "silent E (\<lambda>w. snd (spk_millis E w))" "silent E (\<lambda>w. snd (timer_us E w))"
    "silent E (\<lambda>w. snd (evq_receive E w))" "silent E (evq_reset E)" "silent E (evq_send E x)"
    "silent E (\<lambda>w. snd (evq_create E q w))" "silent E (\<lambda>w. snd (rb_create E n w))" "silent E (\<lambda>w. snd (rb_write E d n w))"
    "silent E (\<lambda>w. snd (tb_create E n w))" "silent E (\<lambda>w. snd (tb_transfer E d n w))" "silent E (tb_free E)"
    "silent E (dac_set_volume E v)" "silent E (dac_set_mute E m)"
    "silent E (\<lambda>w. snd (i2s_channel_preload_data E h d w))" "silent E (\<lambda>w. snd (i2s_channel_write E h d ms w))"
    "silent E (audio_output_callback E f y)"
  using assms by (simp_all add: spk_law_def)

lemma on_spk_bus_untouched:
  assumes "untouched E k m"
  shows "untouched E k (on_spk_bus m)"
  using assms by (simp add: keeps_def on_spk_bus_run)

text \<open>A turn of the task leaves the bits of the task and the object alone.\<close>

lemma spk_silent:
  assumes "spk_law E"
  shows "eg_get E (snd (evq_receive E w)) = eg_get E w" "eg_get E (audio_output_callback E f y w) = eg_get E w"
    "eg_get E (snd (spk_millis E w)) = eg_get E w" "eg_get E (evq_reset E w) = eg_get E w"
    "eg_get E (snd (tb_transfer E d n w)) = eg_get E w" "eg_get E (snd (i2s_channel_preload_data E h d w)) = eg_get E w"
    "eg_get E (snd (i2s_channel_write E h d ms w)) = eg_get E w" "eg_get E (snd (i2s_channel_disable E h w)) = eg_get E w"
    "eg_get E (snd (i2s_channel_enable E h w)) = eg_get E w"
    "eg_get E (snd (i2s_channel_register_event_callback E h b w)) = eg_get E w" "eg_get E (rtos_delay E n w) = eg_get E w"
  using assms rtos_bits(13) [OF spk_lawD(1) [OF assms]]
  by (simp_all add: spk_law_def silent_def driver_quiet_def bus_quiet_def quiet_def)

lemma drain_silent:
  assumes "spk_law E" "drain_events E info tw = Some y"
  shows "eg_get E (snd y) = eg_get E (snd tw)"
proof -
  have "spk_law E \<longrightarrow> eg_get E (snd y) = eg_get E (snd tw)"
    using assms(2)
    by (rule drain_events.raw_induct [where P = "\<lambda>E info tw y. spk_law E \<longrightarrow> eg_get E (snd y) = eg_get E (snd tw)", rotated])
      (auto simp: Let_def account_event_def spk_silent split: option.splits prod.splits if_splits)
  then show ?thesis using assms(1) by simp
qed

lemma spk_transfer_silent:
  assumes "spk_law E"
  shows "eg_get E (snd (spk_transfer E s tw)) = eg_get E (snd tw)"
  by (simp add: spk_transfer_def write_transfer_buffer_def Let_def case_prod_beta spk_silent [OF assms])

lemma spk_keeps_running_run:
  assumes "spk_law E"
  shows "fst (snd (run_state (spk_keeps_running E t) c)) = fst c"
    "eg_get E (snd (snd (run_state (spk_keeps_running E t) c))) = eg_get E (snd c)"
  using spk_silent(3) [OF assms]
  by (cases c; simp add: spk_keeps_running_def case_prod_beta split: option.split)+

lemma spk_turn_spec:
  assumes law: "spk_law E" and run: "speaker_task_step E t c = Some (r, c')"
    and k: "COMMAND_STOP AND k = 0" "COMMAND_STOP_GRACEFULLY AND k = 0"
  shows "fst c' = fst c" "eg_get E (snd c') AND k = eg_get E (snd c) AND k"
proof -
  obtain go s w where kr: "run_state (spk_keeps_running E t) c = (go, (s, w))" by (metis prod.collapse)
  note K = spk_keeps_running_run [OF law, of t c, unfolded kr] and B = rtos_bits(3) [OF spk_lawD(1) [OF law]]
  show "fst c' = fst c"
    using run K(1) by (auto simp: speaker_task_step_def kr Let_def case_prod_beta split: if_splits bind_splits)
  have "eg_get E (snd c') = eg_get E w \<or> eg_get E (snd c') = eg_get E w AND NOT COMMAND_STOP \<or>
      eg_get E (snd c') = eg_get E w AND NOT COMMAND_STOP_GRACEFULLY"
    using run drain_silent [OF law]
    by (fastforce simp: speaker_task_step_def kr Let_def case_prod_beta B spk_transfer_silent [OF law] split: if_splits bind_splits)
  then show "eg_get E (snd c') AND k = eg_get E (snd c) AND k"
    using K(2) mask_disjoint(2) [OF k(1)] mask_disjoint(2) [OF k(2)] by auto
qed

text \<open>What the loop does about the announcements of the task, and the rest of it.\<close>

definition spk_sys :: "'w spk_env \<Rightarrow> (spk \<times> 'w) task_sys" where
  "spk_sys E =
     \<lparr>sys_loop = (\<lambda>c c'. c' = snd (run_state (spk_loop E) c)),
      sys_other = (\<lambda>c c'. c' = snd (run_state (spk_start E) c) \<or> c' = snd (run_state (spk_stop E) c) \<or>
        c' = snd (run_state (spk_finish E) c) \<or> (\<exists>d n. c' = snd (run_state (spk_play E d n) c)) \<or>
        (\<exists>v. c' = snd (run_state (spk_set_volume E v) c)) \<or> (\<exists>m. c' = snd (run_state (spk_set_mute_state E m) c)) \<or>
        (\<exists>i. c' = ((fst c)\<lparr>audio_stream_info := i\<rparr>, snd c)) \<or> (\<exists>b. c' = (spk_set_pause_state b (fst c), snd c)) \<or>
        (\<exists>t. c' = (spk_set_timeout t (fst c), snd c)) \<or>
        c' = snd (run_state (i2s_on_sent_cb E) c) \<or> c' = ((fst c)\<lparr>spk_error := False\<rparr>, snd c) \<or>
        (\<exists>w'. c' = (fst c, w') \<and> eg_get E w' = eg_get E (snd c))),
      sys_begin = (\<lambda>c go c'. go = (fst (run_state (speaker_task_start E) c) \<noteq> None) \<and> c' = snd (run_state (speaker_task_start E) c)),
      sys_turn = (\<lambda>c go c'. \<exists>t r. speaker_task_step E t c = Some (r, c') \<and> go = (r \<noteq> LEAVE)),
      sys_end = (\<lambda>c c'. c' = snd (run_state (speaker_task_end E) c)),
      sys_handle = (\<lambda>c. speaker_task_handle (fst c)),
      sys_stopped = (\<lambda>c. eg_get E (snd c) AND TASK_STOPPED \<noteq> 0)\<rparr>"

lemma spk_events_run:
  fixes E :: "'w spk_env"
  defines "w0 \<equiv> \<lambda>b w. let x = (if b AND TASK_STARTING \<noteq> 0 then eg_clear E TASK_STARTING w else w);
        y = (if b AND TASK_RUNNING \<noteq> 0 then eg_clear E TASK_RUNNING x else x)
      in if b AND TASK_STOPPING \<noteq> 0 then eg_clear E TASK_STOPPING y else y"
  defines "s0 \<equiv> \<lambda>b s. let x = (if b AND TASK_RUNNING \<noteq> 0 then s\<lparr>spk_state_of := SPK_RUNNING\<rparr> else s)
      in if b AND TASK_STOPPING \<noteq> 0 then x\<lparr>spk_state_of := SPK_STOPPING\<rparr> else x"
  defines "m \<equiv> \<lambda>b w. if b AND ERR_ESP_NO_MEM \<noteq> 0 then eg_clear E ERR_ESP_NO_MEM w else w"
  shows "run_state (spk_loop_events E b) (s, w) = ((),
    if b AND TASK_STOPPED = 0 then (s0 b s, m b (w0 b w))
    else let x = (if speaker_task_handle s then rtos_task_delete E (w0 b w) else w0 b w);
        d = run_state (on_spk_bus (out_stop_i2s_channel E)) (if speaker_task_handle s then (s0 b s)\<lparr>speaker_task_handle := False\<rparr> else s0 b s, x)
      in ((fst (snd d))\<lparr>spk_error := False, spk_state_of := SPK_STOPPED\<rparr>, m b (eg_clear E ALL_BITS (snd (snd d)))))"
  unfolding assms spk_loop_events_def
  by (cases "b AND TASK_STARTING = 0"; cases "b AND TASK_RUNNING = 0"; cases "b AND TASK_STOPPING = 0"; cases "speaker_task_handle s")
    (simp_all add: Let_def case_prod_beta)

lemma spk_bus_obj:
  "speaker_task_handle (fst (snd (run_state (on_spk_bus m) c))) = speaker_task_handle (fst c)"
  "spk_state_of (fst (snd (run_state (on_spk_bus m) c))) = spk_state_of (fst c)"
  by (cases c; simp add: on_spk_bus_run)+

lemma spk_events_spec:
  assumes law: "spk_law E" and run: "run_state (spk_loop_events E (eg_get E w)) (s, w) = ((), (s1, w1))"
  shows "eg_get E w1 AND TASK_STOPPED = 0" "eg_get E w1 AND TASK_RUNNING = 0"
    "eg_get E w AND TASK_STOPPED \<noteq> 0 \<Longrightarrow> spk_state_of s1 = SPK_STOPPED"
    "eg_get E w AND TASK_STOPPED = 0 \<Longrightarrow> speaker_task_handle s1 = speaker_task_handle s \<and>
       (spk_state_of s1 = SPK_RUNNING \<longrightarrow> spk_state_of s = SPK_RUNNING \<or> eg_get E w AND TASK_RUNNING \<noteq> 0)"
proof -
  note rb = rtos_bits [OF spk_lawD(1) [OF law]]
  have k: "TASK_STARTING AND TASK_RUNNING = 0" "TASK_STARTING AND TASK_STOPPED = 0" "TASK_RUNNING AND TASK_STOPPED = 0"
    "TASK_STOPPING AND TASK_RUNNING = 0" "TASK_STOPPING AND TASK_STOPPED = 0" "ERR_ESP_NO_MEM AND TASK_RUNNING = 0"
    "ERR_ESP_NO_MEM AND TASK_STOPPED = 0"
    "TASK_STOPPED AND NOT ALL_BITS = 0" "TASK_RUNNING AND NOT ALL_BITS = 0" "TASK_RUNNING AND NOT TASK_RUNNING = 0"
    by (simp_all add: spk_bits)
  show "eg_get E w1 AND TASK_STOPPED = 0" "eg_get E w1 AND TASK_RUNNING = 0"
    using run k by (auto simp: spk_events_run Let_def rb mask_cleared mask_disjoint split: if_splits)
  show "spk_state_of s1 = SPK_STOPPED" if "eg_get E w AND TASK_STOPPED \<noteq> 0"
    using run that by (auto simp: spk_events_run Let_def)
  show "speaker_task_handle s1 = speaker_task_handle s \<and>
       (spk_state_of s1 = SPK_RUNNING \<longrightarrow> spk_state_of s = SPK_RUNNING \<or> eg_get E w AND TASK_RUNNING \<noteq> 0)"
    if "eg_get E w AND TASK_STOPPED = 0"
    using run that by (auto simp: spk_events_run Let_def split: if_splits)
qed

lemma start_i2s_driver_obj:
  "speaker_task_handle (fst (snd (run_state (start_i2s_driver E i) c))) = speaker_task_handle (fst c)"
  "spk_state_of (fst (snd (run_state (start_i2s_driver E i) c))) = spk_state_of (fst c)"
  by (cases c; simp add: start_i2s_driver_def spk_bus_obj case_prod_beta Let_def)+

lemma spk_loop_start_obj:
  assumes "run_state (spk_loop_start E) (s, w) = ((), (s', w'))"
  shows "spk_state_of s' = SPK_RUNNING \<Longrightarrow> spk_state_of s = SPK_RUNNING" "speaker_task_handle s \<Longrightarrow> speaker_task_handle s'"
proof -
  obtain ok s1 w1 where d: "run_state (start_i2s_driver E (audio_stream_info s)) (s, eg_clear E COMMAND_START w) = (ok, (s1, w1))"
    by (metis prod.collapse)
  then have s1: "speaker_task_handle s1 = speaker_task_handle s" "spk_state_of s1 = spk_state_of s"
    using start_i2s_driver_obj [of E "audio_stream_info s" "(s, eg_clear E COMMAND_START w)"] by simp_all
  show "spk_state_of s' = SPK_RUNNING \<Longrightarrow> spk_state_of s = SPK_RUNNING" "speaker_task_handle s \<Longrightarrow> speaker_task_handle s'"
    using assms d s1 by (auto simp: spk_loop_start_def case_prod_beta spk_bus_obj prod_eq_iff split: if_splits)
qed

lemma spk_programs_untouched:
  assumes law: "spk_law E" and k: "COMMAND_START AND k = 0" "COMMAND_STOP AND k = 0" "COMMAND_STOP_GRACEFULLY AND k = 0"
    "ERR_DROPPED_EVENT AND k = 0"
  shows "untouched E k (spk_loop_start E)" "untouched E k (spk_start E)" "untouched E k (spk_stop_impl E g)"
    "untouched E k (spk_play E d n)" "untouched E k (spk_set_volume E v)" "untouched E k (spk_set_mute_state E m)"
    "untouched E k (i2s_on_sent_cb E)"
proof -
  note L = spk_lawD [OF law]
  note U = untouched_eg [OF L(1)] untouched_silent(1) [OF L(3)] untouched_silent(1) [OF L(4)] untouched_silent(1) [OF L(5)]
    untouched_silent(2) [OF L(6)] untouched_silent(2) [OF L(7)] untouched_silent(1) [OF L(8)] untouched_silent(1) [OF L(10)]
    untouched_silent(2) [OF L(14)] untouched_silent(2) [OF L(15)]
  have dropped: "(ERR_DROPPED_EVENT OR COMMAND_STOP) AND k = 0" using k mask_disjoint(1) [OF k(2)] by simp
  have start: "untouched E k (spk_start E)"
    unfolding spk_start_def by (intro untouched_rules U k)
  have vol: "untouched E k (spk_set_volume E v)" for v
    unfolding spk_set_volume_def by (intro untouched_rules U)
  have driver: "untouched E k (start_i2s_driver E i)" for i
    unfolding start_i2s_driver_def by (intro untouched_rules U on_spk_bus_untouched channel_untouched [OF L(2)])
  show "untouched E k (spk_loop_start E)"
    unfolding spk_loop_start_def by (intro untouched_rules U k driver on_spk_bus_untouched channel_untouched [OF L(2)])
  show "untouched E k (spk_start E)" "untouched E k (spk_set_volume E v)" by (fact start, fact vol)
  show "untouched E k (spk_stop_impl E g)"
    unfolding spk_stop_impl_def by (intro untouched_rules U) (simp add: k)
  show "untouched E k (spk_play E d n)"
    unfolding spk_play_def by (intro untouched_rules U start)
  show "untouched E k (spk_set_mute_state E m)"
    unfolding spk_set_mute_state_def by (intro untouched_rules U vol)
  show "untouched E k (i2s_on_sent_cb E)"
    unfolding i2s_on_sent_cb_def by (intro untouched_rules U dropped)
qed

lemma spk_loop_spec:
  assumes law: "spk_law E" and run: "run_state (spk_loop E) (s, w) = ((), (s', w'))"
  shows "eg_get E w' AND TASK_STOPPED = 0" "eg_get E w' AND TASK_RUNNING = 0"
    "eg_get E w AND TASK_STOPPED = 0 \<Longrightarrow> speaker_task_handle s \<Longrightarrow> speaker_task_handle s'"
    "spk_state_of s' = SPK_RUNNING \<Longrightarrow> eg_get E w AND TASK_STOPPED = 0 \<and>
       (spk_state_of s = SPK_RUNNING \<or> eg_get E w AND TASK_RUNNING \<noteq> 0)"
proof -
  obtain s1 w1 where ev: "run_state (spk_loop_events E (eg_get E w)) (s, w) = ((), (s1, w1))" by (metis prod.collapse unit_eq)
  define go where "go \<longleftrightarrow> eg_get E w AND COMMAND_START \<noteq> 0 \<and> spk_state_of s1 = SPK_STARTING"
  have rest: "run_state (if go then spk_loop_start E else ret ()) (s1, w1) = ((), (s', w'))"
    using run ev by (simp add: spk_loop_def go_def split del: if_split)
  note S = spk_events_spec [OF law ev]
  have O: "spk_state_of s' = SPK_RUNNING \<Longrightarrow> spk_state_of s1 = SPK_RUNNING" "speaker_task_handle s1 \<Longrightarrow> speaker_task_handle s'"
    using rest spk_loop_start_obj [of E s1 w1 s' w'] by (auto split: if_splits)
  have U: "untouched E k (if go then spk_loop_start E else ret ())" if "k \<in> {TASK_STOPPED, TASK_RUNNING}" for k
    using that by (intro untouched_rules spk_programs_untouched(1) [OF law]) (auto simp: spk_bits)
  show "eg_get E w' AND TASK_STOPPED = 0" "eg_get E w' AND TASK_RUNNING = 0"
    using untouchedD [OF U rest] S(1,2) by simp_all
  show "speaker_task_handle s'" if "eg_get E w AND TASK_STOPPED = 0" "speaker_task_handle s" using that S(4) O(2) by simp
  show "eg_get E w AND TASK_STOPPED = 0 \<and> (spk_state_of s = SPK_RUNNING \<or> eg_get E w AND TASK_RUNNING \<noteq> 0)"
    if "spk_state_of s' = SPK_RUNNING"
    using O(1) [OF that] S(3,4) by (cases "eg_get E w AND TASK_STOPPED = 0") auto
qed

lemma spk_client_obj:
  "inert (spk_stop_impl E g)" "inert (i2s_on_sent_cb E)" "inert (speaker_task_start E)" "inert (speaker_task_end E)"
  unfolding spk_stop_impl_def i2s_on_sent_cb_def speaker_task_start_def speaker_task_end_def Let_def
  by (intro inert_rules)+

lemma spk_start_obj:
  "speaker_task_handle (fst (snd (run_state (spk_start E) c))) = speaker_task_handle (fst c)"
  "spk_state_of (fst (snd (run_state (spk_start E) c))) = SPK_RUNNING \<longleftrightarrow> spk_state_of (fst c) = SPK_RUNNING"
  by (cases c; simp add: spk_start_def)+

lemma spk_play_obj:
  "speaker_task_handle (fst (snd (run_state (spk_play E d n) c))) = speaker_task_handle (fst c)"
  "spk_state_of (fst (snd (run_state (spk_play E d n) c))) = SPK_RUNNING \<longleftrightarrow> spk_state_of (fst c) = SPK_RUNNING"
  by (cases c; simp add: spk_play_def case_prod_beta spk_start_obj)+

lemma spk_volume_obj:
  "speaker_task_handle (fst (snd (run_state (spk_set_volume E v) c))) = speaker_task_handle (fst c)"
  "spk_state_of (fst (snd (run_state (spk_set_volume E v) c))) = spk_state_of (fst c)"
  "speaker_task_handle (fst (snd (run_state (spk_set_mute_state E m) c))) = speaker_task_handle (fst c)"
  "spk_state_of (fst (snd (run_state (spk_set_mute_state E m) c))) = spk_state_of (fst c)"
  by (cases c; simp add: spk_set_volume_def spk_set_mute_state_def)+

lemma spk_task_start_untouched:
  assumes law: "spk_law E"
  shows "untouched E TASK_STOPPED (speaker_task_start E)"
proof -
  note L = spk_lawD [OF law]
  show ?thesis
    unfolding speaker_task_start_def Let_def
    by (intro untouched_rules untouched_eg [OF L(1)] untouched_silent(1) [OF L(3)] untouched_silent(1) [OF L(9)]
        untouched_silent(1) [OF L(11)]) (simp_all add: spk_bits)
qed

lemma spk_other_spec:
  assumes law: "spk_law E" and "sys_other (spk_sys E) c c'" and k: "k \<in> {TASK_STOPPED, TASK_RUNNING}"
  shows "speaker_task_handle (fst c') = speaker_task_handle (fst c)"
    "spk_state_of (fst c') = SPK_RUNNING \<Longrightarrow> spk_state_of (fst c) = SPK_RUNNING"
    "eg_get E (snd c') AND k = eg_get E (snd c) AND k"
proof -
  have kk: "COMMAND_START AND k = 0" "COMMAND_STOP AND k = 0" "COMMAND_STOP_GRACEFULLY AND k = 0" "ERR_DROPPED_EVENT AND k = 0"
    using k by (auto simp: spk_bits)
  note U = spk_programs_untouched(2-7) [OF law kk, THEN untouched_run]
  show "speaker_task_handle (fst c') = speaker_task_handle (fst c)"
    "spk_state_of (fst c') = SPK_RUNNING \<Longrightarrow> spk_state_of (fst c) = SPK_RUNNING"
    using assms(2) by (auto simp: spk_sys_def spk_stop_def spk_finish_def spk_set_pause_state_def spk_set_timeout_def
        spk_client_obj [THEN inert_run] spk_start_obj spk_play_obj spk_volume_obj)
  show "eg_get E (snd c') AND k = eg_get E (snd c) AND k"
    using assms(2) by (auto simp: spk_sys_def spk_stop_def spk_finish_def U)
qed

interpretation spk_life: running_task spk_sys spk_law "\<lambda>E c. eg_get E (snd c) AND TASK_RUNNING \<noteq> 0"
    "\<lambda>E c. spk_state_of (fst c) = SPK_RUNNING"
proof
  fix E :: "'w spk_env" and c c' :: "spk \<times> 'w" and go
  assume law: "spk_law E"
  obtain s w where c: "c = (s, w)" by (cases c)
  { assume l: "sys_loop (spk_sys E) c c'"
    obtain s' w' where c': "c' = (s', w')" by (cases c')
    have run: "run_state (spk_loop E) (s, w) = ((), (s', w'))" using l by (intro prod_eqI) (simp_all add: spk_sys_def c c')
    note S = spk_loop_spec [OF law run]
    show "\<not> sys_stopped (spk_sys E) c'" using S(1) by (simp add: spk_sys_def c')
    show "sys_handle (spk_sys E) c'" if "\<not> sys_stopped (spk_sys E) c" "sys_handle (spk_sys E) c"
      using that S(3) by (simp add: spk_sys_def c c')
    show "\<not> eg_get E (snd c') AND TASK_RUNNING \<noteq> 0 \<and> (spk_state_of (fst c') = SPK_RUNNING \<longrightarrow>
        \<not> sys_stopped (spk_sys E) c \<and> (spk_state_of (fst c) = SPK_RUNNING \<or> eg_get E (snd c) AND TASK_RUNNING \<noteq> 0))"
      using S(2,4) by (simp add: spk_sys_def c c') }
  note O = spk_other_spec [OF law, of c c']
  have T: "COMMAND_STOP AND TASK_STOPPED = 0" "COMMAND_STOP_GRACEFULLY AND TASK_STOPPED = 0" by (simp_all add: spk_bits)
  show "sys_handle (spk_sys E) c' = sys_handle (spk_sys E) c \<and> sys_stopped (spk_sys E) c' = sys_stopped (spk_sys E) c"
    if "sys_other (spk_sys E) c c' \<or> sys_begin (spk_sys E) c go c' \<or> sys_turn (spk_sys E) c go c'"
    using that
  proof (elim disjE)
    assume "sys_other (spk_sys E) c c'"
    then show ?thesis using O(1,3) [of TASK_STOPPED] by (simp add: spk_sys_def)
  next
    assume "sys_begin (spk_sys E) c go c'"
    then show ?thesis
      by (simp add: spk_sys_def spk_client_obj(3) [THEN inert_run] spk_task_start_untouched [OF law, THEN untouched_run])
  next
    assume "sys_turn (spk_sys E) c go c'"
    then obtain t r where "speaker_task_step E t c = Some (r, c')" by (auto simp: spk_sys_def)
    from spk_turn_spec [OF law this T] show ?thesis by (simp add: spk_sys_def)
  qed
  show "sys_handle (spk_sys E) c' = sys_handle (spk_sys E) c \<and> sys_stopped (spk_sys E) c'" if "sys_end (spk_sys E) c c'"
    using that rtos_bits(1) [OF spk_lawD(1) [OF law]]
    by (cases c) (simp add: spk_sys_def speaker_task_end_def mask_set, simp add: spk_bits)
  show "(eg_get E (snd c') AND TASK_RUNNING \<noteq> 0) = (eg_get E (snd c) AND TASK_RUNNING \<noteq> 0) \<and>
      (spk_state_of (fst c') = SPK_RUNNING \<longrightarrow> spk_state_of (fst c) = SPK_RUNNING)" if "sys_other (spk_sys E) c c'"
    using O(2,3) [OF that, of TASK_RUNNING] by simp
qed


definition ex_life_env :: "ex_spk_world spk_env" where
  "ex_life_env = ex_spk_env\<lparr>i2s_channel_get_info := (\<lambda>h. Pair (Some I2S_DIR_TX))\<rparr>"

lemma ex_life_law: "spk_law ex_life_env"
  by (auto simp: spk_law_def rtos_law_def driver_quiet_def bus_quiet_def quiet_def silent_def ex_life_env_def ex_spk_env_def split: prod.splits)


end
