(* ===== verification/Resampler_Microphone.thy ===== *)
theory Resampler_Microphone
  imports Audio_Base
begin

text \<open>
  \<open>class ResamplerMicrophone\<close> of \<open>components/resampler/microphone/\<close>: a microphone that resamples another one, the source, in a
  task of its own, or passes its data on when the rates agree.

  The record \<open>rmic\<close> holds the members. The source microphone, the ring buffers, the resampler and the stack allocator are
  operations of \<open>'w rmic_env\<close>. The task is its start (\<open>rmic_task_start\<close>, which says whether the loop is entered), one turn of its loop
  (\<open>rmic_task_step\<close>, an option because the inner loop need not end) and its end (\<open>rmic_task_end\<close>).
\<close>

section \<open>State and environment\<close>

definition RMIC_MAX_LISTENERS :: nat where "RMIC_MAX_LISTENERS = 16"
definition RMIC_TRANSFER_BUFFER_DURATION_MS :: u32 where "RMIC_TRANSFER_BUFFER_DURATION_MS = 16"

definition RMIC_COMMAND_STOP :: u32 where "RMIC_COMMAND_STOP = push_bit 0 1"
definition RMIC_TASK_STARTING :: u32 where "RMIC_TASK_STARTING = push_bit 10 1"
definition RMIC_TASK_RUNNING :: u32 where "RMIC_TASK_RUNNING = push_bit 11 1"
definition RMIC_TASK_STOPPING :: u32 where "RMIC_TASK_STOPPING = push_bit 12 1"
definition RMIC_TASK_STOPPED :: u32 where "RMIC_TASK_STOPPED = push_bit 13 1"
definition RMIC_WARNING_FULL_RING_BUFFER :: u32 where "RMIC_WARNING_FULL_RING_BUFFER = push_bit 17 1"
definition RMIC_ERR_ESP_NO_MEM :: u32 where "RMIC_ERR_ESP_NO_MEM = push_bit 19 1"
definition RMIC_ERR_ESP_NOT_SUPPORTED :: u32 where "RMIC_ERR_ESP_NOT_SUPPORTED = push_bit 20 1"
definition RMIC_ERR_ESP_FAIL :: u32 where "RMIC_ERR_ESP_FAIL = push_bit 21 1"

record rmic =
  rmic_state :: mic_state
  rmic_failed :: bool
  rmic_error :: bool
  rmic_stream_info :: stream_info
  rmic_target_sample_rate :: u32
  rmic_buffer_duration_ms :: u32
  rmic_taps :: u16
  rmic_filters :: u16
  rmic_task_stack_in_psram :: bool
  rmic_event_group :: bool
  rmic_semaphore :: bool
  rmic_task_handle :: bool
  rmic_task_stack_buffer :: bool

text \<open>\<open>source_stream_info\<close> is the source's stream. \<open>in_rb_alive\<close> says whether somebody besides the callback holds the input ring
  buffer. \<open>out_rb_read\<close> gets the number of bytes wanted and gives those read.\<close>

record 'w rmic_env = "'w rtos_env" +
  source_stream_info :: "'w \<Rightarrow> stream_info"
  source_start :: "'w \<Rightarrow> 'w"
  source_stop :: "'w \<Rightarrow> 'w"
  source_add_data_callback :: "'w \<Rightarrow> 'w"
  stack_allocate :: "bool \<Rightarrow> 'w \<Rightarrow> bool \<times> 'w"
  stack_deallocate :: "bool \<Rightarrow> 'w \<Rightarrow> 'w"
  rmic_ms_to_bytes :: "stream_info \<Rightarrow> u32 \<Rightarrow> nat"
  in_rb_create :: "nat \<Rightarrow> 'w \<Rightarrow> bool \<times> 'w"
  in_rb_alive :: "'w \<Rightarrow> bool"
  in_rb_free :: "'w \<Rightarrow> nat"
  in_rb_reset :: "'w \<Rightarrow> 'w"
  in_rb_write :: "u8 list \<Rightarrow> 'w \<Rightarrow> 'w"
  out_rb_create :: "nat \<Rightarrow> 'w \<Rightarrow> bool \<times> 'w"
  out_rb_available :: "'w \<Rightarrow> nat"
  out_rb_read :: "nat \<Rightarrow> 'w \<Rightarrow> u8 list \<times> 'w"
  resampler_create :: "nat \<Rightarrow> nat \<Rightarrow> 'w \<Rightarrow> 'w"
  resampler_start :: "stream_info \<Rightarrow> stream_info \<Rightarrow> u16 \<Rightarrow> u16 \<Rightarrow> 'w \<Rightarrow> esp_err \<times> 'w"
  resampler_add_source :: "'w \<Rightarrow> 'w"
  resampler_add_sink :: "'w \<Rightarrow> 'w"
  resampler_resample :: "'w \<Rightarrow> AudioResamplerState \<times> 'w"
  resampler_reset :: "'w \<Rightarrow> 'w"
  rmic_has_data_callbacks :: "'w \<Rightarrow> bool"
  rmic_data_callback :: "u8 list \<Rightarrow> 'w \<Rightarrow> 'w"

definition rmic_set_task_stack_in_psram :: "bool \<Rightarrow> rmic \<Rightarrow> rmic" where
  "rmic_set_task_stack_in_psram x s = s\<lparr>rmic_task_stack_in_psram := x\<rparr>"

definition rmic_set_target_sample_rate :: "u32 \<Rightarrow> rmic \<Rightarrow> rmic" where
  "rmic_set_target_sample_rate x s = s\<lparr>rmic_target_sample_rate := x\<rparr>"

definition rmic_set_filters :: "u16 \<Rightarrow> rmic \<Rightarrow> rmic" where
  "rmic_set_filters x s = s\<lparr>rmic_filters := x\<rparr>"

definition rmic_set_taps :: "u16 \<Rightarrow> rmic \<Rightarrow> rmic" where
  "rmic_set_taps x s = s\<lparr>rmic_taps := x\<rparr>"

definition rmic_set_buffer_duration :: "u32 \<Rightarrow> rmic \<Rightarrow> rmic" where
  "rmic_set_buffer_duration x s = s\<lparr>rmic_buffer_duration_ms := x\<rparr>"

type_synonym ('w, 'a) rmic_prog = "(rmic \<times> 'w, 'a) state"

section \<open>Main loop\<close>

definition rmic_requires_resampling :: "'w rmic_env \<Rightarrow> rmic \<Rightarrow> 'w \<Rightarrow> bool" where
  "rmic_requires_resampling E s w \<longleftrightarrow> si_rate (source_stream_info E w) \<noteq> rmic_target_sample_rate s"

definition rmic_requires :: "'w rmic_env \<Rightarrow> ('w, bool) rmic_prog" where
  "rmic_requires E = do { s \<leftarrow> obj_get id; obs (rmic_requires_resampling E s) }"

definition rmic_configure_stream_settings :: "'w rmic_env \<Rightarrow> ('w, unit) rmic_prog" where
  "rmic_configure_stream_settings E = do {
     req \<leftarrow> rmic_requires E;
     info \<leftarrow> obs (source_stream_info E);
     obj_mod (\<lambda>s. s\<lparr>rmic_stream_info :=
       (if req then \<lparr>si_bits = 32, si_channels = si_channels info, si_rate = rmic_target_sample_rate s\<rparr> else info)\<rparr>)
   }"

text \<open>The callback registered at the source.\<close>

definition rmic_on_data :: "'w rmic_env \<Rightarrow> u8 list \<Rightarrow> ('w, unit) rmic_prog" where
  "rmic_on_data E data = do {
     st \<leftarrow> obj_get rmic_state;
     if st = MIC_STOPPED then ret ()
     else do {
       req \<leftarrow> rmic_requires E;
       if req then do {
         alive \<leftarrow> obs (in_rb_alive E);
         if alive then do {
           bytes_free \<leftarrow> obs (in_rb_free E);
           (if bytes_free < length data then do {
              ext0 (eg_set E RMIC_WARNING_FULL_RING_BUFFER);
              ext0 (in_rb_reset E)
            } else ret ());
           ext0 (in_rb_write E data)
         } else ret ()
       } else do {
         listening \<leftarrow> obs (rmic_has_data_callbacks E);
         if listening then ext0 (rmic_data_callback E data) else ret ()
       }
     }
   }"

definition rmic_setup :: "'w rmic_env \<Rightarrow> ('w, unit) rmic_prog" where
  "rmic_setup E = do {
     eg \<leftarrow> ext (eg_create E);
     obj_mod (\<lambda>s. s\<lparr>rmic_event_group := eg\<rparr>);
     if \<not> eg then obj_mod (\<lambda>s. s\<lparr>rmic_failed := True\<rparr>)
     else do {
       sem \<leftarrow> ext (sem_create E RMIC_MAX_LISTENERS RMIC_MAX_LISTENERS);
       obj_mod (\<lambda>s. s\<lparr>rmic_semaphore := sem\<rparr>);
       if \<not> sem then obj_mod (\<lambda>s. s\<lparr>rmic_failed := True\<rparr>)
       else do {
         ext0 (source_add_data_callback E);
         rmic_configure_stream_settings E
       }
     }
   }"

definition rmic_start :: "'w rmic_env \<Rightarrow> ('w, unit) rmic_prog" where
  "rmic_start E = do {
     failed \<leftarrow> obj_get rmic_failed;
     if failed then ret () else ext0 (sem_take E)
   }"

definition rmic_stop :: "'w rmic_env \<Rightarrow> ('w, unit) rmic_prog" where
  "rmic_stop E = do {
     skip \<leftarrow> obj_get (\<lambda>s. rmic_state s = MIC_STOPPED \<or> rmic_failed s);
     if skip then ret () else ext0 (sem_give E)
   }"

definition rmic_deallocate_task_stack :: "'w rmic_env \<Rightarrow> ('w, unit) rmic_prog" where
  "rmic_deallocate_task_stack E = do {
     s \<leftarrow> obj_get id;
     if rmic_task_stack_buffer s then do {
       ext0 (stack_deallocate E (rmic_task_stack_in_psram s));
       obj_mod (\<lambda>s. s\<lparr>rmic_task_stack_buffer := False\<rparr>)
     } else ret ()
   }"

definition rmic_start_task :: "'w rmic_env \<Rightarrow> ('w, esp_err) rmic_prog" where
  "rmic_start_task E = do {
     s \<leftarrow> obj_get id;
     (if \<not> rmic_task_stack_buffer s then do {
        got \<leftarrow> ext (stack_allocate E (rmic_task_stack_in_psram s));
        obj_mod (\<lambda>s. s\<lparr>rmic_task_stack_buffer := got\<rparr>)
      } else ret ());
     stack \<leftarrow> obj_get rmic_task_stack_buffer;
     if \<not> stack then ret ESP_ERR_NO_MEM
     else do {
       task \<leftarrow> obj_get rmic_task_handle;
       (if \<not> task then do {
          created \<leftarrow> ext (rtos_task_create E);
          obj_mod (\<lambda>s. s\<lparr>rmic_task_handle := created\<rparr>)
        } else ret ());
       task \<leftarrow> obj_get rmic_task_handle;
       if \<not> task then do { rmic_deallocate_task_stack E; ret ESP_ERR_INVALID_STATE }
       else ret ESP_OK
     }
   }"

definition rmic_loop_events :: "'w rmic_env \<Rightarrow> ('w, unit) rmic_prog" where
  "rmic_loop_events E = do {
     event_group_bits \<leftarrow> obs (eg_get E);
     (if event_group_bits AND RMIC_TASK_STARTING \<noteq> 0 then ext0 (eg_clear E RMIC_TASK_STARTING) else ret ());
     (if event_group_bits AND RMIC_TASK_RUNNING \<noteq> 0 then do {
        ext0 (eg_clear E RMIC_TASK_RUNNING);
        obj_mod (\<lambda>s. s\<lparr>rmic_state := MIC_RUNNING\<rparr>)
      } else ret ());
     (if event_group_bits AND RMIC_TASK_STOPPING \<noteq> 0 then ext0 (eg_clear E RMIC_TASK_STOPPING) else ret ());
     (if event_group_bits AND RMIC_TASK_STOPPED \<noteq> 0 then do {
        ext0 (rtos_task_delete E);
        obj_mod (\<lambda>s. s\<lparr>rmic_task_handle := False\<rparr>);
        rmic_deallocate_task_stack E;
        ext0 (eg_clear E ALL_BITS);
        obj_mod (\<lambda>s. s\<lparr>rmic_error := False, rmic_state := MIC_STOPPED\<rparr>)
      } else ret ());
     (if event_group_bits AND RMIC_WARNING_FULL_RING_BUFFER \<noteq> 0
      then ext0 (eg_clear E RMIC_WARNING_FULL_RING_BUFFER) else ret ())
   }"

definition rmic_loop_listeners :: "'w rmic_env \<Rightarrow> ('w, unit) rmic_prog" where
  "rmic_loop_listeners E = do {
     count \<leftarrow> obs (sem_count E);
     obj_mod (\<lambda>s. if count < RMIC_MAX_LISTENERS \<and> rmic_state s = MIC_STOPPED then s\<lparr>rmic_state := MIC_STARTING\<rparr> else s);
     count \<leftarrow> obs (sem_count E);
     obj_mod (\<lambda>s. if count = RMIC_MAX_LISTENERS \<and> rmic_state s = MIC_RUNNING then s\<lparr>rmic_state := MIC_STOPPING\<rparr> else s)
   }"

definition rmic_loop_starting :: "'w rmic_env \<Rightarrow> ('w, unit) rmic_prog" where
  "rmic_loop_starting E = do {
     err \<leftarrow> obj_get rmic_error;
     if err then ret ()
     else do {
       rmic_configure_stream_settings E;
       req \<leftarrow> rmic_requires E;
       if req then do {
         task \<leftarrow> obj_get rmic_task_handle;
         if task then ret ()
         else do {
           err \<leftarrow> rmic_start_task E;
           if err \<noteq> ESP_OK then do {
             obj_mod (\<lambda>s. s\<lparr>rmic_error := True\<rparr>);
             ext0 (set_clear_timeout E 1000)
           } else ext0 (source_start E)
         }
       } else do {
         ext0 (source_start E);
         obj_mod (\<lambda>s. s\<lparr>rmic_state := MIC_RUNNING\<rparr>)
       }
     }
   }"

definition rmic_loop_stopping :: "'w rmic_env \<Rightarrow> ('w, unit) rmic_prog" where
  "rmic_loop_stopping E = do {
     ext0 (source_stop E);
     req \<leftarrow> rmic_requires E;
     if req then ext0 (eg_set E RMIC_COMMAND_STOP)
     else obj_mod (\<lambda>s. s\<lparr>rmic_state := MIC_STOPPED\<rparr>)
   }"

definition rmic_loop :: "'w rmic_env \<Rightarrow> ('w, unit) rmic_prog" where
  "rmic_loop E = do {
     rmic_loop_events E;
     rmic_loop_listeners E;
     st \<leftarrow> obj_get rmic_state;
     case st of
       MIC_STARTING \<Rightarrow> rmic_loop_starting E
     | MIC_RUNNING \<Rightarrow> ret ()
     | MIC_STOPPING \<Rightarrow> rmic_loop_stopping E
     | MIC_STOPPED \<Rightarrow> ret ()
   }"

section \<open>The task\<close>

definition rmic_task_start :: "'w rmic_env \<Rightarrow> ('w, esp_err) rmic_prog" where
  "rmic_task_start E = do {
     ext0 (eg_set E RMIC_TASK_STARTING);
     source_info \<leftarrow> obs (source_stream_info E);
     s \<leftarrow> obj_get id;
     ext0 (resampler_create E (rmic_ms_to_bytes E source_info RMIC_TRANSFER_BUFFER_DURATION_MS)
       (rmic_ms_to_bytes E (rmic_stream_info s) RMIC_TRANSFER_BUFFER_DURATION_MS));
     err1 \<leftarrow> ext (resampler_start E source_info (rmic_stream_info s) (rmic_taps s) (rmic_filters s));
     err \<leftarrow> (if err1 \<noteq> ESP_OK then ret err1
       else do {
         rb \<leftarrow> ext (in_rb_create E (rmic_ms_to_bytes E source_info (rmic_buffer_duration_ms s)));
         if \<not> rb then ret ESP_ERR_NO_MEM
         else do {
           ext0 (resampler_add_source E);
           out \<leftarrow> ext (out_rb_create E (rmic_ms_to_bytes E (rmic_stream_info s) (rmic_buffer_duration_ms s)));
           if \<not> out then ret ESP_ERR_NO_MEM
           else do { ext0 (resampler_add_sink E); ret ESP_OK }
         }
       });
     (if err = ESP_OK then ext0 (eg_set E RMIC_TASK_RUNNING)
      else if err = ESP_ERR_NO_MEM then ext0 (eg_set E RMIC_ERR_ESP_NO_MEM)
      else if err = ESP_ERR_NOT_SUPPORTED then ext0 (eg_set E RMIC_ERR_ESP_NOT_SUPPORTED)
      else ret ());
     ret err
   }"

text \<open>Handing the resampled data to the listeners, a chunk at a time.\<close>

partial_function (option) deliver_loop :: "'w rmic_env \<Rightarrow> nat \<Rightarrow> nat \<Rightarrow> 'w \<Rightarrow> 'w option" where
  "deliver_loop E output_chunk_size available w =
     (if \<not> available > 0 then Some w
      else let r = out_rb_read E (min available output_chunk_size) w
           in if length (fst r) > 0 then
                let w1 = rmic_data_callback E (fst r) (snd r)
                in deliver_loop E output_chunk_size (out_rb_available E w1) w1
              else Some (snd r))"

text \<open>One turn: whether the loop goes on.\<close>

definition rmic_task_step :: "'w rmic_env \<Rightarrow> nat \<Rightarrow> rmic \<times> 'w \<Rightarrow> (bool \<times> (rmic \<times> 'w)) option" where
  "rmic_task_step E output_chunk_size sw =
     (case sw of (s, w) \<Rightarrow>
        if eg_get E w AND RMIC_COMMAND_STOP \<noteq> 0 then Some (False, (s, w))
        else let r = resampler_resample E w
             in do {
               w1 \<leftarrow> deliver_loop E output_chunk_size (out_rb_available E (snd r)) (snd r);
               (case fst r of
                  RESAMPLER_FINISHED \<Rightarrow> Some (False, (s, w1))
                | RESAMPLER_FAILED \<Rightarrow> Some (False, (s, eg_set E RMIC_ERR_ESP_FAIL w1))
                | RESAMPLING \<Rightarrow> Some (True, (s, w1)))
             })"

definition rmic_task_end :: "'w rmic_env \<Rightarrow> ('w, unit) rmic_prog" where
  "rmic_task_end E = do {
     ext0 (eg_set E RMIC_TASK_STOPPING);
     ext0 (resampler_reset E);
     ext0 (eg_set E RMIC_TASK_STOPPED)
   }"

end
