(* ===== verification/Resampler_Microphone_Correct.thy ===== *)
theory Resampler_Microphone_Correct
  imports Resampler_Microphone Microphone_Interface
begin

text \<open>
  Properties of the resampling microphone: everything the resampler produced reaches the listeners, in order and in chunks of
  bounded size; the input ring buffer always takes the newest data; the microphone stops when its last listener leaves; and
  a task that failed is restarted silently.

  Named hypotheses: \<open>rtos_law\<close>, \<open>out_ring\<close> and \<open>in_ring\<close> (the ring buffers are first in, first out), \<open>source_law\<close> (which calls
  enable and disable the source).
\<close>

section \<open>Delivery\<close>

text \<open>\<open>oq\<close> is the contents of the output ring buffer and \<open>got\<close> the data handed to the listeners.\<close>

definition out_ring :: "'w rmic_env \<Rightarrow> ('w \<Rightarrow> u8 list) \<Rightarrow> ('w \<Rightarrow> u8 list list) \<Rightarrow> bool" where
  "out_ring E oq got \<longleftrightarrow>
     (\<forall>w. out_rb_available E w = length (oq w)) \<and>
     (\<forall>n w. fst (out_rb_read E n w) = take n (oq w) \<and> oq (snd (out_rb_read E n w)) = drop n (oq w) \<and>
        got (snd (out_rb_read E n w)) = got w) \<and>
     (\<forall>d w. oq (rmic_data_callback E d w) = oq w \<and> got (rmic_data_callback E d w) = got w @ [d])"

lemma deliver_loop_all:
  assumes law: "out_ring E oq got" and c: "0 < c"
  shows "\<exists>w' chunks. deliver_loop E c (out_rb_available E w) w = Some w' \<and> oq w' = [] \<and> got w' = got w @ chunks \<and>
    concat chunks = oq w \<and> (\<forall>ch \<in> set chunks. ch \<noteq> [] \<and> length ch \<le> c)"
proof (induction "length (oq w)" arbitrary: w rule: less_induct)
  case less
  have av: "out_rb_available E w = length (oq w)" for w using law by (simp add: out_ring_def)
  show ?case
  proof (cases "oq w = []")
    case True
    then show ?thesis by (subst deliver_loop.simps) (simp add: av)
  next
    case False
    let ?n = "min (length (oq w)) c"
    let ?r = "out_rb_read E ?n w"
    let ?ch = "take ?n (oq w)"
    let ?w1 = "rmic_data_callback E ?ch (snd ?r)"
    have r: "fst ?r = ?ch" "oq ?w1 = drop ?n (oq w)" "got ?w1 = got w @ [?ch]"
      using law by (simp_all add: out_ring_def)
    have n: "0 < ?n" "?ch \<noteq> []" "length ?ch \<le> c" using False c by simp_all
    obtain w' chunks where IH: "deliver_loop E c (out_rb_available E ?w1) ?w1 = Some w'" "oq w' = []"
        "got w' = got ?w1 @ chunks" "concat chunks = oq ?w1" "\<forall>ch \<in> set chunks. ch \<noteq> [] \<and> length ch \<le> c"
      using less [of ?w1] n(1) False unfolding r(2) by auto
    have "deliver_loop E c (out_rb_available E w) w = Some w'"
      using IH(1) n(2) False r(1) by (subst deliver_loop.simps) (simp add: av Let_def)
    moreover have "got w' = got w @ (?ch # chunks)" using IH(3) r(3) by simp
    moreover have "concat (?ch # chunks) = oq w" using IH(4) r(2) by simp
    ultimately show ?thesis using IH(2,5) n(2,3) by (intro exI [of _ w'] exI [of _ "?ch # chunks"]) auto
  qed
qed

text \<open>The listeners get everything the resampler produced. A turn of the task that was not ordered to stop returns, and after it
  the output ring buffer is empty: its contents have gone to the listeners, in order, in non-empty pieces of at most
  the chunk size, and whether the task goes on depends on the resampler alone.\<close>

theorem rmic_task_delivers_all:
  assumes "out_ring E oq got" and "0 < c" and "eg_get E w AND RMIC_COMMAND_STOP = 0"
    and "\<And>b w. oq (eg_set E b w) = oq w \<and> got (eg_set E b w) = got w" and "resampler_resample E w = (r, w1)"
  shows "\<exists>w' chunks. rmic_task_step E c (s, w) = Some (r = RESAMPLING, (s, w')) \<and> oq w' = [] \<and> got w' = got w1 @ chunks \<and>
    concat chunks = oq w1 \<and> (\<forall>ch \<in> set chunks. ch \<noteq> [] \<and> length ch \<le> c)"
proof -
  obtain w2 chunks where d: "deliver_loop E c (out_rb_available E w1) w1 = Some w2" "oq w2 = []" "got w2 = got w1 @ chunks"
      "concat chunks = oq w1" "\<forall>ch \<in> set chunks. ch \<noteq> [] \<and> length ch \<le> c"
    using deliver_loop_all [OF assms(1,2), of w1] by blast
  let ?w' = "if r = RESAMPLER_FAILED then eg_set E RMIC_ERR_ESP_FAIL w2 else w2"
  have "rmic_task_step E c (s, w) = Some (r = RESAMPLING, (s, ?w'))"
    using assms(3,5) d(1) by (cases r) (simp_all add: rmic_task_step_def)
  moreover have "oq ?w' = []" "got ?w' = got w1 @ chunks" using d(2,3) assms(4) by simp_all
  ultimately show ?thesis using d(4,5) by blast
qed

section \<open>The input ring buffer\<close>

definition in_ring :: "'w rmic_env \<Rightarrow> ('w \<Rightarrow> u8 list) \<Rightarrow> nat \<Rightarrow> bool" where
  "in_ring E iq cap \<longleftrightarrow>
     (\<forall>w. in_rb_free E w = cap - length (iq w)) \<and> (\<forall>w. iq (in_rb_reset E w) = []) \<and>
     (\<forall>d w. length (iq w) + length d \<le> cap \<longrightarrow> iq (in_rb_write E d w) = iq w @ d) \<and>
     (\<forall>b w. iq (eg_set E b w) = iq w)"

text \<open>New data from the source always gets in. With resampling and a live ring buffer, a block that fits is appended; one that does
  not fit replaces everything that was waiting, and the warning is raised; the buffer never holds more than its size.\<close>

theorem rmic_ring_takes_newest:
  assumes law: "in_ring E iq cap" and "rmic_state s \<noteq> MIC_STOPPED" "rmic_requires_resampling E s w" "in_rb_alive E w"
    and len: "length (iq w) \<le> cap" "length data \<le> cap"
    and run: "run_state (rmic_on_data E data) (s, w) = ((), (s', w'))"
  shows "s' = s \<and> iq w' = (if length (iq w) + length data \<le> cap then iq w @ data else data) \<and> length (iq w') \<le> cap"
proof -
  let ?full = "in_rb_free E w < length data"
  have free: "?full \<longleftrightarrow> \<not> length (iq w) + length data \<le> cap"
    using law len(1) by (auto simp: in_ring_def)
  have res: "s' = s \<and> w' = in_rb_write E data (if ?full then in_rb_reset E (eg_set E RMIC_WARNING_FULL_RING_BUFFER w) else w)"
    using run assms(2-4) by (auto simp: rmic_on_data_def rmic_requires_def split: if_splits)
  show ?thesis
    using res free law len by (auto simp: in_ring_def)
qed

section \<open>Starting and stopping\<close>

text \<open>\<open>on\<close> says whether the source is enabled: \<open>MicrophoneSource::start\<close> and \<open>stop\<close> set it, nothing else changes it, and neither these calls
  nor the stack allocator touch the event group, the semaphore or the source's stream.\<close>

definition source_law :: "'w rmic_env \<Rightarrow> ('w \<Rightarrow> bool) \<Rightarrow> bool" where
  "source_law E on \<longleftrightarrow>
     (\<forall>w. on (source_start E w) \<and> \<not> on (source_stop E w)) \<and>
     (\<forall>f \<in> {source_start E, source_stop E, resampler_reset E, stack_deallocate E True, stack_deallocate E False,
         (\<lambda>w. snd (stack_allocate E True w)), (\<lambda>w. snd (stack_allocate E False w))}. quiet E f) \<and>
     (\<forall>f \<in> {stack_deallocate E True, stack_deallocate E False, resampler_reset E, rtos_task_delete E} \<union>
         range (eg_set E) \<union> range (eg_clear E). \<forall>w. on (f w) \<longleftrightarrow> on w) \<and>
     (\<forall>f \<in> {stack_deallocate E True, stack_deallocate E False, source_stop E, resampler_reset E, rtos_task_delete E} \<union>
         range (eg_set E) \<union> range (eg_clear E). \<forall>w. source_stream_info E (f w) = source_stream_info E w)"

lemma source_simps:
  assumes "source_law E on"
  shows "on (source_start E w)" "\<not> on (source_stop E w)" "on (eg_set E b w) \<longleftrightarrow> on w" "on (eg_clear E b w) \<longleftrightarrow> on w"
    "on (rtos_task_delete E w) \<longleftrightarrow> on w" "on (stack_deallocate E p w) \<longleftrightarrow> on w" "on (resampler_reset E w) \<longleftrightarrow> on w"
    "source_stream_info E (eg_set E b w) = source_stream_info E w" "source_stream_info E (eg_clear E b w) = source_stream_info E w"
    "source_stream_info E (rtos_task_delete E w) = source_stream_info E w"
    "source_stream_info E (stack_deallocate E p w) = source_stream_info E w"
    "source_stream_info E (source_stop E w) = source_stream_info E w"
    "eg_get E (source_start E w) = eg_get E w" "eg_get E (source_stop E w) = eg_get E w"
    "sem_count E (source_stop E w) = sem_count E w" "eg_get E (resampler_reset E w) = eg_get E w"
    "sem_count E (resampler_reset E w) = sem_count E w"
    "eg_get E (stack_deallocate E p w) = eg_get E w" "sem_count E (stack_deallocate E p w) = sem_count E w"
    "eg_get E (snd (stack_allocate E p w)) = eg_get E w"
  using assms by (cases p; simp add: source_law_def quiet_def)+

lemmas rmic_bits = RMIC_COMMAND_STOP_def RMIC_TASK_STARTING_def RMIC_TASK_RUNNING_def RMIC_TASK_STOPPING_def
  RMIC_TASK_STOPPED_def RMIC_WARNING_FULL_RING_BUFFER_def RMIC_ERR_ESP_NO_MEM_def RMIC_ERR_ESP_NOT_SUPPORTED_def
  RMIC_ERR_ESP_FAIL_def ALL_BITS_def

text \<open>The bits a task leaves behind: it stopped on command, or with an error.\<close>

abbreviation task_reasons :: "u32 set" where
  "task_reasons \<equiv> {RMIC_COMMAND_STOP, RMIC_ERR_ESP_NO_MEM, RMIC_ERR_ESP_NOT_SUPPORTED, RMIC_ERR_ESP_FAIL}"

lemma ended_task_bits:
  assumes "r \<in> task_reasons" and "b = r OR RMIC_TASK_STOPPING OR RMIC_TASK_STOPPED"
  shows "b AND RMIC_TASK_STARTING = 0" "b AND RMIC_TASK_RUNNING = 0" "b AND RMIC_TASK_STOPPING \<noteq> 0" "b AND RMIC_TASK_STOPPED \<noteq> 0"
    "b AND RMIC_WARNING_FULL_RING_BUFFER = 0" "(b AND NOT RMIC_TASK_STOPPING) AND NOT ALL_BITS = 0"
  using assms by (auto simp: rmic_bits)

text \<open>The part of the loop that finds the task stopped.\<close>

lemma rmic_events_stopped:
  assumes law: "rtos_law E n" "source_law E on"
    and b: "eg_get E w = r OR RMIC_TASK_STOPPING OR RMIC_TASK_STOPPED" and r: "r \<in> task_reasons"
  shows "\<exists>w1. run_state (rmic_loop_events E) (s, w) =
      ((), (s\<lparr>rmic_task_handle := False, rmic_task_stack_buffer := False, rmic_error := False, rmic_state := MIC_STOPPED\<rparr>, w1)) \<and>
    eg_get E w1 = 0 \<and> sem_count E w1 = sem_count E w \<and> source_stream_info E w1 = source_stream_info E w \<and> (on w1 \<longleftrightarrow> on w)"
proof -
  note R = rtos_bits [OF law(1)] source_simps [OF law(2)] and F = ended_task_bits [OF r b]
  let ?w0 = "rtos_task_delete E (eg_clear E RMIC_TASK_STOPPING w)"
  let ?w1 = "eg_clear E ALL_BITS (if rmic_task_stack_buffer s then stack_deallocate E (rmic_task_stack_in_psram s) ?w0 else ?w0)"
  have "run_state (rmic_loop_events E) (s, w) =
      ((), (s\<lparr>rmic_task_handle := False, rmic_task_stack_buffer := False, rmic_error := False, rmic_state := MIC_STOPPED\<rparr>, ?w1))"
    using F by (simp add: rmic_loop_events_def rmic_deallocate_task_stack_def)
  moreover have "eg_get E ?w1 = 0" using F(6) by (simp add: R)
  ultimately show ?thesis by (intro exI [of _ ?w1]) (simp add: R)
qed

text \<open>A resampling task that failed is restarted without a word. The loop turn that finds the task stopped with an error bit set
  clears the bit unread, and in the same turn, while a listener remains, creates a new task; no error is kept.\<close>

theorem rmic_failed_task_restarts:
  assumes law: "rtos_law E n" "source_law E on"
    and "eg_get E w = err OR RMIC_TASK_STOPPING OR RMIC_TASK_STOPPED"
    and err: "err \<in> {RMIC_ERR_ESP_NO_MEM, RMIC_ERR_ESP_NOT_SUPPORTED, RMIC_ERR_ESP_FAIL}"
    and cnt: "sem_count E w < RMIC_MAX_LISTENERS" and req: "rmic_requires_resampling E s w"
    and got: "\<And>w. fst (rtos_task_create E w)" "\<And>p w. fst (stack_allocate E p w)"
  shows "\<exists>s' w'. run_state (rmic_loop E) (s, w) = ((), (s', w')) \<and> rmic_state s' = MIC_STARTING \<and> rmic_task_handle s' \<and>
    \<not> rmic_error s' \<and> eg_get E w' = 0 \<and> on w'"
proof -
  note R = rtos_bits [OF law(1)] source_simps [OF law(2)]
  have "err \<in> task_reasons" using err by blast
  then obtain w1 where ev: "run_state (rmic_loop_events E) (s, w) =
      ((), (s\<lparr>rmic_task_handle := False, rmic_task_stack_buffer := False, rmic_error := False, rmic_state := MIC_STOPPED\<rparr>, w1))"
      and w1: "eg_get E w1 = 0" "sem_count E w1 = sem_count E w" "source_stream_info E w1 = source_stream_info E w"
    using rmic_events_stopped [OF law assms(3)] by blast
  show ?thesis
    using cnt req got w1
    by (simp add: rmic_loop_def ev rmic_loop_listeners_def rmic_loop_starting_def rmic_configure_stream_settings_def
        rmic_requires_def rmic_requires_resampling_def rmic_start_task_def R case_prod_beta)
qed


section \<open>The listener contract\<close>

interpretation resampler_mic: listened_microphone rmic_start rmic_stop "\<lambda>E. rtos_law E RMIC_MAX_LISTENERS" sem_count RMIC_MAX_LISTENERS
    "\<lambda>s. rmic_state s = MIC_STOPPED" rmic_failed
  by unfold_locales (auto simp: rmic_start_def rmic_stop_def rtos_bits)

section \<open>An example\<close>

text \<open>The world: event bits, semaphore count, input and output buffers, the delivered pieces, and whether the source is enabled. The source runs at
  48 kHz; the resampler moves its input to its output and reports a fixed state.\<close>

type_synonym ex_rmic_world = "(u32 \<times> nat) \<times> u8 list \<times> u8 list \<times> u8 list list \<times> bool"

definition ex_rmic_env :: "AudioResamplerState \<Rightarrow> ex_rmic_world rmic_env" where
  "ex_rmic_env r =
     \<lparr>eg_create = Pair True, eg_get = (\<lambda>w. fst (fst w)), eg_set = (\<lambda>b ((e, c), x). ((e OR b, c), x)),
      eg_clear = (\<lambda>b ((e, c), x). ((e AND NOT b, c), x)), sem_create = (\<lambda>n k. Pair True), sem_count = (\<lambda>w. snd (fst w)),
      sem_take = (\<lambda>((e, c), x). ((e, c - 1), x)), sem_give = (\<lambda>((e, c), x). ((e, min RMIC_MAX_LISTENERS (c + 1)), x)),
      rtos_task_create = Pair True, rtos_task_delete = id, rtos_delay = (\<lambda>n. id), set_clear_timeout = (\<lambda>n. id),
      source_stream_info = (\<lambda>w. \<lparr>si_bits = 32, si_channels = 2, si_rate = 48000\<rparr>),
      source_start = (\<lambda>(e, i, q, g, k). (e, i, q, g, True)), source_stop = (\<lambda>(e, i, q, g, k). (e, i, q, g, False)),
      source_add_data_callback = id, stack_allocate = (\<lambda>p. Pair True), stack_deallocate = (\<lambda>p. id),
      rmic_ms_to_bytes = (\<lambda>i n. 64 * unat n), in_rb_create = (\<lambda>n. Pair True), in_rb_alive = (\<lambda>w. True),
      in_rb_free = (\<lambda>(e, i, x). 8 - length i), in_rb_reset = (\<lambda>(e, i, x). (e, [], x)),
      in_rb_write = (\<lambda>d (e, i, x). (e, take 8 (i @ d), x)), out_rb_create = (\<lambda>n. Pair True),
      out_rb_available = (\<lambda>(e, i, q, x). length q), out_rb_read = (\<lambda>n (e, i, q, x). (take n q, (e, i, drop n q, x))),
      resampler_create = (\<lambda>n k. id), resampler_start = (\<lambda>i j t f. Pair ESP_OK), resampler_add_source = id,
      resampler_add_sink = id,
      resampler_resample = (\<lambda>(e, i, q, x). (r, (e, [], q @ i, x))),
      resampler_reset = id, rmic_has_data_callbacks = (\<lambda>w. True),
      rmic_data_callback = (\<lambda>d (e, i, q, g, k). (e, i, q, g @ [d], k))\<rparr>"

definition ex_rmic :: rmic where
  "ex_rmic = \<lparr>rmic_state = MIC_RUNNING, rmic_failed = False, rmic_error = False,
     rmic_stream_info = \<lparr>si_bits = 32, si_channels = 2, si_rate = 16000\<rparr>, rmic_target_sample_rate = 16000,
     rmic_buffer_duration_ms = 120, rmic_taps = 16, rmic_filters = 16, rmic_task_stack_in_psram = False,
     rmic_event_group = True, rmic_semaphore = True, rmic_task_handle = True, rmic_task_stack_buffer = True\<rparr>"

lemma ex_rmic_laws:
  "rtos_law (ex_rmic_env r) RMIC_MAX_LISTENERS" "source_law (ex_rmic_env r) (\<lambda>(e, i, q, g, k). k)"
  "out_ring (ex_rmic_env r) (\<lambda>(e, i, q, g, k). q) (\<lambda>(e, i, q, g, k). g)" "in_ring (ex_rmic_env r) (\<lambda>(e, i, q, g, k). i) 8"
  by (auto simp: rtos_law_def quiet_def source_law_def out_ring_def in_ring_def ex_rmic_env_def)

lemma ex_rmic_resampling: "rmic_requires_resampling (ex_rmic_env r) (ex_rmic\<lparr>rmic_state := st\<rparr>) w"
  "rmic_requires_resampling (ex_rmic_env r) ex_rmic w"
  by (simp_all add: rmic_requires_resampling_def ex_rmic_env_def ex_rmic_def)

theorem rmic_task_delivers_all_witness:
  "\<exists>w' chunks. rmic_task_step (ex_rmic_env RESAMPLER_FAILED) 2 (ex_rmic, ((0, 15), [1, 2, 3], [], [], True)) =
     Some (False, (ex_rmic, w')) \<and> fst (snd (snd (snd w'))) = chunks \<and> concat chunks = [1, 2, 3]"
proof -
  have res: "resampler_resample (ex_rmic_env RESAMPLER_FAILED) ((0, 15), [1, 2, 3], [], [], True) =
      (RESAMPLER_FAILED, ((0, 15), [], [1, 2, 3], [], True))"
    by (simp add: ex_rmic_env_def)
  have "eg_get (ex_rmic_env RESAMPLER_FAILED) ((0, 15), [1, 2, 3], [], [], True) AND RMIC_COMMAND_STOP = 0"
    by (simp add: ex_rmic_env_def)
  from rmic_task_delivers_all [OF ex_rmic_laws(3) _ this _ res, of 2 ex_rmic]
  show ?thesis by (fastforce simp: ex_rmic_env_def)
qed

theorem rmic_ring_takes_newest_witness:
  "run_state (rmic_on_data (ex_rmic_env RESAMPLING) [5, 6, 7]) (ex_rmic, ((0, 15), [1, 2, 3, 4, 5, 6], [], [], True)) =
     ((), (ex_rmic, ((RMIC_WARNING_FULL_RING_BUFFER, 15), [5, 6, 7], [], [], True))) \<and> length [5, 6, 7 :: u8] \<le> 8"
proof -
  let ?w = "((0, 15), [1, 2, 3, 4, 5, 6], [], [], True) :: ex_rmic_world"
    and ?w' = "((RMIC_WARNING_FULL_RING_BUFFER, 15), [5, 6, 7], [], [], True) :: ex_rmic_world"
  have run: "run_state (rmic_on_data (ex_rmic_env RESAMPLING) [5, 6, 7]) (ex_rmic, ?w) = ((), (ex_rmic, ?w'))"
    by (simp add: rmic_on_data_def rmic_requires_def rmic_requires_resampling_def ex_rmic_env_def ex_rmic_def)
  have st: "rmic_state ex_rmic \<noteq> MIC_STOPPED" "in_rb_alive (ex_rmic_env RESAMPLING) ?w" by (simp_all add: ex_rmic_def ex_rmic_env_def)
  show ?thesis
    using rmic_ring_takes_newest [OF ex_rmic_laws(4) st(1) ex_rmic_resampling(2) st(2) _ _ run] run by simp
qed

theorem rmic_failed_task_restarts_witness:
  "\<exists>s' w'. run_state (rmic_loop (ex_rmic_env RESAMPLER_FAILED))
       (ex_rmic, ((RMIC_ERR_ESP_FAIL OR RMIC_TASK_STOPPING OR RMIC_TASK_STOPPED, 15), [], [], [], True)) = ((), (s', w')) \<and>
     rmic_state s' = MIC_STARTING \<and> rmic_task_handle s' \<and> fst (fst w') = 0"
  using rmic_failed_task_restarts [OF ex_rmic_laws(1,2) [of RESAMPLER_FAILED],
      of "((RMIC_ERR_ESP_FAIL OR RMIC_TASK_STOPPING OR RMIC_TASK_STOPPED, 15), [], [], [], True)" RMIC_ERR_ESP_FAIL ex_rmic]
    ex_rmic_resampling(2)
  by (fastforce simp: ex_rmic_env_def RMIC_MAX_LISTENERS_def)


end
