(* ===== verification/Resampler_Microphone_Life.thy ===== *)
theory Resampler_Microphone_Life
  imports Task_Lifecycle Resampler_Microphone_Correct
begin

text \<open>
  The resampling microphone as an instance of \<open>task_owner\<close>. (It is no \<open>running_task\<close>: where no resampling is needed it runs
  without a task.)

  Named hypothesis: \<open>rmic_law\<close>.
\<close>

text \<open>The source, the buffers, the resampler, the allocator and the listeners leave the event group alone.\<close>

definition rmic_law :: "'w rmic_env \<Rightarrow> bool" where
  "rmic_law E \<longleftrightarrow> rtos_law E RMIC_MAX_LISTENERS \<and>
     silent E (source_start E) \<and> silent E (source_stop E) \<and>
     (\<forall>b. silent E (\<lambda>w. snd (stack_allocate E b w))) \<and> (\<forall>b. silent E (stack_deallocate E b)) \<and>
     (\<forall>n. silent E (\<lambda>w. snd (in_rb_create E n w))) \<and> silent E (in_rb_reset E) \<and> (\<forall>d. silent E (in_rb_write E d)) \<and>
     (\<forall>n. silent E (\<lambda>w. snd (out_rb_create E n w))) \<and> (\<forall>n. silent E (\<lambda>w. snd (out_rb_read E n w))) \<and>
     (\<forall>a b. silent E (resampler_create E a b)) \<and> (\<forall>i j t f. silent E (\<lambda>w. snd (resampler_start E i j t f w))) \<and>
     silent E (resampler_add_source E) \<and> silent E (resampler_add_sink E) \<and>
     silent E (\<lambda>w. snd (resampler_resample E w)) \<and> silent E (resampler_reset E) \<and> (\<forall>d. silent E (rmic_data_callback E d))"

lemma rmic_lawD:
  assumes "rmic_law E"
  shows "rtos_law E RMIC_MAX_LISTENERS" "untouched E k (ext0 (source_start E))" "untouched E k (ext0 (source_stop E))"
    "untouched E k (ext (stack_allocate E b))" "untouched E k (ext0 (stack_deallocate E b))"
    "untouched E k (ext (in_rb_create E n))" "untouched E k (ext0 (in_rb_reset E))" "untouched E k (ext0 (in_rb_write E d))"
    "untouched E k (ext (out_rb_create E n))" "untouched E k (ext0 (resampler_create E n m))"
    "untouched E k (ext (resampler_start E i j t f))" "untouched E k (ext0 (resampler_add_source E))"
    "untouched E k (ext0 (resampler_add_sink E))" "untouched E k (ext0 (resampler_reset E))"
    "untouched E k (ext0 (rmic_data_callback E d))"
    "eg_get E (snd (out_rb_read E n w)) = eg_get E w" "eg_get E (rmic_data_callback E d w) = eg_get E w"
    "eg_get E (snd (resampler_resample E w)) = eg_get E w"
  using assms by (auto intro!: untouched_silent simp: rmic_law_def) (auto simp: silent_def)

definition rmic_sys :: "'w rmic_env \<Rightarrow> (rmic \<times> 'w) task_sys" where
  "rmic_sys E =
     \<lparr>sys_loop = (\<lambda>c c'. c' = snd (run_state (rmic_loop E) c)),
      sys_other = (\<lambda>c c'. c' = snd (run_state (rmic_start E) c) \<or> c' = snd (run_state (rmic_stop E) c) \<or>
        (\<exists>d. c' = snd (run_state (rmic_on_data E d) c)) \<or>
        c' = ((fst c)\<lparr>rmic_error := False\<rparr>, snd c) \<or> (\<exists>w'. c' = (fst c, w') \<and> eg_get E w' = eg_get E (snd c))),
      sys_begin = (\<lambda>c go c'. go = (fst (run_state (rmic_task_start E) c) = ESP_OK) \<and> c' = snd (run_state (rmic_task_start E) c)),
      sys_turn = (\<lambda>c go c'. \<exists>n. rmic_task_step E n c = Some (go, c')),
      sys_end = (\<lambda>c c'. c' = snd (run_state (rmic_task_end E) c)),
      sys_handle = (\<lambda>c. rmic_task_handle (fst c)),
      sys_stopped = (\<lambda>c. eg_get E (snd c) AND RMIC_TASK_STOPPED \<noteq> 0)\<rparr>"

lemmas rmic_bits = RMIC_COMMAND_STOP_def RMIC_TASK_STARTING_def RMIC_TASK_RUNNING_def RMIC_TASK_STOPPING_def RMIC_TASK_STOPPED_def
  RMIC_WARNING_FULL_RING_BUFFER_def RMIC_ERR_ESP_NO_MEM_def RMIC_ERR_ESP_NOT_SUPPORTED_def RMIC_ERR_ESP_FAIL_def ALL_BITS_def

section \<open>The loop\<close>

text \<open>The part of the loop that looks at the announcements: what it does to the bit of the task's end and to the handle.\<close>

lemma rmic_dealloc_untouched:
  assumes "rmic_law E"
  shows "untouched E k (rmic_deallocate_task_stack E)"
  unfolding rmic_deallocate_task_stack_def by (intro untouched_rules rmic_lawD(5) [OF assms])

lemma rmic_dealloc_handle:
  "rmic_task_handle (fst (snd (run_state (rmic_deallocate_task_stack E) c))) = rmic_task_handle (fst c)"
  by (cases c) (simp add: rmic_deallocate_task_stack_def)

lemma rmic_events_run:
  fixes E :: "'w rmic_env"
  defines "w0 \<equiv> \<lambda>b w. let x = (if b AND RMIC_TASK_STARTING \<noteq> 0 then eg_clear E RMIC_TASK_STARTING w else w);
        y = (if b AND RMIC_TASK_RUNNING \<noteq> 0 then eg_clear E RMIC_TASK_RUNNING x else x)
      in if b AND RMIC_TASK_STOPPING \<noteq> 0 then eg_clear E RMIC_TASK_STOPPING y else y"
  defines "s0 \<equiv> \<lambda>b s. if b AND RMIC_TASK_RUNNING \<noteq> 0 then s\<lparr>rmic_state := MIC_RUNNING\<rparr> else s"
  defines "m \<equiv> \<lambda>b w. if b AND RMIC_WARNING_FULL_RING_BUFFER \<noteq> 0 then eg_clear E RMIC_WARNING_FULL_RING_BUFFER w else w"
  defines "b \<equiv> \<lambda>w. eg_get E w"
  shows "run_state (rmic_loop_events E) (s, w) = ((),
    if b w AND RMIC_TASK_STOPPED = 0 then (s0 (b w) s, m (b w) (w0 (b w) w))
    else let d = run_state (rmic_deallocate_task_stack E)
          ((s0 (b w) s)\<lparr>rmic_task_handle := False\<rparr>, rtos_task_delete E (w0 (b w) w))
      in ((fst (snd d))\<lparr>rmic_error := False, rmic_state := MIC_STOPPED\<rparr>, m (b w) (eg_clear E ALL_BITS (snd (snd d)))))"
  unfolding assms rmic_loop_events_def
  by (cases "eg_get E w AND RMIC_TASK_STARTING = 0"; cases "eg_get E w AND RMIC_TASK_RUNNING = 0";
      cases "eg_get E w AND RMIC_TASK_STOPPING = 0"; cases "eg_get E w AND RMIC_TASK_STOPPED = 0")
    (simp_all add: Let_def case_prod_beta)

lemma rmic_events_spec:
  assumes law: "rmic_law E" and run: "run_state (rmic_loop_events E) (s, w) = ((), (s1, w1))"
  shows "eg_get E w1 AND RMIC_TASK_STOPPED = 0"
    "eg_get E w AND RMIC_TASK_STOPPED = 0 \<Longrightarrow> rmic_task_handle s1 = rmic_task_handle s"
proof -
  note rb = rtos_bits [OF rmic_lawD(1) [OF law]]
  have k: "RMIC_TASK_STARTING AND RMIC_TASK_STOPPED = 0" "RMIC_TASK_RUNNING AND RMIC_TASK_STOPPED = 0"
    "RMIC_TASK_STOPPING AND RMIC_TASK_STOPPED = 0" "RMIC_WARNING_FULL_RING_BUFFER AND RMIC_TASK_STOPPED = 0"
    "RMIC_TASK_STOPPED AND NOT ALL_BITS = 0"
    by (simp_all add: rmic_bits)
  show "eg_get E w1 AND RMIC_TASK_STOPPED = 0"
    using run k by (auto simp: rmic_events_run Let_def rb mask_cleared mask_disjoint split: if_splits)
  show "rmic_task_handle s1 = rmic_task_handle s" if "eg_get E w AND RMIC_TASK_STOPPED = 0"
    using run that by (auto simp: rmic_events_run Let_def split: if_splits)
qed

definition rmic_loop_rest :: "'w rmic_env \<Rightarrow> ('w, unit) rmic_prog" where
  "rmic_loop_rest E = do {
     rmic_loop_listeners E;
     st \<leftarrow> obj_get rmic_state;
     case st of
       MIC_STARTING \<Rightarrow> rmic_loop_starting E
     | MIC_RUNNING \<Rightarrow> ret ()
     | MIC_STOPPING \<Rightarrow> rmic_loop_stopping E
     | MIC_STOPPED \<Rightarrow> ret ()
   }"

lemma rmic_rest_untouched:
  assumes "rmic_law E" "RMIC_COMMAND_STOP AND k = 0"
  shows "untouched E k (rmic_loop_rest E)"
proof -
  note L = rmic_lawD(2-5) [OF assms(1)] untouched_eg [OF rmic_lawD(1) [OF assms(1)]]
  have "untouched E k (rmic_start_task E)"
    unfolding rmic_start_task_def by (intro untouched_rules L rmic_dealloc_untouched [OF assms(1)])
  then have "untouched E k (rmic_loop_starting E)"
    unfolding rmic_loop_starting_def rmic_configure_stream_settings_def rmic_requires_def by (intro untouched_rules L)
  moreover have "untouched E k (rmic_loop_stopping E)"
    unfolding rmic_loop_stopping_def rmic_requires_def by (intro untouched_rules L assms(2))
  ultimately show ?thesis
    unfolding rmic_loop_rest_def rmic_loop_listeners_def
    by (intro untouched_rules) (simp split: mic_state.split add: untouched_rules)
qed

lemma rmic_rest_handle:
  assumes "rmic_task_handle (fst c)"
  shows "rmic_task_handle (fst (snd (run_state (rmic_loop_rest E) c)))"
proof -
  have "rmic_task_handle (fst (snd (run_state (rmic_loop_starting E) c')))" if "rmic_task_handle (fst c')" for c'
    using that
    by (cases c') (simp add: rmic_loop_starting_def rmic_configure_stream_settings_def rmic_requires_def)
  moreover have "rmic_task_handle (fst (snd (run_state (rmic_loop_stopping E) c')))" if "rmic_task_handle (fst c')" for c'
    using that by (cases c') (simp add: rmic_loop_stopping_def rmic_requires_def)
  ultimately show ?thesis
    using assms by (cases c) (simp add: rmic_loop_rest_def rmic_loop_listeners_def split: mic_state.split)
qed

lemma rmic_loop_spec:
  assumes law: "rmic_law E"
  shows "eg_get E (snd (snd (run_state (rmic_loop E) c))) AND RMIC_TASK_STOPPED = 0"
    "eg_get E (snd c) AND RMIC_TASK_STOPPED = 0 \<Longrightarrow> rmic_task_handle (fst c) \<Longrightarrow> rmic_task_handle (fst (snd (run_state (rmic_loop E) c)))"
proof -
  obtain s1 w1 where ev: "run_state (rmic_loop_events E) (fst c, snd c) = ((), (s1, w1))" by (metis prod.collapse unit_eq)
  have "rmic_loop E = do { rmic_loop_events E; rmic_loop_rest E }" by (simp add: rmic_loop_def rmic_loop_rest_def)
  then have run: "run_state (rmic_loop E) c = run_state (rmic_loop_rest E) (s1, w1)" using ev by simp
  have k: "RMIC_COMMAND_STOP AND RMIC_TASK_STOPPED = 0" by (simp add: rmic_bits)
  note S = rmic_events_spec [OF law ev]
  show "eg_get E (snd (snd (run_state (rmic_loop E) c))) AND RMIC_TASK_STOPPED = 0"
    using S(1) untouched_run [OF rmic_rest_untouched [OF law k], of "(s1, w1)"] by (simp add: run)
  show "rmic_task_handle (fst (snd (run_state (rmic_loop E) c)))"
    if "eg_get E (snd c) AND RMIC_TASK_STOPPED = 0" "rmic_task_handle (fst c)"
    using that S(2) rmic_rest_handle [of "(s1, w1)"] by (simp add: run)
qed

section \<open>The task and the others\<close>

lemma deliver_silent:
  assumes "rmic_law E" "deliver_loop E n a w = Some w'"
  shows "eg_get E w' = eg_get E w"
proof -
  have "rmic_law E \<longrightarrow> eg_get E w' = eg_get E w"
    using assms(2)
    by (rule deliver_loop.raw_induct [where P = "\<lambda>E n a w y. rmic_law E \<longrightarrow> eg_get E y = eg_get E w", rotated])
      (auto simp: Let_def rmic_lawD(16,17) split: if_splits)
  then show ?thesis using assms(1) by simp
qed

lemma rmic_turn_spec:
  assumes law: "rmic_law E" and run: "rmic_task_step E n c = Some (go, c')"
  shows "fst c' = fst c" "eg_get E (snd c') AND RMIC_TASK_STOPPED = eg_get E (snd c) AND RMIC_TASK_STOPPED"
proof -
  have k: "RMIC_ERR_ESP_FAIL AND RMIC_TASK_STOPPED = 0" by (simp add: rmic_bits)
  show "fst c' = fst c"
    using run by (auto simp: rmic_task_step_def Let_def split: if_splits bind_splits prod.splits AudioResamplerState.splits)
  show "eg_get E (snd c') AND RMIC_TASK_STOPPED = eg_get E (snd c) AND RMIC_TASK_STOPPED"
    using run deliver_silent [OF law] rmic_lawD(18) [OF law] rtos_bits(1) [OF rmic_lawD(1) [OF law]] mask_disjoint(1) [OF k]
    by (fastforce simp: rmic_task_step_def Let_def split: if_splits bind_splits prod.splits AudioResamplerState.splits)
qed

lemma rmic_programs_untouched:
  assumes law: "rmic_law E"
  shows "untouched E RMIC_TASK_STOPPED (rmic_task_start E)" "untouched E RMIC_TASK_STOPPED (rmic_on_data E d)"
    "untouched E k (rmic_start E)" "untouched E k (rmic_stop E)"
proof -
  note L = rmic_lawD(2-15) [OF law] untouched_eg [OF rmic_lawD(1) [OF law]]
  show "untouched E RMIC_TASK_STOPPED (rmic_task_start E)"
    unfolding rmic_task_start_def by (intro untouched_rules L) (simp_all add: rmic_bits)
  show "untouched E RMIC_TASK_STOPPED (rmic_on_data E d)"
    unfolding rmic_on_data_def rmic_requires_def by (intro untouched_rules L) (simp_all add: rmic_bits)
  show "untouched E k (rmic_start E)" "untouched E k (rmic_stop E)"
    unfolding rmic_start_def rmic_stop_def by (intro untouched_rules L)+
qed

lemma rmic_programs_obj:
  "inert (rmic_on_data E d)" "inert (rmic_start E)" "inert (rmic_stop E)" "inert (rmic_task_start E)" "inert (rmic_task_end E)"
  unfolding rmic_on_data_def rmic_start_def rmic_stop_def rmic_task_start_def rmic_task_end_def rmic_requires_def
  by (intro inert_rules)+

interpretation rmic_life: task_owner rmic_sys rmic_law
proof
  fix E :: "'w rmic_env" and c c' :: "rmic \<times> 'w" and go
  assume law: "rmic_law E"
  show "\<not> sys_stopped (rmic_sys E) c'" if "sys_loop (rmic_sys E) c c'"
    using that rmic_loop_spec(1) [OF law] by (simp add: rmic_sys_def)
  show "sys_handle (rmic_sys E) c'" if "sys_loop (rmic_sys E) c c'" "\<not> sys_stopped (rmic_sys E) c" "sys_handle (rmic_sys E) c"
    using that rmic_loop_spec(2) [OF law] by (simp add: rmic_sys_def)
  show "sys_handle (rmic_sys E) c' = sys_handle (rmic_sys E) c \<and> sys_stopped (rmic_sys E) c' = sys_stopped (rmic_sys E) c"
    if "sys_other (rmic_sys E) c c' \<or> sys_begin (rmic_sys E) c go c' \<or> sys_turn (rmic_sys E) c go c'"
    using that
  proof (elim disjE)
    assume "sys_turn (rmic_sys E) c go c'"
    then obtain n where "rmic_task_step E n c = Some (go, c')" by (auto simp: rmic_sys_def)
    from rmic_turn_spec [OF law this] show ?thesis by (simp add: rmic_sys_def)
  qed (auto simp: rmic_sys_def rmic_programs_obj [THEN inert_run] rmic_programs_untouched [OF law, THEN untouched_run])
  show "sys_handle (rmic_sys E) c' = sys_handle (rmic_sys E) c \<and> sys_stopped (rmic_sys E) c'" if "sys_end (rmic_sys E) c c'"
    using that rtos_bits(1) [OF rmic_lawD(1) [OF law]]
    by (cases c) (simp add: rmic_sys_def rmic_task_end_def mask_set, simp add: rmic_bits)
qed


lemma ex_rmic_law: "rmic_law (ex_rmic_env r)"
  using ex_rmic_laws(1) by (auto simp: rmic_law_def silent_def ex_rmic_env_def)


end
