(* ===== verification/Resampler_Speaker.thy ===== *)
theory Resampler_Speaker
  imports Complex_Main Audio_Base
begin

text \<open>
  \<open>class ResamplerSpeaker\<close> of \<open>components/resampler/speaker/\<close>: a speaker that plays through another one, the output
  speaker, at that one's sample rate, resampling in a task of its own where the streams differ.

  The record \<open>rspk\<close> holds the members. The output speaker, \<open>StaticTask\<close>, the ring buffer, the resampler and the application's
  scheduling of \<open>loop\<close> are operations of \<open>'w rspk_env\<close>; volumes are rational numbers. The main loop is split as its text is: the
  commands, the event bits, the state. The task is its start (which gives the error code its loop is entered on),
  one turn of its loop, and its end. \<open>on_audio_output\<close> is the callback registered at the output speaker; \<open>None\<close> is a division
  by zero.
\<close>

section \<open>State and environment\<close>

definition RSPK_TRANSFER_BUFFER_DURATION_MS :: u32 where "RSPK_TRANSFER_BUFFER_DURATION_MS = 50"
definition STATE_TRANSITION_TIMEOUT_MS :: u32 where "STATE_TRANSITION_TIMEOUT_MS = 5000"

definition RSPK_COMMAND_STOP :: u32 where "RSPK_COMMAND_STOP = push_bit 0 1"
definition RSPK_COMMAND_START :: u32 where "RSPK_COMMAND_START = push_bit 1 1"
definition RSPK_COMMAND_FINISH :: u32 where "RSPK_COMMAND_FINISH = push_bit 2 1"
definition RSPK_TASK_COMMAND_STOP :: u32 where "RSPK_TASK_COMMAND_STOP = push_bit 5 1"
definition RSPK_STATE_STARTING :: u32 where "RSPK_STATE_STARTING = push_bit 10 1"
definition RSPK_STATE_RUNNING :: u32 where "RSPK_STATE_RUNNING = push_bit 11 1"
definition RSPK_STATE_STOPPING :: u32 where "RSPK_STATE_STOPPING = push_bit 12 1"
definition RSPK_STATE_STOPPED :: u32 where "RSPK_STATE_STOPPED = push_bit 13 1"
definition RSPK_ERR_ESP_NO_MEM :: u32 where "RSPK_ERR_ESP_NO_MEM = push_bit 19 1"
definition RSPK_ERR_ESP_NOT_SUPPORTED :: u32 where "RSPK_ERR_ESP_NOT_SUPPORTED = push_bit 20 1"
definition RSPK_ERR_ESP_FAIL :: u32 where "RSPK_ERR_ESP_FAIL = push_bit 21 1"

datatype rspk_error = NO_ERROR | NOT_ENOUGH_MEMORY | UNSUPPORTED_STREAM | RESAMPLER_FAILURE | FAILED_TO_START

record rspk =
  rspk_state :: spk_state
  rspk_failed :: bool
  rspk_error :: rspk_error
  rspk_event_group :: bool
  audio_stream_info :: stream_info
  target_stream_info :: stream_info
  callback_remainder :: u64
  rspk_buffer_duration_ms :: u32
  state_start_ms :: u32
  target_sample_rate :: u32
  rspk_taps :: u16
  rspk_filters :: u16
  target_bits_per_sample :: u8
  passthrough_bits_per_sample :: bool
  rspk_task_stack_in_psram :: bool
  waiting_for_output :: bool
  rspk_mute_state :: bool
  rspk_volume :: rat

text \<open>\<open>loop_start_time\<close> is \<open>App.get_loop_component_start_time\<close>. The operations \<open>task_create\<close>, \<open>task_deallocate\<close> and \<open>task_is_created\<close> are those of
  \<open>StaticTask\<close>. \<open>rb_alive\<close> says whether the task holds the ring buffer.\<close>

record 'w rspk_env = "'w rtos_env" +
  loop_start_time :: "'w \<Rightarrow> u32"
  disable_loop :: "'w \<Rightarrow> 'w"
  enable_loop_soon_any_context :: "'w \<Rightarrow> 'w"
  wake_loop_threadsafe :: "'w \<Rightarrow> 'w"
  task_create :: "bool \<Rightarrow> 'w \<Rightarrow> bool \<times> 'w"
  task_deallocate :: "'w \<Rightarrow> 'w"
  task_is_created :: "'w \<Rightarrow> bool"
  out_add_audio_output_callback :: "'w \<Rightarrow> 'w"
  out_set_audio_stream_info :: "stream_info \<Rightarrow> 'w \<Rightarrow> 'w"
  out_start :: "'w \<Rightarrow> 'w"
  out_stop :: "'w \<Rightarrow> 'w"
  out_finish :: "'w \<Rightarrow> 'w"
  out_play :: "u8 list \<Rightarrow> nat \<Rightarrow> 'w \<Rightarrow> nat \<times> 'w"
  out_is_running :: "'w \<Rightarrow> bool"
  out_is_stopped :: "'w \<Rightarrow> bool"
  out_get_pause_state :: "'w \<Rightarrow> bool"
  out_has_buffered_data :: "'w \<Rightarrow> bool"
  out_set_mute_state :: "bool \<Rightarrow> 'w \<Rightarrow> 'w"
  out_set_volume :: "rat \<Rightarrow> 'w \<Rightarrow> 'w"
  out_set_pause_state :: "bool \<Rightarrow> 'w \<Rightarrow> 'w"
  out_get_mute_state :: "'w \<Rightarrow> bool"
  out_get_volume :: "'w \<Rightarrow> rat"
  rspk_ms_to_bytes :: "stream_info \<Rightarrow> u32 \<Rightarrow> nat"
  rb_create :: "nat \<Rightarrow> 'w \<Rightarrow> bool \<times> 'w"
  rb_alive :: "'w \<Rightarrow> bool"
  rb_available :: "'w \<Rightarrow> nat"
  rb_write_without_replacement :: "u8 list \<Rightarrow> nat \<Rightarrow> 'w \<Rightarrow> nat \<times> 'w"
  rs_create :: "nat \<Rightarrow> nat \<Rightarrow> 'w \<Rightarrow> 'w"
  rs_start :: "stream_info \<Rightarrow> stream_info \<Rightarrow> u16 \<Rightarrow> u16 \<Rightarrow> 'w \<Rightarrow> esp_err \<times> 'w"
  rs_add_source :: "'w \<Rightarrow> 'w"
  rs_add_sink :: "'w \<Rightarrow> 'w"
  rs_resample :: "'w \<Rightarrow> AudioResamplerState \<times> 'w"
  rs_destroy :: "'w \<Rightarrow> 'w"
  audio_output_callback :: "u32 \<Rightarrow> u64 \<Rightarrow> 'w \<Rightarrow> 'w"

definition rspk_set_task_stack_in_psram :: "bool \<Rightarrow> rspk \<Rightarrow> rspk" where
  "rspk_set_task_stack_in_psram x s = s\<lparr>rspk_task_stack_in_psram := x\<rparr>"

definition rspk_set_target_bits_per_sample :: "u8 \<Rightarrow> rspk \<Rightarrow> rspk" where
  "rspk_set_target_bits_per_sample x s = s\<lparr>target_bits_per_sample := x\<rparr>"

definition rspk_set_target_sample_rate :: "u32 \<Rightarrow> rspk \<Rightarrow> rspk" where
  "rspk_set_target_sample_rate x s = s\<lparr>target_sample_rate := x\<rparr>"

definition rspk_set_passthrough_bits_per_sample :: "bool \<Rightarrow> rspk \<Rightarrow> rspk" where
  "rspk_set_passthrough_bits_per_sample x s = s\<lparr>passthrough_bits_per_sample := x\<rparr>"

definition rspk_set_filters :: "u16 \<Rightarrow> rspk \<Rightarrow> rspk" where
  "rspk_set_filters x s = s\<lparr>rspk_filters := x\<rparr>"

definition rspk_set_taps :: "u16 \<Rightarrow> rspk \<Rightarrow> rspk" where
  "rspk_set_taps x s = s\<lparr>rspk_taps := x\<rparr>"

definition rspk_set_buffer_duration :: "u32 \<Rightarrow> rspk \<Rightarrow> rspk" where
  "rspk_set_buffer_duration x s = s\<lparr>rspk_buffer_duration_ms := x\<rparr>"

type_synonym ('w, 'a) rspk_prog = "(rspk \<times> 'w, 'a) state"

section \<open>Setup and commands\<close>

text \<open>The product of the two 32-bit numbers wraps before it is widened.\<close>

definition on_audio_output :: "'w rspk_env \<Rightarrow> u32 \<Rightarrow> u64 \<Rightarrow> rspk \<times> 'w \<Rightarrow> (rspk \<times> 'w) option" where
  "on_audio_output E new_frames write_timestamp sw =
     (case sw of (s, w) \<Rightarrow>
        if si_rate (audio_stream_info s) \<noteq> si_rate (target_stream_info s) then
          let numerator = ucast (new_frames * si_rate (audio_stream_info s)) + callback_remainder s;
              denominator = ucast (si_rate (target_stream_info s)) :: u64
          in if denominator = 0 then None
             else Some (s\<lparr>callback_remainder := numerator mod denominator\<rparr>,
               audio_output_callback E (ucast (numerator div denominator)) write_timestamp w)
        else Some (s, audio_output_callback E new_frames write_timestamp w))"

definition rspk_setup :: "'w rspk_env \<Rightarrow> ('w, unit) rspk_prog" where
  "rspk_setup E = do {
     eg \<leftarrow> ext (eg_create E);
     obj_mod (\<lambda>s. s\<lparr>rspk_event_group := eg\<rparr>);
     if \<not> eg then obj_mod (\<lambda>s. s\<lparr>rspk_failed := True\<rparr>)
     else do {
       ext0 (out_add_audio_output_callback E);
       ext0 (disable_loop E)
     }
   }"

definition send_command :: "'w rspk_env \<Rightarrow> u32 \<Rightarrow> bool \<Rightarrow> ('w, unit) rspk_prog" where
  "send_command E command_bit wake_loop = do {
     ext0 (enable_loop_soon_any_context E);
     event_bits \<leftarrow> obs (eg_get E);
     if event_bits AND command_bit = 0 then do {
       ext0 (eg_set E command_bit);
       (if wake_loop then ext0 (wake_loop_threadsafe E) else ret ())
     } else ret ()
   }"

definition rspk_start :: "'w rspk_env \<Rightarrow> ('w, unit) rspk_prog" where
  "rspk_start E = send_command E RSPK_COMMAND_START True"

definition rspk_stop :: "'w rspk_env \<Rightarrow> ('w, unit) rspk_prog" where
  "rspk_stop E = send_command E RSPK_COMMAND_STOP False"

definition rspk_finish :: "'w rspk_env \<Rightarrow> ('w, unit) rspk_prog" where
  "rspk_finish E = send_command E RSPK_COMMAND_FINISH False"

definition requires_resampling :: "rspk \<Rightarrow> bool" where
  "requires_resampling s \<longleftrightarrow>
     (if si_rate (audio_stream_info s) \<noteq> target_sample_rate s then True
      else \<not> passthrough_bits_per_sample s \<and> si_bits (audio_stream_info s) \<noteq> target_bits_per_sample s)"

definition start_impl :: "'w rspk_env \<Rightarrow> ('w, esp_err) rspk_prog" where
  "start_impl E = do {
     obj_mod (\<lambda>s. s\<lparr>target_stream_info :=
       \<lparr>si_bits = (if passthrough_bits_per_sample s then si_bits (audio_stream_info s) else target_bits_per_sample s),
        si_channels = si_channels (audio_stream_info s), si_rate = target_sample_rate s\<rparr>\<rparr>);
     s \<leftarrow> obj_get id;
     ext0 (out_set_audio_stream_info E (target_stream_info s));
     ext0 (out_start E);
     if requires_resampling s then do {
       created \<leftarrow> ext (task_create E (rspk_task_stack_in_psram s));
       if \<not> created then ret ESP_ERR_NO_MEM else ret ESP_OK
     } else ret ESP_OK
   }"

definition enter_stopping_state :: "'w rspk_env \<Rightarrow> ('w, unit) rspk_prog" where
  "enter_stopping_state E = do {
     now \<leftarrow> obs (loop_start_time E);
     obj_mod (\<lambda>s. s\<lparr>rspk_state := SPK_STOPPING, state_start_ms := now\<rparr>);
     created \<leftarrow> obs (task_is_created E);
     (if created then ext0 (eg_set E RSPK_TASK_COMMAND_STOP) else ret ());
     ext0 (out_stop E)
   }"

definition set_start_error :: "esp_err \<Rightarrow> ('w, unit) rspk_prog" where
  "set_start_error err =
     obj_mod (\<lambda>s. s\<lparr>rspk_error := (if err = ESP_ERR_NO_MEM then NOT_ENOUGH_MEMORY else FAILED_TO_START)\<rparr>)"

definition rspk_play :: "'w rspk_env \<Rightarrow> u8 list \<Rightarrow> nat \<Rightarrow> ('w, nat) rspk_prog" where
  "rspk_play E data ticks_to_wait = do {
     stopped \<leftarrow> obj_get (\<lambda>s. rspk_state s = SPK_STOPPED);
     (if stopped then rspk_start E else ret ());
     running \<leftarrow> obs (out_is_running E);
     req \<leftarrow> obj_get requires_resampling;
     if running \<and> \<not> req then ext (out_play E data ticks_to_wait)
     else do {
       alive \<leftarrow> obs (rb_alive E);
       if alive then ext (rb_write_without_replacement E data ticks_to_wait)
       else do { ext0 (rtos_delay E ticks_to_wait); ret 0 }
     }
   }"

definition rspk_has_buffered_data :: "'w rspk_env \<Rightarrow> ('w, bool) rspk_prog" where
  "rspk_has_buffered_data E = do {
     req \<leftarrow> obj_get requires_resampling;
     alive \<leftarrow> obs (rb_alive E);
     avail \<leftarrow> obs (rb_available E);
     out \<leftarrow> obs (out_has_buffered_data E);
     ret ((req \<and> alive \<and> avail > 0) \<or> out)
   }"

definition rspk_set_mute_state :: "'w rspk_env \<Rightarrow> bool \<Rightarrow> ('w, unit) rspk_prog" where
  "rspk_set_mute_state E mute_state = do {
     obj_mod (\<lambda>s. s\<lparr>rspk_mute_state := mute_state\<rparr>);
     ext0 (out_set_mute_state E mute_state)
   }"

definition rspk_set_volume :: "'w rspk_env \<Rightarrow> rat \<Rightarrow> ('w, unit) rspk_prog" where
  "rspk_set_volume E volume = do {
     obj_mod (\<lambda>s. s\<lparr>rspk_volume := volume\<rparr>);
     ext0 (out_set_volume E volume)
   }"

definition rspk_set_pause_state :: "'w rspk_env \<Rightarrow> bool \<Rightarrow> ('w, unit) rspk_prog" where
  "rspk_set_pause_state E paused = ext0 (out_set_pause_state E paused)"

definition rspk_get_pause_state :: "'w rspk_env \<Rightarrow> ('w, bool) rspk_prog" where
  "rspk_get_pause_state E = obs (out_get_pause_state E)"

definition rspk_get_mute_state :: "'w rspk_env \<Rightarrow> ('w, bool) rspk_prog" where
  "rspk_get_mute_state E = obs (out_get_mute_state E)"

definition rspk_get_volume :: "'w rspk_env \<Rightarrow> ('w, rat) rspk_prog" where
  "rspk_get_volume E = obs (out_get_volume E)"

definition rspk_play_now :: "'w rspk_env \<Rightarrow> u8 list \<Rightarrow> ('w, nat) rspk_prog" where
  "rspk_play_now E data = rspk_play E data 0"

section \<open>Main loop\<close>

definition rspk_loop_commands :: "'w rspk_env \<Rightarrow> ('w, unit) rspk_prog" where
  "rspk_loop_commands E = do {
     event_group_bits \<leftarrow> obs (eg_get E);
     st \<leftarrow> obj_get rspk_state;
     if event_group_bits AND RSPK_COMMAND_STOP \<noteq> 0 then
       (if st = SPK_RUNNING \<or> st = SPK_STARTING then do {
          ext0 (eg_clear E (RSPK_COMMAND_STOP OR RSPK_COMMAND_START OR RSPK_COMMAND_FINISH));
          obj_mod (\<lambda>s. s\<lparr>waiting_for_output := False\<rparr>);
          enter_stopping_state E
        } else if st = SPK_STOPPED then ext0 (eg_clear E (RSPK_COMMAND_STOP OR RSPK_COMMAND_START OR RSPK_COMMAND_FINISH))
        else ret ())
     else if event_group_bits AND RSPK_COMMAND_FINISH \<noteq> 0 then
       (if st = SPK_RUNNING then do { ext0 (eg_clear E RSPK_COMMAND_FINISH); ext0 (out_finish E) }
        else if st = SPK_STOPPED then ext0 (eg_clear E RSPK_COMMAND_FINISH)
        else ret ())
     else if event_group_bits AND RSPK_COMMAND_START \<noteq> 0 then
       (if st = SPK_STOPPED then do {
          ext0 (eg_clear E RSPK_COMMAND_START);
          obj_mod (\<lambda>s. s\<lparr>rspk_state := SPK_STARTING\<rparr>)
        } else if st = SPK_RUNNING then ext0 (eg_clear E RSPK_COMMAND_START)
        else ret ())
     else ret ()
   }"

definition rspk_handle_error :: "'w rspk_env \<Rightarrow> u32 \<Rightarrow> u32 \<Rightarrow> rspk_error \<Rightarrow> ('w, unit) rspk_prog" where
  "rspk_handle_error E event_group_bits err_bit err =
     (if event_group_bits AND err_bit \<noteq> 0 then do {
        obj_mod (\<lambda>s. s\<lparr>rspk_error := err\<rparr>);
        ext0 (eg_clear E err_bit);
        enter_stopping_state E
      } else ret ())"

definition rspk_loop_events :: "'w rspk_env \<Rightarrow> ('w, unit) rspk_prog" where
  "rspk_loop_events E = do {
     event_group_bits \<leftarrow> obs (eg_get E);
     (if event_group_bits AND RSPK_STATE_STARTING \<noteq> 0 then ext0 (eg_clear E RSPK_STATE_STARTING) else ret ());
     rspk_handle_error E event_group_bits RSPK_ERR_ESP_NO_MEM NOT_ENOUGH_MEMORY;
     rspk_handle_error E event_group_bits RSPK_ERR_ESP_NOT_SUPPORTED UNSUPPORTED_STREAM;
     rspk_handle_error E event_group_bits RSPK_ERR_ESP_FAIL RESAMPLER_FAILURE;
     (if event_group_bits AND RSPK_STATE_RUNNING \<noteq> 0 then do {
        obj_mod (\<lambda>s. s\<lparr>rspk_error := NO_ERROR\<rparr>);
        ext0 (eg_clear E RSPK_STATE_RUNNING)
      } else ret ());
     (if event_group_bits AND RSPK_STATE_STOPPING \<noteq> 0 then ext0 (eg_clear E RSPK_STATE_STOPPING) else ret ());
     (if event_group_bits AND RSPK_STATE_STOPPED \<noteq> 0 then do {
        ext0 (task_deallocate E);
        ext0 (eg_clear E ALL_BITS)
      } else ret ())
   }"

definition rspk_starting :: "'w rspk_env \<Rightarrow> ('w, unit) rspk_prog" where
  "rspk_starting E = do {
     waiting \<leftarrow> obj_get waiting_for_output;
     if \<not> waiting then do {
       err \<leftarrow> start_impl E;
       if err = ESP_OK then do {
         now \<leftarrow> obs (loop_start_time E);
         obj_mod (\<lambda>s. s\<lparr>callback_remainder := 0, rspk_error := NO_ERROR, waiting_for_output := True, state_start_ms := now\<rparr>)
       } else do {
         set_start_error err;
         obj_mod (\<lambda>s. s\<lparr>waiting_for_output := False\<rparr>);
         enter_stopping_state E
       }
     } else do {
       running \<leftarrow> obs (out_is_running E);
       now \<leftarrow> obs (loop_start_time E);
       since \<leftarrow> obj_get state_start_ms;
       if running then obj_mod (\<lambda>s. s\<lparr>rspk_state := SPK_RUNNING, waiting_for_output := False\<rparr>)
       else if now - since > STATE_TRANSITION_TIMEOUT_MS then do {
         obj_mod (\<lambda>s. s\<lparr>waiting_for_output := False\<rparr>);
         enter_stopping_state E
       } else ret ()
     }
   }"

definition rspk_stopping :: "'w rspk_env \<Rightarrow> ('w, unit) rspk_prog" where
  "rspk_stopping E = do {
     paused \<leftarrow> obs (out_get_pause_state E);
     now \<leftarrow> obs (loop_start_time E);
     since \<leftarrow> obj_get state_start_ms;
     (if paused \<or> now - since > STATE_TRANSITION_TIMEOUT_MS then ext0 (out_stop E) else ret ());
     stopped \<leftarrow> obs (out_is_stopped E);
     created \<leftarrow> obs (task_is_created E);
     if stopped \<and> \<not> created then obj_mod (\<lambda>s. s\<lparr>waiting_for_output := False, rspk_state := SPK_STOPPED\<rparr>)
     else ret ()
   }"

definition rspk_loop_state :: "'w rspk_env \<Rightarrow> ('w, unit) rspk_prog" where
  "rspk_loop_state E = do {
     st \<leftarrow> obj_get rspk_state;
     case st of
       SPK_STARTING \<Rightarrow> rspk_starting E
     | SPK_RUNNING \<Rightarrow> do {
         stopped \<leftarrow> obs (out_is_stopped E);
         if stopped then enter_stopping_state E else ret ()
       }
     | SPK_STOPPING \<Rightarrow> rspk_stopping E
     | SPK_STOPPED \<Rightarrow> do {
         event_group_bits \<leftarrow> obs (eg_get E);
         if event_group_bits = 0 then ext0 (disable_loop E) else ret ()
       }
   }"

definition rspk_loop :: "'w rspk_env \<Rightarrow> ('w, unit) rspk_prog" where
  "rspk_loop E = do {
     rspk_loop_commands E;
     rspk_loop_events E;
     rspk_loop_state E
   }"

section \<open>The task\<close>

definition resample_task_start :: "'w rspk_env \<Rightarrow> ('w, esp_err) rspk_prog" where
  "resample_task_start E = do {
     ext0 (eg_set E RSPK_STATE_STARTING);
     s \<leftarrow> obj_get id;
     ext0 (rs_create E (rspk_ms_to_bytes E (audio_stream_info s) RSPK_TRANSFER_BUFFER_DURATION_MS)
       (rspk_ms_to_bytes E (target_stream_info s) RSPK_TRANSFER_BUFFER_DURATION_MS));
     err1 \<leftarrow> ext (rs_start E (audio_stream_info s) (target_stream_info s) (rspk_taps s) (rspk_filters s));
     err \<leftarrow> (if err1 \<noteq> ESP_OK then ret err1
       else do {
         rb \<leftarrow> ext (rb_create E (rspk_ms_to_bytes E (audio_stream_info s) (rspk_buffer_duration_ms s)));
         if \<not> rb then ret ESP_ERR_NO_MEM
         else do {
           ext0 (rs_add_source E);
           ext0 (out_set_audio_stream_info E (target_stream_info s));
           ext0 (rs_add_sink E);
           ret ESP_OK
         }
       });
     (if err = ESP_OK then ext0 (eg_set E RSPK_STATE_RUNNING)
      else if err = ESP_ERR_NO_MEM then ext0 (eg_set E RSPK_ERR_ESP_NO_MEM)
      else if err = ESP_ERR_NOT_SUPPORTED then ext0 (eg_set E RSPK_ERR_ESP_NOT_SUPPORTED)
      else ret ());
     ret err
   }"

text \<open>One turn: whether the loop goes on.\<close>

definition resample_task_step :: "'w rspk_env \<Rightarrow> ('w, bool) rspk_prog" where
  "resample_task_step E = do {
     event_bits \<leftarrow> obs (eg_get E);
     if event_bits AND RSPK_TASK_COMMAND_STOP \<noteq> 0 then ret False
     else do {
       resampler_state \<leftarrow> ext (rs_resample E);
       case resampler_state of
         RESAMPLER_FINISHED \<Rightarrow> ret False
       | RESAMPLER_FAILED \<Rightarrow> do { ext0 (eg_set E RSPK_ERR_ESP_FAIL); ret False }
       | RESAMPLING \<Rightarrow> ret True
     }
   }"

definition resample_task_end :: "'w rspk_env \<Rightarrow> ('w, unit) rspk_prog" where
  "resample_task_end E = do {
     ext0 (eg_set E RSPK_STATE_STOPPING);
     ext0 (rs_destroy E);
     ext0 (eg_set E RSPK_STATE_STOPPED)
   }"

end
