(* ===== verification/Resampler_Speaker_Correct.thy ===== *)
theory Resampler_Speaker_Correct
  imports Resampler_Speaker
begin

text \<open>
  Properties of the resampling speaker: the frame counts it passes back refine an exact clock at the source's rate; it never
  waits for its output outside a transition; a stop beats the other commands and completes; and a start that arrives
  while it stops is dropped.

  Named hypotheses: \<open>rtos_law\<close>, \<open>output_law\<close> (the operations of the output speaker and of \<open>StaticTask\<close> leave the event group alone,
  and a deallocated task is gone) and \<open>callback_log\<close> (the frames reported so far).
\<close>

section \<open>Frames at the source's rate\<close>

text \<open>The specification: after \<open>played\<close> frames at the target's rate, the source's frames reported are the whole ones among them.\<close>

record frame_clock =
  played :: nat
  reported :: nat

definition clock_tick :: "nat \<Rightarrow> nat \<Rightarrow> nat \<Rightarrow> frame_clock \<Rightarrow> frame_clock" where
  "clock_tick src dst n c = \<lparr>played = played c + n, reported = (played c + n) * src div dst\<rparr>"

definition callback_log :: "'w rspk_env \<Rightarrow> ('w \<Rightarrow> nat) \<Rightarrow> bool" where
  "callback_log E frames \<longleftrightarrow> (\<forall>n t w. frames (audio_output_callback E n t w) = frames w + unat n)"

definition clock_rel :: "('w \<Rightarrow> nat) \<Rightarrow> nat \<Rightarrow> nat \<Rightarrow> rspk \<times> 'w \<Rightarrow> frame_clock \<Rightarrow> bool" where
  "clock_rel frames src dst sw c \<longleftrightarrow>
     unat (si_rate (audio_stream_info (fst sw))) = src \<and> unat (si_rate (target_stream_info (fst sw))) = dst \<and>
     frames (snd sw) = reported c \<and> reported c = played c * src div dst \<and>
     unat (callback_remainder (fst sw)) = played c * src mod dst"

fun audio_outputs :: "'w rspk_env \<Rightarrow> (u32 \<times> u64) list \<Rightarrow> rspk \<times> 'w \<Rightarrow> (rspk \<times> 'w) option" where
  "audio_outputs E [] sw = Some sw"
| "audio_outputs E ((n, t) # ns) sw = Option.bind (on_audio_output E n t sw) (audio_outputs E ns)"

lemma scaled_frames:
  fixes f a :: u32 and r :: u64
  assumes "unat f * unat a < 2 ^ 32" "unat r < dst" "0 < dst" "dst < 2 ^ 32"
  defines "num \<equiv> ucast (f * a) + r" and "den \<equiv> (of_nat dst :: u64)"
  shows "unat num = unat f * unat a + unat r" "unat (num mod den) = (unat f * unat a + unat r) mod dst"
    "unat (ucast (num div den) :: u32) = (unat f * unat a + unat r) div dst"
proof -
  have prod: "unat (f * a) = unat f * unat a" using assms(1) by (simp add: unat_word_ariths)
  have "unat (ucast (f * a) :: u64) = unat (f * a)"
    using unsigned_less [of "f * a", where ?'a = nat] by (simp add: unsigned_ucast_eq take_bit_nat_eq_self_iff)
  moreover have bound: "unat f * unat a + unat r < 2 ^ 64" using assms(1,2,4) by simp
  ultimately show num: "unat num = unat f * unat a + unat r"
    using prod by (simp add: num_def unat_word_ariths)
  have den: "unat den = dst" using assms(4) by (simp add: den_def unat_of_nat)
  show "unat (num mod den) = (unat f * unat a + unat r) mod dst" by (simp add: unat_mod num den)
  have q: "(unat f * unat a + unat r) div dst < 2 ^ 32"
  proof (cases "dst = 1")
    case True then show ?thesis using assms(1,2) by simp
  next
    case False
    then have "2 ^ 32 + dst \<le> 2 ^ 32 * dst" using assms(3) by (cases dst) simp_all
    then have "unat f * unat a + unat r < 2 ^ 32 * dst" using assms(1,2) by linarith
    then show ?thesis by (simp add: less_mult_imp_div_less)
  qed
  then show "unat (ucast (num div den) :: u32) = (unat f * unat a + unat r) div dst"
    by (simp add: unsigned_ucast_eq unat_div num den take_bit_nat_eq_self_iff)
qed

lemma clock_step:
  assumes frames: "callback_log E frames" and rel: "clock_rel frames src dst sw c" and "src \<noteq> dst" "0 < dst" "unat n * src < 2 ^ 32"
  shows "\<exists>sw'. on_audio_output E n t sw = Some sw' \<and> clock_rel frames src dst sw' (clock_tick src dst (unat n) c)"
proof -
  obtain s w where sw: "sw = (s, w)" by (cases sw)
  let ?a = "si_rate (audio_stream_info s)" and ?t = "si_rate (target_stream_info s)" and ?r = "callback_remainder s"
  have r: "unat ?a = src" "unat ?t = dst" "unat ?r = played c * src mod dst" "frames w = played c * src div dst"
    using rel by (simp_all add: clock_rel_def sw)
  have ne: "?a \<noteq> ?t" using assms(3) r by auto
  have den: "(ucast ?t :: u64) = of_nat dst" using r(2) by (metis of_nat_unat)
  have lt: "dst < 2 ^ 32" using r(2) unsigned_less [of ?t, where ?'a = nat] by simp
  have den0: "(of_nat dst :: u64) \<noteq> 0" using assms(4) lt by (simp add: word_of_nat_eq_0_iff nat_dvd_not_less)
  note S = scaled_frames [of n ?a ?r dst]
  have S': "unat ((ucast (n * ?a) + ?r) mod (of_nat dst :: u64)) = (unat n * src + played c * src mod dst) mod dst"
    "unat (ucast ((ucast (n * ?a) + ?r) div (of_nat dst :: u64)) :: u32) = (unat n * src + played c * src mod dst) div dst"
    using S(2,3) assms(4,5) r lt by simp_all
  have q: "played c * src div dst + (unat n * src + played c * src mod dst) div dst = (played c + unat n) * src div dst"
  proof -
    have eq: "(played c + unat n) * src = (unat n * src + played c * src mod dst) + (played c * src div dst) * dst"
      by (simp add: algebra_simps)
    show ?thesis unfolding eq using assms(4) by (simp only: div_mult_self1 less_irrefl not_False_eq_True neq0_conv)
  qed
  have m: "(unat n * src + played c * src mod dst) mod dst = (played c + unat n) * src mod dst"
    by (simp add: mod_simps algebra_simps)
  show ?thesis
    using ne den den0 r S' q m frames
    by (simp add: on_audio_output_def sw clock_rel_def clock_tick_def callback_log_def Let_def)
qed

lemma clock_run:
  assumes "callback_log E frames" "src \<noteq> dst" "0 < dst"
  shows "clock_rel frames src dst sw c \<Longrightarrow> (\<forall>(n, t) \<in> set ns. unat n * src < 2 ^ 32) \<Longrightarrow>
    \<exists>sw'. audio_outputs E ns sw = Some sw' \<and>
      clock_rel frames src dst sw' (fold (\<lambda>(n, t). clock_tick src dst (unat n)) ns c)"
proof (induction ns arbitrary: sw c)
  case Nil then show ?case by simp
next
  case (Cons p ns)
  obtain n t where p: "p = (n, t)" by (cases p)
  obtain sw1 where "on_audio_output E n t sw = Some sw1" "clock_rel frames src dst sw1 (clock_tick src dst (unat n) c)"
    using clock_step [OF assms(1) Cons.prems(1) assms(2,3), of n t] Cons.prems(2) p by auto
  then show ?case using Cons.IH [of sw1] Cons.prems(2) p by auto
qed

lemma clock_total:
  "played (fold (\<lambda>(n, t). clock_tick src dst (unat n)) ns c) = played c + (\<Sum>(n, t) \<leftarrow> ns. unat n)"
  by (induction ns arbitrary: c) (auto simp: clock_tick_def)

text \<open>The callback refines the exact clock. Whatever batches of frames the output speaker reports, each short enough that its
  product with the source's rate fits 32 bits, the callback returns, and the frames passed on add up to the whole
  source frames in the total played so far: no frame is lost or counted twice by the rounding of single batches.\<close>

theorem frame_counts_refine_clock:
  assumes "callback_log E frames" "src \<noteq> dst" "0 < dst" "clock_rel frames src dst sw c"
    and "\<forall>(n, t) \<in> set ns. unat n * src < 2 ^ 32"
  shows "\<exists>sw'. audio_outputs E ns sw = Some sw' \<and>
    clock_rel frames src dst sw' (fold (\<lambda>(n, t). clock_tick src dst (unat n)) ns c) \<and>
    frames (snd sw') = (played c + (\<Sum>(n, t) \<leftarrow> ns. unat n)) * src div dst"
  using clock_run [OF assms] by (fastforce simp: clock_rel_def clock_total)

section \<open>Interleaved operation\<close>

text \<open>One step: an operation of the main loop, of the task, of a client or of the output speaker's callback, a change of the stream by the
  client, or a change of the world outside.\<close>

inductive rspk_step :: "'w rspk_env \<Rightarrow> rspk \<times> 'w \<Rightarrow> rspk \<times> 'w \<Rightarrow> bool" for E :: "'w rspk_env" where
  step_loop: "snd (run_state (rspk_loop E) sw) = sw' \<Longrightarrow> rspk_step E sw sw'"
| step_command: "snd (run_state (send_command E b wake) sw) = sw' \<Longrightarrow> rspk_step E sw sw'"
| step_play: "snd (run_state (rspk_play E data n) sw) = sw' \<Longrightarrow> rspk_step E sw sw'"
| step_volume: "snd (run_state (rspk_set_volume E v) sw) = sw' \<Longrightarrow> rspk_step E sw sw'"
| step_mute: "snd (run_state (rspk_set_mute_state E m) sw) = sw' \<Longrightarrow> rspk_step E sw sw'"
| step_output: "on_audio_output E k t sw = Some sw' \<Longrightarrow> rspk_step E sw sw'"
| step_task_start: "snd (run_state (resample_task_start E) sw) = sw' \<Longrightarrow> rspk_step E sw sw'"
| step_task_turn: "snd (run_state (resample_task_step E) sw) = sw' \<Longrightarrow> rspk_step E sw sw'"
| step_task_end: "snd (run_state (resample_task_end E) sw) = sw' \<Longrightarrow> rspk_step E sw sw'"
| step_stream: "rspk_step E (s, w) (s\<lparr>audio_stream_info := info\<rparr>, w)"
| step_world: "rspk_step E (s, w) (s, w')"

inductive rspk_reach :: "'w rspk_env \<Rightarrow> rspk \<times> 'w \<Rightarrow> rspk \<times> 'w \<Rightarrow> bool" for E :: "'w rspk_env" and sw0 where
  reach_setup: "snd (run_state (rspk_setup E) sw0) = sw \<Longrightarrow> rspk_reach E sw0 sw"
| reach_step: "rspk_reach E sw0 sw \<Longrightarrow> rspk_step E sw sw' \<Longrightarrow> rspk_reach E sw0 sw'"

definition waiting_ok :: "rspk \<Rightarrow> bool" where
  "waiting_ok s \<longleftrightarrow>
     (waiting_for_output s \<longrightarrow> rspk_state s = SPK_STARTING \<or> rspk_state s = SPK_STOPPING) \<and>
     (rspk_state s = SPK_RUNNING \<or> rspk_state s = SPK_STARTING \<and> waiting_for_output s \<longrightarrow>
        si_rate (target_stream_info s) = target_sample_rate s)"

lemma hoare_obs [hoare_rules]: "hoare I (obs f) (\<lambda>_. I)"
  by (auto simp: hoare_def)

lemma waiting_enter_stopping [hoare_rules]:
  "hoare (on_obj waiting_ok) (enter_stopping_state E) (\<lambda>_. on_obj waiting_ok)"
  by (rule hoareI) (auto simp: on_obj_def enter_stopping_state_def waiting_ok_def split: if_splits)

lemma waiting_commands [hoare_rules]:
  "hoare (on_obj waiting_ok) (rspk_loop_commands E) (\<lambda>_. on_obj waiting_ok)"
proof (rule on_objI)
  fix s w assume "waiting_ok s"
  then show "waiting_ok (fst (snd (run_state (rspk_loop_commands E) (s, w))))"
    by (cases "eg_get E w AND RSPK_COMMAND_STOP = 0"; cases "eg_get E w AND RSPK_COMMAND_FINISH = 0";
        cases "eg_get E w AND RSPK_COMMAND_START = 0"; cases "rspk_state s")
      (simp_all add: rspk_loop_commands_def enter_stopping_state_def waiting_ok_def)
qed

lemma waiting_error [hoare_rules]:
  "hoare (on_obj waiting_ok) (rspk_handle_error E b m e) (\<lambda>_. on_obj waiting_ok)"
  unfolding rspk_handle_error_def
  by (intro hoare_rules on_obj_mod) (simp add: waiting_ok_def)

lemma waiting_events [hoare_rules]:
  "hoare (on_obj waiting_ok) (rspk_loop_events E) (\<lambda>_. on_obj waiting_ok)"
  unfolding rspk_loop_events_def
  by (intro hoare_rules on_obj_mod) (simp add: waiting_ok_def)

lemma enter_stopping_obj:
  "fst (snd (run_state (enter_stopping_state E) sw)) =
     (fst sw)\<lparr>rspk_state := SPK_STOPPING, state_start_ms := loop_start_time E (snd sw)\<rparr>"
  by (cases sw) (simp add: enter_stopping_state_def)

lemma start_impl_obj:
  "fst (snd (run_state (start_impl E) (s, w))) = s\<lparr>target_stream_info :=
     \<lparr>si_bits = (if passthrough_bits_per_sample s then si_bits (audio_stream_info s) else target_bits_per_sample s),
      si_channels = si_channels (audio_stream_info s), si_rate = target_sample_rate s\<rparr>\<rparr>"
proof -
  have fst_if: "fst (snd (if b then x else y)) = (if b then fst (snd x) else fst (snd y))" for b and x y :: "'a \<times> 'b \<times> 'c" by simp
  show ?thesis by (simp add: start_impl_def case_prod_beta fst_if)
qed

lemma waiting_starting:
  assumes "rspk_state s = SPK_STARTING" "waiting_ok s"
  shows "waiting_ok (fst (snd (run_state (rspk_starting E) (s, w))))"
proof (cases "waiting_for_output s")
  case True
  then show ?thesis using assms by (simp add: rspk_starting_def enter_stopping_obj waiting_ok_def)
next
  case False
  obtain err s1 w1 where r: "run_state (start_impl E) (s, w) = (err, (s1, w1))" by (metis prod.collapse)
  have s1: "si_rate (target_stream_info s1) = target_sample_rate s1" "rspk_state s1 = SPK_STARTING" "\<not> waiting_for_output s1"
    using start_impl_obj [of E s w] False assms(1) unfolding r by simp_all
  show ?thesis
    using False s1 by (cases "err = ESP_OK")
      (simp_all add: rspk_starting_def r set_start_error_def enter_stopping_obj waiting_ok_def)
qed

lemma waiting_stopping:
  "rspk_state s = SPK_STOPPING \<Longrightarrow> waiting_ok s \<Longrightarrow> waiting_ok (fst (snd (run_state (rspk_stopping E) (s, w))))"
  by (simp add: rspk_stopping_def waiting_ok_def)

lemma waiting_state [hoare_rules]:
  "hoare (on_obj waiting_ok) (rspk_loop_state E) (\<lambda>_. on_obj waiting_ok)"
proof (rule on_objI)
  fix s w assume "waiting_ok s"
  then show "waiting_ok (fst (snd (run_state (rspk_loop_state E) (s, w))))"
    using waiting_starting [of s E w] waiting_stopping [of s E w]
    by (cases "rspk_state s") (auto simp: rspk_loop_state_def enter_stopping_state_def waiting_ok_def)
qed

lemma waiting_command [hoare_rules]: "hoare (on_obj waiting_ok) (send_command E b wake) (\<lambda>_. on_obj waiting_ok)"
  unfolding send_command_def by (intro hoare_rules)

lemma waiting_step:
  assumes "rspk_step E sw sw'" and "waiting_ok (fst sw)"
  shows "waiting_ok (fst sw')"
  using assms(1)
proof (cases rule: rspk_step.cases)
  case step_loop
  have "hoare (on_obj waiting_ok) (rspk_loop E) (\<lambda>_. on_obj waiting_ok)"
    unfolding rspk_loop_def by (intro hoare_rules)
  with step_loop assms(2) show ?thesis using on_obj_run by blast
next
  case (step_command b wake)
  then show ?thesis using on_obj_run [OF waiting_command] assms(2) by blast
next
  case (step_play data n)
  have "hoare (on_obj waiting_ok) (rspk_play E data n) (\<lambda>_. on_obj waiting_ok)"
    unfolding rspk_play_def rspk_start_def by (intro hoare_rules)
  with step_play assms(2) show ?thesis using on_obj_run by blast
next
  case (step_output k t)
  then show ?thesis using assms(2)
    by (cases sw) (auto simp: on_audio_output_def waiting_ok_def Let_def split: if_splits)
next
  case (step_task_turn)
  have "hoare (on_obj waiting_ok) (resample_task_step E) (\<lambda>_. on_obj waiting_ok)"
    unfolding resample_task_step_def
    by (intro hoare_rules) (auto intro!: hoare_rules split: AudioResamplerState.split)
  with step_task_turn assms(2) show ?thesis using on_obj_run by blast
next
  case step_task_start
  have "hoare (on_obj waiting_ok) (resample_task_start E) (\<lambda>_. on_obj waiting_ok)"
    unfolding resample_task_start_def by (intro hoare_rules)
  with step_task_start assms(2) show ?thesis using on_obj_run by blast
next
  case step_task_end
  then show ?thesis using assms(2) by (cases sw) (auto simp: resample_task_end_def)
next
  case (step_volume v)
  then show ?thesis using assms(2) by (cases sw) (auto simp: rspk_set_volume_def waiting_ok_def)
next
  case (step_mute m)
  then show ?thesis using assms(2) by (cases sw) (auto simp: rspk_set_mute_state_def waiting_ok_def)
qed (use assms(2) in \<open>simp_all add: waiting_ok_def\<close>)

text \<open>C25: in every reachable state the speaker waits for its output only while starting or stopping, so that a start is never taken
  for one already under way; and while it runs, or waits for its output to start, the stream it asked of the output has
  the configured rate.\<close>

theorem rspk_waiting_invariant:
  assumes "rspk_reach E (s0, w0) (s, w)" and "\<not> waiting_for_output s0" "rspk_state s0 = SPK_STOPPED"
  shows "(waiting_for_output s \<longrightarrow> rspk_state s = SPK_STARTING \<or> rspk_state s = SPK_STOPPING) \<and>
    (rspk_state s = SPK_RUNNING \<or> rspk_state s = SPK_STARTING \<and> waiting_for_output s \<longrightarrow>
       si_rate (target_stream_info s) = target_sample_rate s)"
proof -
  have "waiting_ok (fst (s, w))"
    using assms(1)
  proof (induction rule: rspk_reach.induct)
    case (reach_setup sw)
    have "hoare (on_obj waiting_ok) (rspk_setup E) (\<lambda>_. on_obj waiting_ok)"
      unfolding rspk_setup_def by (intro hoare_rules on_obj_mod) (simp_all add: waiting_ok_def)
    then show ?case using reach_setup on_obj_run assms(2,3) by (force simp: waiting_ok_def)
  next
    case (reach_step sw sw')
    then show ?case using waiting_step by blast
  qed
  then show ?thesis by (simp add: waiting_ok_def)
qed

section \<open>Stopping\<close>

definition output_law :: "'w rspk_env \<Rightarrow> bool" where
  "output_law E \<longleftrightarrow>
     (\<forall>f \<in> {out_stop E, out_start E, out_finish E, task_deallocate E, rs_destroy E, disable_loop E}. quiet E f) \<and>
     (\<forall>w. \<not> task_is_created E (task_deallocate E w)) \<and>
     (\<forall>b w. (task_is_created E (eg_set E b w) \<longleftrightarrow> task_is_created E w) \<and> (task_is_created E (eg_clear E b w) \<longleftrightarrow> task_is_created E w)) \<and>
     (\<forall>w. task_is_created E (out_stop E w) \<longleftrightarrow> task_is_created E w) \<and>
     (\<forall>b w. (out_is_stopped E w \<longrightarrow> out_is_stopped E (eg_set E b w)) \<and> (out_is_stopped E w \<longrightarrow> out_is_stopped E (eg_clear E b w))) \<and>
     (\<forall>w. out_is_stopped E w \<longrightarrow> out_is_stopped E (out_stop E w) \<and> out_is_stopped E (task_deallocate E w))"

lemma output_simps:
  assumes "output_law E"
  shows "eg_get E (out_stop E w) = eg_get E w" "eg_get E (task_deallocate E w) = eg_get E w" "eg_get E (rs_destroy E w) = eg_get E w"
    "\<not> task_is_created E (task_deallocate E w)" "task_is_created E (eg_set E b w) \<longleftrightarrow> task_is_created E w"
    "task_is_created E (eg_clear E b w) \<longleftrightarrow> task_is_created E w" "task_is_created E (out_stop E w) \<longleftrightarrow> task_is_created E w"
    "eg_get E (disable_loop E w) = eg_get E w"
    "out_is_stopped E w \<Longrightarrow> out_is_stopped E (eg_clear E b w)" "out_is_stopped E w \<Longrightarrow> out_is_stopped E (out_stop E w)"
    "out_is_stopped E w \<Longrightarrow> out_is_stopped E (task_deallocate E w)"
  using assms by (simp_all add: output_law_def quiet_def)

lemmas rspk_bits = RSPK_COMMAND_STOP_def RSPK_COMMAND_START_def RSPK_COMMAND_FINISH_def RSPK_TASK_COMMAND_STOP_def
  RSPK_STATE_STARTING_def RSPK_STATE_RUNNING_def RSPK_STATE_STOPPING_def RSPK_STATE_STOPPED_def RSPK_ERR_ESP_NO_MEM_def
  RSPK_ERR_ESP_NOT_SUPPORTED_def RSPK_ERR_ESP_FAIL_def ALL_BITS_def

text \<open>The turn of the loop that finds the task stopped and the output quiet.\<close>

lemma stopping_done:
  assumes law: "rtos_law E n" "output_law E" and s: "rspk_state s = SPK_STOPPING" and o: "out_is_stopped E w"
    and b: "eg_get E w \<in> {x OR RSPK_STATE_STOPPING OR RSPK_STATE_STOPPED | x. x \<in> {0, RSPK_TASK_COMMAND_STOP, RSPK_COMMAND_START}}"
  shows "\<exists>w'. run_state (rspk_loop E) (s, w) = ((), (s\<lparr>waiting_for_output := False, rspk_state := SPK_STOPPED\<rparr>, w')) \<and>
    eg_get E w' = 0 \<and> \<not> task_is_created E w' \<and> out_is_stopped E w'"
proof -
  note R = rtos_bits [OF law(1)] output_simps [OF law(2)]
  let ?w1 = "eg_clear E ALL_BITS (task_deallocate E (eg_clear E RSPK_STATE_STOPPING w))"
  have t: "eg_get E w AND RSPK_COMMAND_STOP = 0" "eg_get E w AND RSPK_COMMAND_FINISH = 0" "eg_get E w AND RSPK_STATE_STARTING = 0"
    "eg_get E w AND RSPK_ERR_ESP_NO_MEM = 0" "eg_get E w AND RSPK_ERR_ESP_NOT_SUPPORTED = 0" "eg_get E w AND RSPK_ERR_ESP_FAIL = 0"
    "eg_get E w AND RSPK_STATE_RUNNING = 0" "eg_get E w AND RSPK_STATE_STOPPING \<noteq> 0" "eg_get E w AND RSPK_STATE_STOPPED \<noteq> 0"
    "(eg_get E w AND NOT RSPK_STATE_STOPPING) AND NOT ALL_BITS = 0"
    using b by (auto simp: rspk_bits)
  have cmd: "run_state (rspk_loop_commands E) (s, w) = ((), (s, w))"
    using s t by (simp add: rspk_loop_commands_def)
  have ev: "run_state (rspk_loop_events E) (s, w) = ((), (s, ?w1))"
    using t by (simp add: rspk_loop_events_def rspk_handle_error_def)
  have w1: "eg_get E ?w1 = 0" "\<not> task_is_created E ?w1" "out_is_stopped E ?w1" using t(10) o by (simp_all add: R)
  let ?late = "out_get_pause_state E ?w1 \<or> STATE_TRANSITION_TIMEOUT_MS < loop_start_time E ?w1 - state_start_ms s"
  let ?w' = "if ?late then out_stop E ?w1 else ?w1"
  have w': "eg_get E ?w' = 0" "\<not> task_is_created E ?w'" "out_is_stopped E ?w'" using w1 R by simp_all
  have "run_state (rspk_loop E) (s, w) = ((), (s\<lparr>waiting_for_output := False, rspk_state := SPK_STOPPED\<rparr>, ?w'))"
    using s w' by (cases ?late) (simp_all add: rspk_loop_def cmd ev rspk_loop_state_def rspk_stopping_def)
  then show ?thesis using w' by blast
qed

text \<open>The turn that takes the stop command; the other commands waiting with it are dropped.\<close>

lemma stop_command_turn:
  assumes law: "rtos_law E n" "output_law E" and s: "rspk_state s = SPK_RUNNING \<or> rspk_state s = SPK_STARTING"
    and b: "eg_get E w \<in> {RSPK_COMMAND_STOP OR x | x. x \<in> {0, RSPK_COMMAND_START, RSPK_COMMAND_FINISH, RSPK_COMMAND_START OR RSPK_COMMAND_FINISH}}"
    and t: "task_is_created E w"
  shows "\<exists>ms w1. run_state (rspk_loop E) (s, w) =
      ((), (s\<lparr>waiting_for_output := False, rspk_state := SPK_STOPPING, state_start_ms := ms\<rparr>, w1)) \<and>
    eg_get E w1 = RSPK_TASK_COMMAND_STOP"
proof -
  note R = rtos_bits [OF law(1)] output_simps [OF law(2)]
  let ?cmds = "RSPK_COMMAND_STOP OR RSPK_COMMAND_START OR RSPK_COMMAND_FINISH"
  let ?w0 = "eg_clear E ?cmds w"
  let ?w1 = "out_stop E (eg_set E RSPK_TASK_COMMAND_STOP ?w0)"
  let ?s1 = "s\<lparr>waiting_for_output := False, rspk_state := SPK_STOPPING, state_start_ms := loop_start_time E ?w0\<rparr>"
  have bits: "eg_get E w AND RSPK_COMMAND_STOP \<noteq> 0" "eg_get E w AND NOT ?cmds = 0" using b by (auto simp: rspk_bits)
  have cmd: "run_state (rspk_loop_commands E) (s, w) = ((), (?s1, ?w1))"
    using s t bits(1) by (simp add: rspk_loop_commands_def enter_stopping_state_def R)
  have w1: "eg_get E ?w1 = RSPK_TASK_COMMAND_STOP" "task_is_created E ?w1" using bits(2) t by (simp_all add: R)
  have ev: "run_state (rspk_loop_events E) (?s1, ?w1) = ((), (?s1, ?w1))"
    using w1(1) by (simp add: rspk_loop_events_def rspk_handle_error_def) (simp add: rspk_bits)
  let ?late = "out_get_pause_state E ?w1 \<or> STATE_TRANSITION_TIMEOUT_MS < loop_start_time E ?w1 - loop_start_time E ?w0"
  have "run_state (rspk_loop E) (s, w) = ((), (?s1, if ?late then out_stop E ?w1 else ?w1))"
    using w1(2) by (cases ?late) (simp_all add: rspk_loop_def cmd ev rspk_loop_state_def rspk_stopping_def R)
  moreover have "eg_get E (if ?late then out_stop E ?w1 else ?w1) = RSPK_TASK_COMMAND_STOP" using w1(1) R by simp
  ultimately show ?thesis by blast
qed



section \<open>An example\<close>

text \<open>The world: event bits, whether the task exists, whether the output is stopped, the frames reported, and the loop's switch.\<close>

type_synonym ex_rspk_world = "u32 \<times> bool \<times> bool \<times> nat \<times> bool"

definition ex_rspk_env :: "ex_rspk_world rspk_env" where
  "ex_rspk_env =
     \<lparr>eg_create = Pair True, eg_get = fst, eg_set = (\<lambda>b (e, x). (e OR b, x)), eg_clear = (\<lambda>b (e, x). (e AND NOT b, x)),
      sem_create = (\<lambda>n k. Pair True), sem_count = (\<lambda>w. 0), sem_take = id, sem_give = id, rtos_task_create = Pair True,
      rtos_task_delete = id, rtos_delay = (\<lambda>n. id), set_clear_timeout = (\<lambda>n. id), loop_start_time = (\<lambda>w. 0),
      disable_loop = (\<lambda>(e, t, p, f, l). (e, t, p, f, False)),
      enable_loop_soon_any_context = (\<lambda>(e, t, p, f, l). (e, t, p, f, True)), wake_loop_threadsafe = id,
      task_create = (\<lambda>m (e, t, x). (True, (e, True, x))), task_deallocate = (\<lambda>(e, t, x). (e, False, x)),
      task_is_created = (\<lambda>(e, t, x). t), out_add_audio_output_callback = id, out_set_audio_stream_info = (\<lambda>i. id),
      out_start = (\<lambda>(e, t, p, x). (e, t, False, x)), out_stop = (\<lambda>(e, t, p, x). (e, t, True, x)), out_finish = id,
      out_play = (\<lambda>d n. Pair (length d)), out_is_running = (\<lambda>(e, t, p, x). \<not> p), out_is_stopped = (\<lambda>(e, t, p, x). p),
      out_get_pause_state = (\<lambda>w. False), out_has_buffered_data = (\<lambda>w. False), out_set_mute_state = (\<lambda>m. id),
      out_set_volume = (\<lambda>v. id), out_set_pause_state = (\<lambda>b. id), out_get_mute_state = (\<lambda>w. False),
      out_get_volume = (\<lambda>w. 1), rspk_ms_to_bytes = (\<lambda>i n. 64 * unat n), rb_create = (\<lambda>n. Pair True), rb_alive = (\<lambda>w. True),
      rb_available = (\<lambda>w. 0), rb_write_without_replacement = (\<lambda>d n. Pair (length d)), rs_create = (\<lambda>n k. id),
      rs_start = (\<lambda>i j t f. Pair ESP_OK), rs_add_source = id, rs_add_sink = id, rs_resample = Pair RESAMPLING, rs_destroy = id,
      audio_output_callback = (\<lambda>n ts (e, t, p, f, l). (e, t, p, f + unat n, l))\<rparr>"

definition ex_rspk :: rspk where
  "ex_rspk = \<lparr>rspk_state = SPK_RUNNING, rspk_failed = False, rspk_error = NO_ERROR, rspk_event_group = True,
     audio_stream_info = \<lparr>si_bits = 16, si_channels = 2, si_rate = 44100\<rparr>,
     target_stream_info = \<lparr>si_bits = 32, si_channels = 2, si_rate = 48000\<rparr>, callback_remainder = 0,
     rspk_buffer_duration_ms = 100, state_start_ms = 0, target_sample_rate = 48000, rspk_taps = 16, rspk_filters = 16,
     target_bits_per_sample = 32, passthrough_bits_per_sample = False, rspk_task_stack_in_psram = False,
     waiting_for_output = False, rspk_mute_state = False, rspk_volume = 1\<rparr>"

lemma ex_rspk_laws: "rtos_law ex_rspk_env 0" "output_law ex_rspk_env" "callback_log ex_rspk_env (\<lambda>(e, t, p, f, l). f)"
  by (auto simp: rtos_law_def output_law_def callback_log_def quiet_def ex_rspk_env_def)

theorem frame_counts_refine_clock_witness:
  "\<exists>sw'. audio_outputs ex_rspk_env [(720, 1), (720, 2), (1, 3)] (ex_rspk, (0, True, False, 0, True)) = Some sw' \<and>
     fst (snd (snd (snd (snd sw')))) = 1323"
proof -
  have "clock_rel (\<lambda>(e, t, p, f, l). f) 44100 48000 (ex_rspk, (0, True, False, 0, True)) \<lparr>played = 0, reported = 0\<rparr>"
    by (simp add: clock_rel_def ex_rspk_def)
  from frame_counts_refine_clock [OF ex_rspk_laws(3) _ _ this, of "[(720, 1), (720, 2), (1, 3)]"]
  show ?thesis by (auto simp: case_prod_beta)
qed

theorem rspk_waiting_invariant_witness:
  "\<exists>s w. rspk_reach ex_rspk_env (ex_rspk\<lparr>rspk_state := SPK_STOPPED\<rparr>, (0, False, True, 0, True)) (s, w) \<and>
     rspk_state s = SPK_STARTING \<and> waiting_for_output s \<and> si_rate (target_stream_info s) = target_sample_rate s"
proof -
  let ?s0 = "ex_rspk\<lparr>rspk_state := SPK_STOPPED\<rparr>" and ?w0 = "(0, False, True, 0, True) :: ex_rspk_world"
  let ?r1 = "snd (run_state (rspk_setup ex_rspk_env) (?s0, ?w0))"
  let ?r2 = "snd (run_state (send_command ex_rspk_env RSPK_COMMAND_START True) ?r1)"
  let ?r3 = "snd (run_state (rspk_loop ex_rspk_env) ?r2)"
  have r: "rspk_reach ex_rspk_env (?s0, ?w0) (fst ?r3, snd ?r3)"
    unfolding prod.collapse by (meson reach_setup rspk_reach.reach_step step_loop step_command)
  have s0: "\<not> waiting_for_output ?s0" "rspk_state ?s0 = SPK_STOPPED" by (simp_all add: ex_rspk_def)
  have "rspk_state (fst ?r3) = SPK_STARTING \<and> waiting_for_output (fst ?r3)"
    by (simp add: rspk_setup_def send_command_def rspk_loop_def rspk_loop_commands_def rspk_loop_events_def rspk_handle_error_def
        rspk_loop_state_def rspk_starting_def start_impl_def requires_resampling_def ex_rspk_env_def ex_rspk_def rspk_bits)
  then show ?thesis using r rspk_waiting_invariant [OF r s0] by blast
qed



end
