(* ===== verification/Audio_Pipeline.thy ===== *)
theory Audio_Pipeline
  imports I2s_Speaker_Correct Resampler_Speaker_Correct
begin

text \<open>
  The resampling speaker on top of the I2S speaker, as the device configures them: the I2S speaker's task reports the frames of
  completed DMA buffers, each report calls the callback of the resampling speaker, and that one passes converted
  counts on to its client. The two components are composed as they are; \<open>feeds\<close> says that the callback the one calls is
  the one the other registered.
\<close>

text \<open>\<open>pipe\<close> is the resampling speaker with its own world, seen in the world of the I2S speaker, or \<open>None\<close> after a trap.\<close>

definition feeds :: "'w spk_env \<Rightarrow> 'v rspk_env \<Rightarrow> ('w \<Rightarrow> (rspk \<times> 'v) option) \<Rightarrow> bool" where
  "feeds E1 E2 pipe \<longleftrightarrow>
     (\<forall>n x w. pipe (spk_env.audio_output_callback E1 n x w) = Option.bind (pipe w) (on_audio_output E2 n (word_of_int x))) \<and>
     (\<forall>w. pipe (snd (evq_receive E1 w)) = pipe w)"

text \<open>One completed DMA buffer.\<close>

lemma account_event_pipe:
  assumes "feeds E1 E2 pipe" "callback_log E2 frames" "src \<noteq> dst" "0 < dst"
    and "pipe w = Some sw" "clock_rel frames src dst sw c" "unat (frames_per_buffer t) * src < 2 ^ 32"
  shows "\<exists>sw'. pipe (snd (account_event E1 info x (t, w))) = Some sw' \<and>
    clock_rel frames src dst sw' (clock_tick src dst (min (unat (frames_written t)) (unat (frames_per_buffer t))) c)"
proof -
  let ?n = "if frames_written t < frames_per_buffer t then frames_written t else frames_per_buffer t"
  have n: "unat ?n = min (unat (frames_written t)) (unat (frames_per_buffer t))" by (simp add: word_less_nat_alt)
  obtain y where acc: "snd (account_event E1 info x (t, w)) = (if 0 < ?n then spk_env.audio_output_callback E1 ?n y w else w)"
    by (rule that [of "if frames_written t < frames_per_buffer t
        then x - uint (frames_to_microseconds E1 info (frames_per_buffer t - frames_written t)) else x"])
      (simp add: account_event_def Let_def)
  show ?thesis
  proof (cases "0 < ?n")
    case True
    have "unat ?n * src \<le> unat (frames_per_buffer t) * src" unfolding n by (intro mult_le_mono1) simp
    then have "unat ?n * src < 2 ^ 32" using assms(7) by (rule order_le_less_trans)
    from clock_step [OF assms(2,6,3,4) this, of "word_of_int y"] show ?thesis
      using assms(1,5) True unfolding acc n by (auto simp: feeds_def)
  next
    case False
    then have "unat ?n = 0" by (simp add: word_greater_zero_iff)
    then have "clock_tick src dst (unat ?n) c = c" using assms(6) by (simp add: clock_tick_def clock_rel_def)
    then show ?thesis using assms(5,6) False unfolding acc n by auto
  qed
qed

text \<open>The clock after a number of frames depends on their sum only.\<close>

lemma clock_tick_tick: "clock_tick src dst m (clock_tick src dst n c) = clock_tick src dst (n + m) c"
  by (simp add: clock_tick_def add.assoc)

lemma drain_events_pipe:
  assumes law: "event_queue E1 evq sent" "feeds E1 E2 pipe" "callback_log E2 frames" "src \<noteq> dst" "0 < dst"
  shows "pipe w = Some sw \<Longrightarrow> clock_rel frames src dst sw c \<Longrightarrow> unat (frames_per_buffer t) * src < 2 ^ 32 \<Longrightarrow>
    \<exists>t' w' sw'. drain_events E1 info (t, w) = Some (t', w') \<and> pipe w' = Some sw' \<and>
      clock_rel frames src dst sw' (clock_tick src dst (min (unat (frames_written t)) (length (evq w) * unat (frames_per_buffer t))) c)"
proof (induction "evq w" arbitrary: t w sw c)
  case Nil
  have "fst (evq_receive E1 w) = None" "pipe (snd (evq_receive E1 w)) = pipe w"
    using law(1,2) Nil.hyps by (auto simp: event_queue_def feeds_def split: list.splits)
  moreover have "clock_tick src dst 0 c = c" using Nil.prems(2) by (simp add: clock_tick_def clock_rel_def)
  ultimately show ?case
    using Nil.prems Nil.hyps [symmetric] by (cases sw) (subst drain_events.simps, simp add: Let_def)
next
  case (Cons x xs)
  let ?w1 = "snd (evq_receive E1 w)" and ?f = "unat (frames_written t)" and ?L = "unat (frames_per_buffer t)"
  have r: "fst (evq_receive E1 w) = Some x" "evq ?w1 = xs" "pipe ?w1 = Some sw"
    using law(1,2) Cons.hyps(2) [symmetric] Cons.prems(1) by (simp_all add: event_queue_def feeds_def)
  obtain t1 w2 where a: "account_event E1 info x (t, ?w1) = (t1, w2)" by (metis prod.exhaust)
  note acc = account_event_spec [OF law(1) a]
  obtain sw1 where sw1: "pipe w2 = Some sw1" "clock_rel frames src dst sw1 (clock_tick src dst (min ?f ?L) c)"
    using account_event_pipe [OF law(2-5) r(3) Cons.prems(2,3), of info x] unfolding a by auto
  have e2: "xs = evq w2" and len: "length (evq w) = Suc (length xs)" using acc(5) r(2) Cons.hyps(2) by (metis, metis length_Cons)
  obtain t' w' sw' where IH: "drain_events E1 info (t1, w2) = Some (t', w')" "pipe w' = Some sw'"
      "clock_rel frames src dst sw' (clock_tick src dst (min (?f - ?L) (length xs * ?L)) (clock_tick src dst (min ?f ?L) c))"
    using Cons.hyps(1) [OF e2 sw1, of t1] Cons.prems(3) unfolding e2 [symmetric] acc(2,4) by blast
  have "min ?f ?L + min (?f - ?L) (length xs * ?L) = min ?f (length (evq w) * ?L)" unfolding len by auto
  then have "clock_rel frames src dst sw' (clock_tick src dst (min ?f (length (evq w) * ?L)) c)"
    using IH(3) by (simp add: clock_tick_tick)
  moreover have "drain_events E1 info (t, w) = Some (t', w')"
    using IH(1) r(1) a by (subst drain_events.simps) (simp add: Let_def)
  ultimately show ?case using IH(2) by blast
qed

text \<open>C4: the frame counts stay exact through both speakers. When the I2S speaker's task empties its event queue, the resampling speaker's
  callback handles every report without trap or overflow, provided that a DMA buffer's frames times the source's rate
  fit 32 bits, and the client has then been told of exactly the whole source frames in all that was played: what was
  played before plus the smaller of the frames written and the frames of the completed buffers.\<close>

theorem pipeline_frames_exact:
  assumes "event_queue E1 evq sent" "feeds E1 E2 pipe" "callback_log E2 frames" "src \<noteq> dst" "0 < dst"
    and "pipe w = Some sw" "clock_rel frames src dst sw c" "unat (frames_per_buffer t) * src < 2 ^ 32"
  shows "\<exists>t' w' sw'. drain_events E1 info (t, w) = Some (t', w') \<and> pipe w' = Some sw' \<and>
    frames (snd sw') = (played c + min (unat (frames_written t)) (length (evq w) * unat (frames_per_buffer t))) * src div dst"
  using drain_events_pipe [OF assms, of info] by (fastforce simp: clock_rel_def clock_tick_def)

section \<open>An example\<close>

text \<open>The I2S speaker's world: the event queue, the frames sent, and the resampling speaker of the example of \<open>Resampler_Speaker_Correct\<close>.\<close>

type_synonym ex_pipe_world = "int list \<times> nat \<times> (rspk \<times> ex_rspk_world) option"

definition ex_pipe_env :: "ex_pipe_world spk_env" where
  "ex_pipe_env =
     \<lparr>eg_create = Pair True, eg_get = (\<lambda>w. 0), eg_set = (\<lambda>b. id), eg_clear = (\<lambda>b. id),
      sem_create = (\<lambda>n k. Pair True), sem_count = (\<lambda>w. 0), sem_take = id, sem_give = id, rtos_task_create = Pair True,
      rtos_task_delete = id, rtos_delay = (\<lambda>n. id), set_clear_timeout = (\<lambda>n. id),
      philips_slot_cfg = ex_slot, pcm_slot_cfg = ex_slot, msb_slot_cfg = ex_slot, has_apll = False, plain_esp32 = False,
      port_lock = id, port_unlock = id, i2s_new_channel = (\<lambda>c a b. Pair None), i2s_channel_init_std_mode = (\<lambda>h c. Pair True),
      i2s_channel_get_info = (\<lambda>h. Pair None), i2s_channel_register_event_callback = (\<lambda>h b. Pair True),
      i2s_channel_enable = (\<lambda>h. Pair True), i2s_channel_disable = (\<lambda>h. Pair True), i2s_del_channel = (\<lambda>h. Pair True),
      volume_to_q31 = (\<lambda>v. 1), gain_apply = (\<lambda>q n b d. d), esp_mono_swap = False, dac_set_volume = (\<lambda>v. id),
      dac_set_mute = (\<lambda>b. id), rb_create = (\<lambda>n. Pair True), rb_alive = (\<lambda>w. True), rb_available = (\<lambda>w. 0),
      rb_write = (\<lambda>d n. Pair (length d)), tb_create = (\<lambda>n. Pair True), tb_transfer = (\<lambda>b n. Pair []), tb_free = id,
      evq_create = (\<lambda>n. Pair True), evq_reset = (\<lambda>(q, r). ([], r)),
      evq_receive = (\<lambda>(q, r). (case q of [] \<Rightarrow> None | x # _ \<Rightarrow> Some x, (tl q, r))),
      evq_full = (\<lambda>(q, r). 5 \<le> length q), evq_send = (\<lambda>x (q, r). (q @ [x], r)), timer_us = Pair 7,
      spk_millis = Pair 0, spk_ticks = unat, frames_to_bytes = (\<lambda>i n. 4 * unat n), frames_to_microseconds = (\<lambda>i n. n),
      spk_ms_to_bytes = (\<lambda>i n. unat n), spk_samples_to_bytes = (\<lambda>i n. 2 * n), bytes_to_frames = (\<lambda>i n. of_nat (n div 4)),
      i2s_channel_preload_data = (\<lambda>h d. Pair (length d)), i2s_channel_write = (\<lambda>h d t. Pair (length d)),
      audio_output_callback = (\<lambda>n x (q, r, p). (q, r + unat n, Option.bind p (on_audio_output ex_rspk_env n (word_of_int x))))\<rparr>"

lemma ex_pipe_laws: "event_queue ex_pipe_env fst (\<lambda>(q, r, p). r)" "feeds ex_pipe_env ex_rspk_env (\<lambda>(q, r, p). p)"
  by (auto simp: event_queue_def feeds_def ex_pipe_env_def split: list.splits)

theorem pipeline_frames_exact_witness:
  "\<exists>t' q r s v. drain_events ex_pipe_env (current_stream_info ex_spk)
       (ex_task, ([11, 22, 33], 0, Some (ex_rspk, (0, True, False, 0, True)))) = Some (t', (q, r, Some (s, v))) \<and>
     fst (snd (snd (snd v))) = 459"
proof -
  let ?w = "([11, 22, 33], 0, Some (ex_rspk, (0, True, False, 0, True))) :: ex_pipe_world"
  have "clock_rel (\<lambda>(e, t, p, f, l). f) 44100 48000 (ex_rspk, (0, True, False, 0, True)) \<lparr>played = 0, reported = 0\<rparr>"
    by (simp add: clock_rel_def ex_rspk_def)
  from pipeline_frames_exact [OF ex_pipe_laws ex_rspk_laws(3) _ _ _ this, of ?w ex_task "current_stream_info ex_spk"]
  show ?thesis by (fastforce simp: ex_task_def)
qed

end
