(* ===== verification/Playback_Stream.thy ===== *)
theory Playback_Stream
  imports I2s_Speaker_Correct
begin

text \<open>
  The way of the audio through the I2S speaker: \<open>play\<close> puts bytes into the ring buffer, the task takes them out, applies the volume, expands the
  samples to the width of a slot and hands them to the driver, which may take only some of them. Calls of \<open>play\<close>, turns of the task and
  everything else (interrupts, volume, pauses, the main loop, time) come in any order.

  Named hypothesis: \<open>playback_law\<close>.
\<close>

section \<open>Buffers and driver\<close>

text \<open>\<open>ring\<close> is the contents of the ring buffer, \<open>out\<close> all the bytes the driver has taken. Writing without replacement stores a beginning of the data; the
  transfer takes a beginning of the contents; the driver takes a beginning of the data, in whole slots if the data are whole slots. Nothing else moves bytes.\<close>

definition unmoved :: "('w \<Rightarrow> u8 list) \<Rightarrow> ('w \<Rightarrow> u8 list) \<Rightarrow> ('w \<Rightarrow> 'w) \<Rightarrow> bool" where
  "unmoved ring out f \<longleftrightarrow> (\<forall>w. ring (f w) = ring w \<and> out (f w) = out w)"

definition takes_slots :: "('w \<Rightarrow> u8 list) \<Rightarrow> ('w \<Rightarrow> u8 list) \<Rightarrow> (u8 list \<Rightarrow> 'w \<Rightarrow> nat \<times> 'w) \<Rightarrow> bool" where
  "takes_slots ring out f \<longleftrightarrow> (\<forall>d w. fst (f d w) \<le> length d \<and> (4 dvd length d \<longrightarrow> 4 dvd fst (f d w)) \<and>
     out (snd (f d w)) = out w @ take (fst (f d w)) d \<and> ring (snd (f d w)) = ring w)"

definition playback_law :: "'w spk_env \<Rightarrow> ('w \<Rightarrow> u8 list) \<Rightarrow> ('w \<Rightarrow> u8 list) \<Rightarrow> bool" where
  "playback_law E ring out \<longleftrightarrow>
     (\<forall>d n w. fst (rb_write E d n w) \<le> length d \<and> ring (snd (rb_write E d n w)) = ring w @ take (fst (rb_write E d n w)) d \<and>
        out (snd (rb_write E d n w)) = out w) \<and>
     (\<forall>b n w. ring w = fst (tb_transfer E b n w) @ ring (snd (tb_transfer E b n w)) \<and> out (snd (tb_transfer E b n w)) = out w) \<and>
     (\<forall>h. takes_slots ring out (i2s_channel_preload_data E h)) \<and> (\<forall>h ms. takes_slots ring out (\<lambda>d. i2s_channel_write E h d ms)) \<and>
     (\<forall>n w. (fst (rb_create E n w) \<longrightarrow> ring (snd (rb_create E n w)) = []) \<and> out (snd (rb_create E n w)) = out w) \<and>
     (\<forall>b. unmoved ring out (eg_set E b)) \<and> (\<forall>b. unmoved ring out (eg_clear E b)) \<and> (\<forall>n. unmoved ring out (rtos_delay E n)) \<and>
     (\<forall>n. unmoved ring out (\<lambda>w. snd (tb_create E n w))) \<and> unmoved ring out (\<lambda>w. snd (spk_millis E w)) \<and>
     unmoved ring out (\<lambda>w. snd (evq_receive E w)) \<and> unmoved ring out (evq_reset E) \<and>
     (\<forall>n x. unmoved ring out (audio_output_callback E n x)) \<and> (\<forall>h. unmoved ring out (\<lambda>w. snd (i2s_channel_disable E h w))) \<and>
     (\<forall>h. unmoved ring out (\<lambda>w. snd (i2s_channel_enable E h w))) \<and>
     (\<forall>h b. unmoved ring out (\<lambda>w. snd (i2s_channel_register_event_callback E h b w)))"

lemma playback_unmoved:
  assumes "playback_law E ring out"
  shows "ring (eg_set E b w) = ring w" "out (eg_set E b w) = out w" "ring (eg_clear E b w) = ring w" "out (eg_clear E b w) = out w"
    "ring (rtos_delay E n w) = ring w" "out (rtos_delay E n w) = out w" "ring (snd (tb_create E k w)) = ring w" "out (snd (tb_create E k w)) = out w"
    "ring (snd (spk_millis E w)) = ring w" "out (snd (spk_millis E w)) = out w" "ring (snd (evq_receive E w)) = ring w"
    "out (snd (evq_receive E w)) = out w" "ring (evq_reset E w) = ring w" "out (evq_reset E w) = out w"
    "ring (audio_output_callback E f x w) = ring w" "out (audio_output_callback E f x w) = out w"
    "ring (snd (i2s_channel_disable E h w)) = ring w" "out (snd (i2s_channel_disable E h w)) = out w"
    "ring (snd (i2s_channel_enable E h w)) = ring w" "out (snd (i2s_channel_enable E h w)) = out w"
    "ring (snd (i2s_channel_register_event_callback E h c w)) = ring w" "out (snd (i2s_channel_register_event_callback E h c w)) = out w"
  using assms by (simp_all add: playback_law_def unmoved_def)

lemma playback_moves:
  assumes "playback_law E ring out"
  shows "ring (snd (rb_write E d n w)) = ring w @ take (fst (rb_write E d n w)) d" "out (snd (rb_write E d n w)) = out w"
    "fst (tb_transfer E b n w) @ ring (snd (tb_transfer E b n w)) = ring w" "out (snd (tb_transfer E b n w)) = out w"
    "takes_slots ring out (i2s_channel_preload_data E h)" "takes_slots ring out (\<lambda>d. i2s_channel_write E h d ms)"
    "fst (rb_create E k w) \<Longrightarrow> ring (snd (rb_create E k w)) = []" "out (snd (rb_create E k w)) = out w"
  using assms unfolding playback_law_def by metis+

section \<open>One turn\<close>

text \<open>What the task does to the bytes it takes out of the ring buffer, and what it makes of them for the driver.\<close>

definition spk_process :: "'w spk_env \<Rightarrow> spk \<Rightarrow> u8 list \<Rightarrow> u8 list" where
  "spk_process E s c = (if c = [] then [] else swap_esp32_mono_samples E s (apply_software_volume E s c))"

definition spk_slots :: "nat \<Rightarrow> u8 list \<Rightarrow> u8 list" where
  "spk_slots factor bs = (if factor = 2 then expand_samples bs else bs)"

lemma expand_samples_append: "even (length xs) \<Longrightarrow> expand_samples (xs @ ys) = expand_samples xs @ expand_samples ys"
  by (induction xs rule: expand_samples.induct) simp_all

lemma take_expand_samples: "take (4 * m) (expand_samples bs) = expand_samples (take (2 * m) bs)"
proof (induction m arbitrary: bs)
  case (Suc m)
  have "4 * Suc k = Suc (Suc (Suc (Suc (4 * k))))" "2 * Suc k = Suc (Suc (2 * k))" for k by simp_all
  with Suc show ?case by (cases bs rule: expand_samples.cases) (simp_all add: expand_one del: le16_of.simps mult_Suc_right)
qed simp

text \<open>Whatever the driver takes is made of a beginning of the transfer buffer, which is what is then removed from it.\<close>

lemma slots_taken:
  assumes "takes_slots ring out f" and "factor = 1 \<or> factor = 2"
  shows "out (snd (f (spk_slots factor bs) w)) = out w @ spk_slots factor (take (fst (f (spk_slots factor bs) w) div factor) bs)"
    and "factor = 2 \<Longrightarrow> even (fst (f (spk_slots factor bs) w) div factor)"
    and "fst (f (spk_slots factor bs) w) div factor \<le> length bs"
    and "ring (snd (f (spk_slots factor bs) w)) = ring w"
proof -
  let ?n = "fst (f (spk_slots factor bs) w)"
  have law: "?n \<le> length (spk_slots factor bs)" "4 dvd length (spk_slots factor bs) \<longrightarrow> 4 dvd ?n"
    "out (snd (f (spk_slots factor bs) w)) = out w @ take ?n (spk_slots factor bs)" "ring (snd (f (spk_slots factor bs) w)) = ring w"
    using assms(1) by (simp_all add: takes_slots_def)
  show "ring (snd (f (spk_slots factor bs) w)) = ring w" by (rule law(4))
  have "take ?n (spk_slots factor bs) = spk_slots factor (take (?n div factor) bs) \<and> (factor = 2 \<longrightarrow> even (?n div factor)) \<and>
      ?n div factor \<le> length bs"
  proof (cases "factor = 2")
    case True
    then have "4 dvd ?n" using law(2) by (simp add: spk_slots_def length_expand_samples)
    then obtain m where m: "?n = 4 * m" by (elim dvdE)
    then have d: "?n div factor = 2 * m" using True by simp
    show ?thesis using law(1) unfolding d unfolding m by (simp add: True spk_slots_def take_expand_samples length_expand_samples)
  qed (use law(1) assms(2) in \<open>simp add: spk_slots_def\<close>)
  then show "out (snd (f (spk_slots factor bs) w)) = out w @ spk_slots factor (take (?n div factor) bs)"
    "factor = 2 \<Longrightarrow> even (?n div factor)" "?n div factor \<le> length bs" using law(3) by simp_all
qed

lemma write_transfer_moves:
  assumes law: "playback_law E ring out" and f: "expand_factor t = 1 \<or> expand_factor t = 2"
    and run: "write_transfer_buffer E s (t, w) = (t', w')"
  shows "\<exists>p. transfer_buffer t = p @ transfer_buffer t' \<and> out w' = out w @ spk_slots (expand_factor t) p \<and>
    (expand_factor t = 2 \<longrightarrow> even (length p)) \<and> ring w' = ring w \<and> expand_factor t' = expand_factor t"
proof -
  let ?h = "tx_handle (spk_bus s)"
  let ?w0 = "if tx_dma_underflow t then snd (i2s_channel_register_event_callback E ?h False (snd (i2s_channel_disable E ?h w))) else w"
  define g where "g = (if tx_dma_underflow t then i2s_channel_preload_data E ?h
    else (\<lambda>d. i2s_channel_write E ?h d (actual_dma_buffer_ms t)))"
  have g: "takes_slots ring out g" using playback_moves(5,6) [OF law] by (simp add: g_def)
  let ?r = "g (spk_slots (expand_factor t) (transfer_buffer t)) ?w0"
  let ?k = "fst ?r div expand_factor t"
  note taken = slots_taken [OF g f, of "transfer_buffer t" ?w0]
  have w0: "ring ?w0 = ring w" "out ?w0 = out w" by (simp_all add: playback_unmoved [OF law])
  have t': "transfer_buffer t' = drop ?k (transfer_buffer t)" "expand_factor t' = expand_factor t"
    and w': "ring w' = ring (snd ?r)" "out w' = out (snd ?r)"
    using run by (auto simp: write_transfer_buffer_def Let_def g_def spk_slots_def playback_unmoved [OF law] split: if_splits)
  let ?p = "take ?k (transfer_buffer t)"
  have "transfer_buffer t = ?p @ transfer_buffer t'" using t'(1) by simp
  moreover have "length ?p = ?k" using taken(3) by simp
  then have "expand_factor t = 2 \<longrightarrow> even (length ?p)" using taken(2) by argo
  moreover have "out w' = out w @ spk_slots (expand_factor t) ?p" "ring w' = ring w" using taken(1,4) w0 w' by argo+
  ultimately show ?thesis using t'(2) by blast
qed

text \<open>A turn takes a beginning of the ring buffer, processes it, and hands a beginning of what it then holds to the driver.\<close>

definition moved ::
    "'w spk_env \<Rightarrow> ('w \<Rightarrow> u8 list) \<Rightarrow> ('w \<Rightarrow> u8 list) \<Rightarrow> spk \<Rightarrow> spk_task \<times> 'w \<Rightarrow> spk_task \<times> 'w \<Rightarrow> bool" where
  "moved E ring out s tw tw' \<longleftrightarrow> (\<exists>c p. ring (snd tw) = c @ ring (snd tw') \<and>
     transfer_buffer (fst tw) @ spk_process E s c = p @ transfer_buffer (fst tw') \<and>
     out (snd tw') = out (snd tw) @ spk_slots (expand_factor (fst tw)) p \<and>
     (expand_factor (fst tw) = 2 \<longrightarrow> even (length p)) \<and> expand_factor (fst tw') = expand_factor (fst tw))"

lemma transfer_moved:
  assumes law: "playback_law E ring out" and f: "expand_factor t = 1 \<or> expand_factor t = 2"
    and run: "spk_transfer E s (t, w) = (GO_ON t', w')"
  shows "moved E ring out s (t, w) (t', w')"
proof (cases "pause_state s")
  case True
  then show ?thesis
    using run by (auto simp: spk_transfer_def moved_def playback_unmoved [OF law] spk_process_def spk_slots_def
        intro!: exI [of _ "[] :: u8 list"])
next
  case False
  obtain c w1 where c: "tb_transfer E (transfer_buffer t) (spk_ticks E (frames_to_microseconds E (current_stream_info s) (frames_written t) div 1000 div 2)) w
      = (c, w1)" by (metis prod.exhaust)
  have w1: "ring w = c @ ring w1" "out w1 = out w"
    using playback_moves(3,4) [OF law, of "transfer_buffer t" _ w] c by (metis fst_conv snd_conv)+
  let ?t1 = "t\<lparr>transfer_buffer := transfer_buffer t @ spk_process E s c\<rparr>"
  show ?thesis
  proof (cases "transfer_buffer ?t1 = []")
    case True
    then have "t' = ?t1" "ring w' = ring w1" "out w' = out w1"
      using run False c by (auto simp: spk_transfer_def Let_def spk_process_def playback_unmoved [OF law] split: if_splits)
    then show ?thesis
      using w1 True unfolding moved_def by (intro exI [of _ c] exI [of _ "[]"]) (simp add: spk_slots_def)
  next
    case ne: False
    then have "write_transfer_buffer E s (?t1, w1) = (t', w')"
      using run False c by (auto simp: spk_transfer_def Let_def spk_process_def split: if_splits prod.splits)
    from write_transfer_moves [OF law _ this] obtain p where "transfer_buffer t @ spk_process E s c = p @ transfer_buffer t'"
      "out w' = out w1 @ spk_slots (expand_factor t) p" "expand_factor t = 2 \<longrightarrow> even (length p)" "ring w' = ring w1"
      "expand_factor t' = expand_factor t" using f by auto
    then show ?thesis using w1 unfolding moved_def by (intro exI [of _ c] exI [of _ p]) simp
  qed
qed

lemma drain_unmoved:
  assumes law: "playback_law E ring out" and run: "drain_events E info tw = Some y"
  shows "ring (snd y) = ring (snd tw) \<and> out (snd y) = out (snd tw) \<and> transfer_buffer (fst y) = transfer_buffer (fst tw) \<and>
    expand_factor (fst y) = expand_factor (fst tw)"
proof -
  let ?P = "\<lambda>E info tw y. playback_law E ring out \<longrightarrow> ring (snd y) = ring (snd tw) \<and> out (snd y) = out (snd tw) \<and>
    transfer_buffer (fst y) = transfer_buffer (fst tw) \<and> expand_factor (fst y) = expand_factor (fst tw)"
  have "?P E info tw y"
    using run by (rule drain_events.raw_induct [where P = ?P, rotated])
      (auto simp: Let_def account_event_def playback_unmoved split: option.splits prod.splits if_splits)
  then show ?thesis using law by simp
qed

lemma turn_moved:
  assumes law: "playback_law E ring out" and f: "expand_factor t = 1 \<or> expand_factor t = 2"
    and run: "speaker_task_step E t (s, w) = Some (GO_ON t', (s', w'))"
  shows "moved E ring out s (t, w) (t', w')"
proof -
  obtain go w1 where k: "run_state (spk_keeps_running E t) (s, w) = (go, (s, w1))" "ring w1 = ring w" "out w1 = out w"
    by (cases "spk_timeout s"; cases "pause_state s") (auto simp: spk_keeps_running_def playback_unmoved [OF law] case_prod_beta)
  let ?g = "eg_get E w1 AND COMMAND_STOP_GRACEFULLY \<noteq> 0"
  let ?w2 = "if ?g then eg_clear E COMMAND_STOP_GRACEFULLY w1 else w1"
  let ?t2 = "if ?g then t\<lparr>stop_gracefully := True\<rparr> else t"
  obtain t3 w3 where d: "drain_events E (current_stream_info s) (?t2, ?w2) = Some (t3, w3)"
    and "fst (spk_transfer E s (t3, w3)) = GO_ON t'" "snd (spk_transfer E s (t3, w3)) = w'"
    using run k(1) by (auto simp: speaker_task_step_def Let_def bind_eq_Some_conv case_prod_beta split: if_splits)
  then have tr: "spk_transfer E s (t3, w3) = (GO_ON t', w')" by (simp add: prod_eq_iff)
  have w2: "ring ?w2 = ring w" "out ?w2 = out w" using k by (simp_all add: playback_unmoved [OF law])
  have t3: "transfer_buffer t3 = transfer_buffer t" "expand_factor t3 = expand_factor t" "ring w3 = ring w" "out w3 = out w"
    using drain_unmoved [OF law d] w2 by (auto split: if_splits)
  have "moved E ring out s (t3, w3) (t', w')" using transfer_moved [OF law _ tr] f t3 by simp
  then show ?thesis by (simp add: moved_def t3)
qed

section \<open>A run\<close>

text \<open>A run of one task: the bytes \<open>play\<close> has accepted since it started, the speaker at each turn that went on, what the driver had taken before, and the
  state. Everything else may change the speaker, and the world as far as no bytes are moved.\<close>

inductive playback_run ::
    "'w spk_env \<Rightarrow> ('w \<Rightarrow> u8 list) \<Rightarrow> ('w \<Rightarrow> u8 list) \<Rightarrow> u8 list \<Rightarrow> spk list \<Rightarrow> u8 list \<Rightarrow> spk \<times> spk_task \<times> 'w \<Rightarrow> bool"
  for E ring out where
  playback_start: "run_state (speaker_task_start E) (s, w) = (Some t, (s', w')) \<Longrightarrow> expand_factor t = 1 \<or> expand_factor t = 2 \<Longrightarrow>
    playback_run E ring out [] [] (out w) (s', t, w')"
| playback_play: "playback_run E ring out acc vs old (s, t, w) \<Longrightarrow> run_state (spk_play E data n) (s, w) = (k, (s', w')) \<Longrightarrow>
    playback_run E ring out (acc @ take k data) vs old (s', t, w')"
| playback_turn: "playback_run E ring out acc vs old (s, t, w) \<Longrightarrow> speaker_task_step E t (s, w) = Some (GO_ON t', (s', w')) \<Longrightarrow>
    playback_run E ring out acc (vs @ [s]) old (s', t', w')"
| playback_other: "playback_run E ring out acc vs old (s, t, w) \<Longrightarrow> ring w' = ring w \<Longrightarrow> out w' = out w \<Longrightarrow>
    playback_run E ring out acc vs old (s', t, w')"

lemma play_moves:
  assumes law: "playback_law E ring out" and run: "run_state (spk_play E data n) (s, w) = (k, (s', w'))"
  shows "ring w' = ring w @ take k data" "out w' = out w"
proof -
  have st: "ring (snd (snd (run_state (spk_start E) sw))) = ring (snd sw)" "out (snd (snd (run_state (spk_start E) sw))) = out (snd sw)" for sw
    by (cases sw; simp add: spk_start_def playback_unmoved [OF law])+
  show "ring w' = ring w @ take k data" "out w' = out w"
    using run st [of "(s, w)"] by (auto simp: spk_play_def case_prod_beta playback_moves [OF law] split: if_splits)
qed

lemma task_start_moves:
  assumes law: "playback_law E ring out" and run: "run_state (speaker_task_start E) (s, w) = (Some t, (s', w'))"
  shows "ring w' = []" "out w' = out w" "transfer_buffer t = []"
  using run by (auto simp: speaker_task_start_def case_prod_beta Let_def playback_unmoved [OF law] playback_moves [OF law] split: if_splits)

definition playback_inv ::
    "'w spk_env \<Rightarrow> ('w \<Rightarrow> u8 list) \<Rightarrow> ('w \<Rightarrow> u8 list) \<Rightarrow> u8 list \<Rightarrow> spk list \<Rightarrow> u8 list \<Rightarrow> spk_task \<Rightarrow> 'w \<Rightarrow> bool" where
  "playback_inv E ring out acc vs old t w \<longleftrightarrow> (expand_factor t = 1 \<or> expand_factor t = 2) \<and>
     (\<exists>cs played. length cs = length vs \<and> acc = concat cs @ ring w \<and>
        concat (map2 (spk_process E) vs cs) = played @ transfer_buffer t \<and>
        out w = old @ spk_slots (expand_factor t) played \<and> (expand_factor t = 2 \<longrightarrow> even (length played)))"

lemma playback_inv_turn:
  assumes "playback_inv E ring out acc vs old t w" and "moved E ring out s (t, w) (t', w')"
  shows "playback_inv E ring out acc (vs @ [s]) old t' w'"
proof -
  from assms(1) obtain cs played where f: "expand_factor t = 1 \<or> expand_factor t = 2" and inv: "length cs = length vs" "acc = concat cs @ ring w"
    "concat (map2 (spk_process E) vs cs) = played @ transfer_buffer t" "out w = old @ spk_slots (expand_factor t) played"
    "expand_factor t = 2 \<longrightarrow> even (length played)" unfolding playback_inv_def by blast
  from assms(2) obtain c p where mv: "ring w = c @ ring w'" "transfer_buffer t @ spk_process E s c = p @ transfer_buffer t'"
    "out w' = out w @ spk_slots (expand_factor t) p" "expand_factor t = 2 \<longrightarrow> even (length p)" "expand_factor t' = expand_factor t"
    unfolding moved_def by auto
  have "concat (map2 (spk_process E) (vs @ [s]) (cs @ [c])) = (played @ p) @ transfer_buffer t'"
    using inv(1,3) mv(2) by (simp add: zip_append)
  moreover have "out w' = old @ spk_slots (expand_factor t') (played @ p)"
    using inv(4,5) mv(3,5) by (simp add: spk_slots_def expand_samples_append)
  ultimately show ?thesis
    unfolding playback_inv_def using f inv(1,2,5) mv(1,4,5) by (intro conjI exI [of _ "cs @ [c]"] exI [of _ "played @ p"]) auto
qed

lemma playback_inv_run:
  assumes law: "playback_law E ring out"
  shows "playback_run E ring out acc vs old x \<Longrightarrow> playback_inv E ring out acc vs old (fst (snd x)) (snd (snd x))"
proof (induction rule: playback_run.induct)
  case (playback_start s w t s' w')
  show ?case
    using task_start_moves [OF law playback_start(1)] playback_start(2) by (simp add: playback_inv_def spk_slots_def)
next
  case (playback_play acc vs old s t w data n k s' w')
  show ?case
    using playback_play(3) play_moves [OF law playback_play(2)] by (auto simp: playback_inv_def)
next
  case (playback_turn acc vs old s t w t' s' w')
  have f: "expand_factor t = 1 \<or> expand_factor t = 2" using playback_turn(3) by (simp add: playback_inv_def)
  show ?case using playback_inv_turn [OF playback_turn(3)] turn_moved [OF law f playback_turn(2)] by simp
qed (simp add: playback_inv_def)

text \<open>At full volume, and where neighbouring samples need not be exchanged, processing changes nothing.\<close>

lemma spk_process_full:
  assumes "q31_volume_factor s = INT32_MAX" and "\<not> esp_mono_swap E"
  shows "spk_process E s c = c"
  using assms by (simp add: spk_process_def swap_esp32_mono_samples_def apply_software_volume_def)

lemma spk_process_full_concat:
  "length cs = length vs \<Longrightarrow> \<forall>v \<in> set vs. q31_volume_factor v = INT32_MAX \<Longrightarrow> \<not> esp_mono_swap E \<Longrightarrow>
    concat (map2 (spk_process E) vs cs) = concat cs"
  by (induction vs cs rule: list_induct2') (simp_all add: spk_process_full)

text \<open>C16: the bytes leave the speaker as they came. In every run of the task, with calls of \<open>play\<close>, turns of the task and everything else in any order, the bytes
  accepted are those taken by the turns, one piece for each, and then the contents of the ring buffer; the pieces, each processed with the volume of its turn, are what
  was played and then the contents of the transfer buffer; and the driver has taken exactly what was played, expanded to slots. So nothing is lost, repeated or
  reordered, although the driver may take only some of what it is given. At full volume what was accepted is what was played and the
  contents of the two buffers.\<close>

theorem playback_stream_in_order:
  assumes "playback_law E ring out" and "playback_run E ring out acc vs old (s, t, w)"
  shows "\<exists>cs played. length cs = length vs \<and> acc = concat cs @ ring w \<and>
    concat (map2 (spk_process E) vs cs) = played @ transfer_buffer t \<and> out w = old @ spk_slots (expand_factor t) played \<and>
    ((\<forall>v \<in> set vs. q31_volume_factor v = INT32_MAX) \<and> \<not> esp_mono_swap E \<longrightarrow> acc = played @ transfer_buffer t @ ring w)"
proof -
  obtain cs played where inv: "length cs = length vs" "acc = concat cs @ ring w"
    "concat (map2 (spk_process E) vs cs) = played @ transfer_buffer t" "out w = old @ spk_slots (expand_factor t) played"
    using playback_inv_run [OF assms] unfolding playback_inv_def by auto
  then show ?thesis using spk_process_full_concat [OF inv(1), of E] by (intro exI [of _ cs] exI [of _ played]) auto
qed

section \<open>An example\<close>

text \<open>The world is the contents of the ring buffer and what the driver has taken; the driver takes at most eight bytes at a time.\<close>

definition ex_stream_env :: "(u8 list \<times> u8 list) spk_env" where
  "ex_stream_env =
     \<lparr>eg_create = Pair True, eg_get = (\<lambda>w. 0), eg_set = (\<lambda>b. id), eg_clear = (\<lambda>b. id),
      sem_create = (\<lambda>n k. Pair True), sem_count = (\<lambda>w. 0), sem_take = id, sem_give = id, rtos_task_create = Pair True,
      rtos_task_delete = id, rtos_delay = (\<lambda>n. id), set_clear_timeout = (\<lambda>n. id),
      philips_slot_cfg = ex_slot, pcm_slot_cfg = ex_slot, msb_slot_cfg = ex_slot, has_apll = False, plain_esp32 = False,
      port_lock = id, port_unlock = id, i2s_new_channel = (\<lambda>c a b. Pair None), i2s_channel_init_std_mode = (\<lambda>h c. Pair True),
      i2s_channel_get_info = (\<lambda>h. Pair None), i2s_channel_register_event_callback = (\<lambda>h b. Pair True),
      i2s_channel_enable = (\<lambda>h. Pair True), i2s_channel_disable = (\<lambda>h. Pair True), i2s_del_channel = (\<lambda>h. Pair True),
      volume_to_q31 = (\<lambda>v. 1), gain_apply = (\<lambda>q n b d. d), esp_mono_swap = False, dac_set_volume = (\<lambda>v. id),
      dac_set_mute = (\<lambda>b. id), rb_create = (\<lambda>n (r, d). (True, ([], d))), rb_alive = (\<lambda>w. True), rb_available = (\<lambda>(r, d). length r),
      rb_write = (\<lambda>b n (r, d). (length b, (r @ b, d))), tb_create = (\<lambda>n. Pair True), tb_transfer = (\<lambda>b n (r, d). (r, ([], d))), tb_free = id,
      evq_create = (\<lambda>n. Pair True), evq_reset = id, evq_receive = Pair None, evq_full = (\<lambda>w. False), evq_send = (\<lambda>x. id), timer_us = Pair 7,
      spk_millis = Pair 0, spk_ticks = unat, frames_to_bytes = (\<lambda>i n. 4 * unat n), frames_to_microseconds = (\<lambda>i n. n),
      spk_ms_to_bytes = (\<lambda>i n. unat n), spk_samples_to_bytes = (\<lambda>i n. 2 * n), bytes_to_frames = (\<lambda>i n. of_nat (n div 4)),
      i2s_channel_preload_data = (\<lambda>h b (r, d). (min 8 (length b), (r, d @ take 8 b))),
      i2s_channel_write = (\<lambda>h b t (r, d). (min 8 (length b), (r, d @ take 8 b))), audio_output_callback = (\<lambda>n x. id)\<rparr>"

lemma ex_stream_law: "playback_law ex_stream_env fst snd"
  by (auto simp: playback_law_def unmoved_def takes_slots_def ex_stream_env_def min_def)

definition ex_stream_spk :: spk where
  "ex_stream_spk = ex_spk\<lparr>spk_state_of := SPK_RUNNING\<rparr>"

lemma ex_stream_start:
  "\<exists>t. run_state (speaker_task_start ex_stream_env) (ex_stream_spk, ([], [])) = (Some t, (ex_stream_spk, ([], []))) \<and>
     expand_factor t = 2 \<and> transfer_buffer t = [] \<and> tx_dma_underflow t"
  by (simp add: speaker_task_start_def ex_stream_env_def ex_stream_spk_def ex_spk_def ex_bus_def ex_base_def register_in_def register_out_def
      bus_init_def i2s_bits_per_sample_def Let_def)

lemma ex_stream_turn:
  assumes "expand_factor t = 2" "transfer_buffer t = []" "tx_dma_underflow t"
  shows "\<exists>t'. speaker_task_step ex_stream_env t (ex_stream_spk, ([1, 2, 3, 4, 5, 6], [])) =
      Some (GO_ON t', (ex_stream_spk, ([], [0, 0, 1, 2, 0, 0, 3, 4]))) \<and> transfer_buffer t' = [5, 6]"
proof -
  have "drain_events ex_stream_env info x = Some x" for info x
    by (subst drain_events.simps) (simp add: ex_stream_env_def)
  then show ?thesis
    using assms
    by (simp add: speaker_task_step_def spk_keeps_running_def spk_transfer_def write_transfer_buffer_def Let_def ex_stream_env_def
        ex_stream_spk_def ex_spk_def apply_software_volume_def swap_esp32_mono_samples_def expand_one del: le16_of.simps)
qed

theorem playback_stream_in_order_witness:
  "\<exists>t. playback_run ex_stream_env fst snd [1, 2, 3, 4, 5, 6] [ex_stream_spk] [] (ex_stream_spk, t, ([], [0, 0, 1, 2, 0, 0, 3, 4])) \<and>
     transfer_buffer t = [5, 6] \<and>
     (\<exists>played. [0, 0, 1, 2, 0, 0, 3, 4] = spk_slots (expand_factor t) played \<and> [1, 2, 3, 4, 5, 6] = played @ transfer_buffer t)"
proof -
  obtain t where t: "run_state (speaker_task_start ex_stream_env) (ex_stream_spk, ([], [])) = (Some t, (ex_stream_spk, ([], [])))"
    "expand_factor t = 2" "transfer_buffer t = []" "tx_dma_underflow t" using ex_stream_start by blast
  have p: "run_state (spk_play ex_stream_env [1, 2, 3, 4, 5, 6] 0) (ex_stream_spk, ([], [])) = (6, (ex_stream_spk, ([1, 2, 3, 4, 5, 6], [])))"
    by (simp add: spk_play_def ex_stream_env_def ex_stream_spk_def ex_spk_def)
  obtain t' where t': "speaker_task_step ex_stream_env t (ex_stream_spk, ([1, 2, 3, 4, 5, 6], [])) =
      Some (GO_ON t', (ex_stream_spk, ([], [0, 0, 1, 2, 0, 0, 3, 4])))" "transfer_buffer t' = [5, 6]"
    using ex_stream_turn [OF t(2-4)] by blast
  have "playback_run ex_stream_env fst snd [] [] [] (ex_stream_spk, t, ([], []))"
    using playback_start [OF t(1), of fst snd] t(2) by simp
  from playback_turn [OF playback_play [OF this p] t'(1)]
  have r: "playback_run ex_stream_env fst snd [1, 2, 3, 4, 5, 6] [ex_stream_spk] [] (ex_stream_spk, t', ([], [0, 0, 1, 2, 0, 0, 3, 4]))" by simp
  have v: "q31_volume_factor ex_stream_spk = INT32_MAX" "\<not> esp_mono_swap ex_stream_env"
    by (simp_all add: ex_stream_spk_def ex_spk_def ex_stream_env_def)
  have "\<exists>played. [0, 0, 1, 2, 0, 0, 3, 4] = spk_slots (expand_factor t') played \<and> [1, 2, 3, 4, 5, 6] = played @ transfer_buffer t'"
    using playback_stream_in_order [OF ex_stream_law r] v by auto
  then show ?thesis using r t'(2) by blast
qed

end
