(* ===== verification/Capture_Pipeline.thy ===== *)
theory Capture_Pipeline
  imports I2s_Microphone_Correct Resampler_Microphone_Correct "HOL-Library.Sublist"
begin

text \<open>
  The resampling microphone on top of the I2S microphone, as the device configures them: the task of the I2S microphone reads and
  subsamples blocks, the source converts each one and calls the callback of the resampling microphone, which queues it; the task of
  that one resamples what is queued and hands the result to the listeners. The turns of both tasks come in any order.

  Named hypotheses: \<open>captures\<close> (the callback the one calls is the one the other registered) and \<open>resampling_law\<close> (the ring buffers, and a
  resampler that takes its input in order).
\<close>

section \<open>Both tasks together\<close>

text \<open>What the resampler's world shows: the contents of the input and output buffers, the pieces handed to the listeners, all the bytes the resampler has taken
  and made so far, whether the input buffer is held, and the source's stream.\<close>

record capture_view =
  vin :: "u8 list"
  vout :: "u8 list"
  vgot :: "u8 list list"
  veaten :: "u8 list"
  vmade :: "u8 list"
  vlive :: bool
  vsource :: stream_info

text \<open>\<open>rs\<close> resamples a stream; what the resampler has made is always a beginning of the resampling of what it has taken.\<close>

definition resampling_law :: "'v rmic_env \<Rightarrow> ('v \<Rightarrow> capture_view) \<Rightarrow> nat \<Rightarrow> (u8 list \<Rightarrow> u8 list) \<Rightarrow> bool" where
  "resampling_law E V cap rs \<longleftrightarrow>
     (\<forall>v. in_rb_alive E v = vlive (V v) \<and> source_stream_info E v = vsource (V v) \<and> in_rb_free E v = cap - length (vin (V v)) \<and>
        out_rb_available E v = length (vout (V v)) \<and> V (in_rb_reset E v) = (V v)\<lparr>vin := []\<rparr>) \<and>
     (\<forall>d v. length (vin (V v)) + length d \<le> cap \<longrightarrow> V (in_rb_write E d v) = (V v)\<lparr>vin := vin (V v) @ d\<rparr>) \<and>
     (\<forall>b v. V (eg_set E b v) = V v) \<and>
     (\<forall>n v. fst (out_rb_read E n v) = take n (vout (V v)) \<and> V (snd (out_rb_read E n v)) = (V v)\<lparr>vout := drop n (vout (V v))\<rparr>) \<and>
     (\<forall>d v. V (rmic_data_callback E d v) = (V v)\<lparr>vgot := vgot (V v) @ [d]\<rparr>) \<and>
     (\<forall>v. \<exists>k p. V (snd (resampler_resample E v)) =
          (V v)\<lparr>vin := drop k (vin (V v)), veaten := veaten (V v) @ take k (vin (V v)), vout := vout (V v) @ p, vmade := vmade (V v) @ p\<rparr> \<and>
        prefix (vmade (V v) @ p) (rs (veaten (V v) @ take k (vin (V v)))))"

text \<open>\<open>pipe\<close> is the resampling microphone with its own world, seen in the world of the I2S microphone; \<open>conv\<close> is what the source does to a block. A block
  of at most \<open>n\<close> bytes, converted, fits an empty input buffer.\<close>

definition captures ::
    "'w mic_env \<Rightarrow> 'v rmic_env \<Rightarrow> ('w \<Rightarrow> rmic \<times> 'v) \<Rightarrow> (u8 list \<Rightarrow> u8 list) \<Rightarrow> nat \<Rightarrow> nat \<Rightarrow> bool" where
  "captures E1 E2 pipe conv n cap \<longleftrightarrow>
     (\<forall>d w. pipe (mic_data_callback E1 d w) = snd (run_state (rmic_on_data E2 (conv d)) (pipe w))) \<and>
     (\<forall>h t w. pipe (snd (i2s_channel_read E1 h n t w)) = pipe w \<and> length (snd (fst (i2s_channel_read E1 h n t w))) \<le> n) \<and>
     (\<forall>t w. pipe (rtos_delay E1 t w) = pipe w) \<and>
     (\<forall>d. length d \<le> n \<longrightarrow> length (conv (every_third d)) \<le> cap)"

text \<open>The block a turn of the I2S microphone's task reads, empty if reading failed, if there is one.\<close>

definition turn_block :: "'w mic_env \<Rightarrow> nat \<Rightarrow> mic \<times> 'w \<Rightarrow> u8 list option" where
  "turn_block E n sw =
     (if eg_get E (snd sw) AND MIC_COMMAND_STOP = 0 \<and> has_data_callbacks E (snd sw)
      then Some (fst (run_state (mic_read E n (2 * ms_ticks E READ_DURATION_MS)) sw)) else None)"

text \<open>A run from \<open>x\<close>: the blocks read so far, whether each one found room in the input buffer, and the state. Besides the two tasks, the world may change in any
  way that leaves the buffers and the resampling microphone's object alone.\<close>

inductive capture_run ::
    "'w mic_env \<Rightarrow> 'v rmic_env \<Rightarrow> ('w \<Rightarrow> rmic \<times> 'v) \<Rightarrow> ('v \<Rightarrow> capture_view) \<Rightarrow> (u8 list \<Rightarrow> u8 list) \<Rightarrow> nat \<Rightarrow> nat \<Rightarrow> mic \<times> 'w \<Rightarrow>
      u8 list list \<Rightarrow> bool \<Rightarrow> mic \<times> 'w \<Rightarrow> bool"
  for E1 E2 pipe V conv n c x where
  capture_start: "capture_run E1 E2 pipe V conv n c x [] True x"
| capture_none: "capture_run E1 E2 pipe V conv n c x bs ok sw \<Longrightarrow> turn_block E1 n sw = None \<Longrightarrow>
    snd (run_state (mic_task_step E1 n) sw) = sw' \<Longrightarrow> capture_run E1 E2 pipe V conv n c x bs ok sw'"
| capture_block: "capture_run E1 E2 pipe V conv n c x bs ok sw \<Longrightarrow> turn_block E1 n sw = Some b \<Longrightarrow>
    snd (run_state (mic_task_step E1 n) sw) = sw' \<Longrightarrow>
    capture_run E1 E2 pipe V conv n c x (bs @ [b])
      (ok \<and> length (conv (every_third b)) \<le> in_rb_free E2 (snd (pipe (snd sw)))) sw'"
| capture_resample: "capture_run E1 E2 pipe V conv n c x bs ok (s, w) \<Longrightarrow>
    rmic_task_step E2 c (pipe w) = Some (go, pipe w') \<Longrightarrow> capture_run E1 E2 pipe V conv n c x bs ok (s, w')"
| capture_other: "capture_run E1 E2 pipe V conv n c x bs ok (s, w) \<Longrightarrow> correct_dc_offset s' = correct_dc_offset s \<Longrightarrow>
    fst (pipe w') = fst (pipe w) \<Longrightarrow> V (snd (pipe w')) = V (snd (pipe w)) \<Longrightarrow> capture_run E1 E2 pipe V conv n c x bs ok (s', w')"

text \<open>The stream the source hands on for the blocks read.\<close>

definition handed_on :: "(u8 list \<Rightarrow> u8 list) \<Rightarrow> u8 list list \<Rightarrow> u8 list" where
  "handed_on conv bs = concat (map (\<lambda>b. conv (every_third b)) bs)"

lemma handed_on_simps [simp]:
  "handed_on conv [] = []" "handed_on conv (bs @ [b]) = handed_on conv bs @ conv (every_third b)"
  by (simp_all add: handed_on_def)

section \<open>One turn of each task\<close>

lemma mic_read_pipe:
  assumes "captures E1 E2 pipe conv n cap" and "run_state (mic_read E1 n t) (s, w) = (b, (s', w'))"
  shows "pipe w' = pipe w" "length b \<le> n" "correct_dc_offset s' = correct_dc_offset s"
proof -
  obtain st bs w1 where r: "i2s_channel_read E1 (rx_handle (mic_bus s)) n (ticks_ms E1 t) w = ((st, bs), w1)" by (metis prod.exhaust)
  then have "pipe w1 = pipe w \<and> length bs \<le> n" using assms(1) unfolding captures_def by (metis fst_conv snd_conv)
  then show "pipe w' = pipe w" "length b \<le> n" "correct_dc_offset s' = correct_dc_offset s"
    using assms(2) by (auto simp: mic_read_def r split: if_splits)
qed

lemma mic_turn_pipe:
  assumes cap: "captures E1 E2 pipe conv n cap" and run: "snd (run_state (mic_task_step E1 n) (s, w)) = (s', w')"
    and dc: "\<not> correct_dc_offset s"
  shows "\<not> correct_dc_offset s'" "turn_block E1 n (s, w) = None \<Longrightarrow> pipe w' = pipe w"
    "turn_block E1 n (s, w) = Some b \<Longrightarrow> length b \<le> n \<and> pipe w' = snd (run_state (rmic_on_data E2 (conv (every_third b))) (pipe w))"
proof -
  obtain d s1 w1 where r: "run_state (mic_read E1 n (2 * ms_ticks E1 READ_DURATION_MS)) (s, w) = (d, (s1, w1))" by (metis prod.exhaust)
  note p = mic_read_pipe [OF cap r]
  show "\<not> correct_dc_offset s'" using run dc p(3) by (auto simp: mic_task_step_def r split: if_splits)
  show "pipe w' = pipe w" if "turn_block E1 n (s, w) = None"
    using run cap that by (auto simp: mic_task_step_def turn_block_def captures_def split: if_splits)
  show "length b \<le> n \<and> pipe w' = snd (run_state (rmic_on_data E2 (conv (every_third b))) (pipe w))" if "turn_block E1 n (s, w) = Some b"
    using run cap that dc p
    by (auto simp: mic_task_step_def turn_block_def r captures_def subsampled_every_third split: if_splits)
qed

lemma on_data_view:
  assumes law: "resampling_law E V cap rs" and "rmic_state r \<noteq> MIC_STOPPED" "vlive (V v)" "si_rate (vsource (V v)) \<noteq> rmic_target_sample_rate r"
    and len: "length (vin (V v)) \<le> cap" "length d \<le> cap"
    and run: "snd (run_state (rmic_on_data E d) (r, v)) = (r', v')"
  shows "r' = r" "V v' = (V v)\<lparr>vin := (if length d \<le> in_rb_free E v then vin (V v) @ d else d)\<rparr>"
proof -
  have v: "in_rb_alive E v" "rmic_requires_resampling E r v" "in_rb_free E v = cap - length (vin (V v))"
    using law assms(3,4) by (simp_all add: resampling_law_def rmic_requires_resampling_def)
  let ?v = "if in_rb_free E v < length d then in_rb_reset E (eg_set E RMIC_WARNING_FULL_RING_BUFFER v) else v"
  have res: "r' = r" "v' = in_rb_write E d ?v"
    using run assms(2) v(1,2) by (auto simp: rmic_on_data_def rmic_requires_def split: if_splits)
  then show "r' = r" by simp
  have "length (vin (V ?v)) + length d \<le> cap" using law len v(3) by (auto simp: resampling_law_def)
  then have "V v' = (V ?v)\<lparr>vin := vin (V ?v) @ d\<rparr>" using law res(2) by (simp add: resampling_law_def)
  then show "V v' = (V v)\<lparr>vin := (if length d \<le> in_rb_free E v then vin (V v) @ d else d)\<rparr>"
    using law by (auto simp: resampling_law_def)
qed

text \<open>The listeners' side of a turn moves bytes from the output buffer to the listeners.\<close>

definition moved :: "capture_view \<Rightarrow> capture_view \<Rightarrow> bool" where
  "moved a b \<longleftrightarrow> (\<exists>q g. b = a\<lparr>vout := q, vgot := g\<rparr> \<and> concat g @ q = concat (vgot a) @ vout a)"

lemma moved_refl: "moved a a"
proof -
  have "a = a\<lparr>vout := vout a, vgot := vgot a\<rparr>" by simp
  then show ?thesis unfolding moved_def by blast
qed

lemma moved_trans: "moved a b \<Longrightarrow> moved b c \<Longrightarrow> moved a c"
  unfolding moved_def by fastforce

lemma moved_piece: "moved a (a\<lparr>vout := drop n (vout a), vgot := vgot a @ [take n (vout a)]\<rparr>)"
  unfolding moved_def by fastforce

lemma deliver_moved:
  assumes law: "resampling_law E V cap rs" and "deliver_loop E n a v = Some v'"
  shows "moved (V v) (V v')"
proof -
  have "resampling_law E V cap rs \<longrightarrow> moved (V v) (V v')"
    using assms(2)
  proof (rule deliver_loop.raw_induct [where P = "\<lambda>E n a v y. resampling_law E V cap rs \<longrightarrow> moved (V v) (V y)", rotated], intro impI)
    fix loop :: "'a rmic_env \<Rightarrow> nat \<Rightarrow> nat \<Rightarrow> 'a \<Rightarrow> 'a option" and E :: "'a rmic_env" and n a v y
    assume IH: "\<And>E n a v y. loop E n a v = Some y \<Longrightarrow> resampling_law E V cap rs \<longrightarrow> moved (V v) (V y)"
      and law: "resampling_law E V cap rs"
    let ?k = "min a n" and ?r = "out_rb_read E (min a n) v"
    let ?v1 = "rmic_data_callback E (fst ?r) (snd ?r)"
    assume body: "(if \<not> a > 0 then Some v else let r = ?r in if length (fst r) > 0
        then let w1 = rmic_data_callback E (fst r) (snd r) in loop E n (out_rb_available E w1) w1 else Some (snd r)) = Some y"
    have r: "fst ?r = take ?k (vout (V v))" "V (snd ?r) = (V v)\<lparr>vout := drop ?k (vout (V v))\<rparr>" using law by (simp_all add: resampling_law_def)
    consider "y = v" | "y = snd ?r" "fst ?r = []" | "loop E n (out_rb_available E ?v1) ?v1 = Some y"
      using body unfolding Let_def length_greater_0_conv by (metis option.inject)
    then show "moved (V v) (V y)"
    proof cases
      case 2
      then have "drop ?k (vout (V v)) = vout (V v)" using r(1) by auto
      then show ?thesis using 2 r moved_refl by simp
    next
      case 3
      have "moved (V v) (V ?v1)" using moved_piece [of "V v" ?k] r law by (simp add: resampling_law_def)
      then show ?thesis using IH [OF 3] law moved_trans by blast
    qed (simp add: moved_refl)
  qed
  then show ?thesis using law by simp
qed

lemma task_step_view:
  assumes law: "resampling_law E V cap rs" and run: "rmic_task_step E c (r, v) = Some (go, (r', v'))"
  shows "r' = r" "V v' = V v \<or> moved (V (snd (resampler_resample E v))) (V v')"
proof -
  show "r' = r" using run by (auto simp: rmic_task_step_def Let_def split: if_splits bind_splits AudioResamplerState.splits)
  have e: "V (eg_set E b u) = V u" for b u using law by (simp add: resampling_law_def)
  show "V v' = V v \<or> moved (V (snd (resampler_resample E v))) (V v')"
    using run deliver_moved [OF law] by (auto simp: rmic_task_step_def Let_def e split: if_splits bind_splits AudioResamplerState.splits)
qed

section \<open>The invariant\<close>

definition capture_inv ::
    "('v \<Rightarrow> capture_view) \<Rightarrow> nat \<Rightarrow> (u8 list \<Rightarrow> u8 list) \<Rightarrow> rmic \<Rightarrow> u8 list \<Rightarrow> bool \<Rightarrow> rmic \<times> 'v \<Rightarrow> bool" where
  "capture_inv V cap rs r stream ok rv \<longleftrightarrow>
     (let v = V (snd rv) in fst rv = r \<and> rmic_state r \<noteq> MIC_STOPPED \<and> vlive v \<and> si_rate (vsource v) \<noteq> rmic_target_sample_rate r \<and>
        length (vin v) \<le> cap \<and> subseq (veaten v @ vin v) stream \<and> suffix (vin v) stream \<and> (ok \<longrightarrow> veaten v @ vin v = stream) \<and>
        concat (vgot v) @ vout v = vmade v \<and> prefix (vmade v) (rs (veaten v)))"

lemma capture_inv_data:
  assumes "resampling_law E V cap rs" and inv: "capture_inv V cap rs r stream ok rv" and "length d \<le> cap"
  shows "capture_inv V cap rs r (stream @ d) (ok \<and> length d \<le> in_rb_free E (snd rv)) (snd (run_state (rmic_on_data E d) rv))"
proof -
  obtain v where rv: "rv = (r, v)" using inv by (cases rv) (simp add: capture_inv_def Let_def)
  obtain r' v' where run: "snd (run_state (rmic_on_data E d) (r, v)) = (r', v')" by (metis prod.exhaust)
  have v: "r' = r" "V v' = (V v)\<lparr>vin := (if length d \<le> in_rb_free E v then vin (V v) @ d else d)\<rparr>"
    using on_data_view [OF assms(1) _ _ _ _ assms(3) run] inv by (simp_all add: capture_inv_def rv Let_def)
  have len: "length (vin (V v) @ d) \<le> cap" if "length d \<le> in_rb_free E v"
    using that assms(1) inv by (auto simp: resampling_law_def capture_inv_def rv Let_def)
  have s: "subseq (veaten (V v) @ vin (V v)) stream" "suffix (vin (V v)) stream" using inv by (simp_all add: capture_inv_def rv Let_def)
  have "subseq (veaten (V v)) stream" using s(1) by (metis subseq_order.order_trans list_emb_append_mono subseq_order.order_refl list_emb_Nil append_Nil2)
  then have "subseq (veaten (V v) @ d) (stream @ d)" "subseq (veaten (V v) @ vin (V v) @ d) (stream @ d)"
    using list_emb_append_mono [OF _ subseq_order.order_refl] s(1) by (blast, metis append.assoc)
  moreover have "suffix (vin (V v) @ d) (stream @ d)" "suffix d (stream @ d)" using s(2) by (auto simp: suffix_def)
  ultimately show ?thesis using inv v len assms(3) by (auto simp: capture_inv_def rv run Let_def)
qed

lemma capture_inv_resample:
  assumes law: "resampling_law E V cap rs" and inv: "capture_inv V cap rs r stream ok rv" and run: "rmic_task_step E c rv = Some (go, rv')"
  shows "capture_inv V cap rs r stream ok rv'"
proof -
  obtain v r' v' where rv: "rv = (r, v)" "rv' = (r', v')" using inv by (cases rv; cases rv') (simp add: capture_inv_def Let_def)
  note t = task_step_view [OF law run [unfolded rv]]
  obtain k p where kp: "V (snd (resampler_resample E v)) =
      (V v)\<lparr>vin := drop k (vin (V v)), veaten := veaten (V v) @ take k (vin (V v)), vout := vout (V v) @ p, vmade := vmade (V v) @ p\<rparr>"
      "prefix (vmade (V v) @ p) (rs (veaten (V v) @ take k (vin (V v))))"
    using law unfolding resampling_law_def by meson
  have "suffix (drop k (vin (V v))) stream" if "suffix (vin (V v)) stream" using that suffix_drop suffix_order.order_trans by blast
  then have mid: "capture_inv V cap rs r stream ok (r, snd (resampler_resample E v))"
    using inv kp by (auto simp: capture_inv_def rv Let_def)
  show ?thesis
  proof (cases "V v' = V v")
    case True
    then show ?thesis using inv t(1) by (simp add: capture_inv_def rv)
  next
    case False
    then show ?thesis using mid t by (auto simp: capture_inv_def rv Let_def moved_def)
  qed
qed

lemma capture_inv_run:
  assumes law: "captures E1 E2 pipe conv n cap" "resampling_law E2 V cap rs" and "capture_run E1 E2 pipe V conv n c x bs ok sw"
    and start: "capture_inv V cap rs r [] True (pipe (snd x))" "\<not> correct_dc_offset (fst x)"
  shows "capture_inv V cap rs r (handed_on conv bs) ok (pipe (snd sw)) \<and> \<not> correct_dc_offset (fst sw)"
  using assms(3)
proof induction
  case (capture_none bs ok sw sw')
  then show ?case
    using mic_turn_pipe(1,2) [OF law(1), of "fst sw" "snd sw" "fst sw'" "snd sw'"] by simp
next
  case (capture_block bs ok sw b sw')
  have "length (conv (every_third b)) \<le> cap" and p: "pipe (snd sw') = snd (run_state (rmic_on_data E2 (conv (every_third b))) (pipe (snd sw)))"
    and dc: "\<not> correct_dc_offset (fst sw')"
    using mic_turn_pipe(1,3) [OF law(1), of "fst sw" "snd sw" "fst sw'" "snd sw'"] capture_block law(1) by (auto simp: captures_def)
  then show ?case using capture_inv_data [OF law(2)] capture_block.IH by simp
next
  case (capture_resample bs ok s w go w')
  then show ?case using capture_inv_resample [OF law(2), of r "handed_on conv bs" ok "pipe w" c go "pipe w'"] by simp
next
  case (capture_other bs ok s w s' w')
  then show ?case by (simp add: capture_inv_def Let_def)
qed (simp add: start)


section \<open>An example\<close>

text \<open>The resampling microphone's world: input buffer of 12 bytes, output buffer, pieces delivered, bytes taken. The resampler copies everything that waits. The
  I2S microphone's world is the resampling microphone with its own; each read gives the same 24 bytes.\<close>

type_synonym ex_ring_world = "u8 list \<times> u8 list \<times> u8 list list \<times> u8 list"

definition ex_ring_env :: "ex_ring_world rmic_env" where
  "ex_ring_env =
     \<lparr>eg_create = Pair True, eg_get = (\<lambda>w. 0), eg_set = (\<lambda>b. id), eg_clear = (\<lambda>b. id),
      sem_create = (\<lambda>n k. Pair True), sem_count = (\<lambda>w. 15), sem_take = id, sem_give = id,
      rtos_task_create = Pair True, rtos_task_delete = id, rtos_delay = (\<lambda>n. id), set_clear_timeout = (\<lambda>n. id),
      source_stream_info = (\<lambda>w. \<lparr>si_bits = 32, si_channels = 2, si_rate = 48000\<rparr>), source_start = id, source_stop = id,
      source_add_data_callback = id, stack_allocate = (\<lambda>p. Pair True), stack_deallocate = (\<lambda>p. id),
      rmic_ms_to_bytes = (\<lambda>i n. 64 * unat n), in_rb_create = (\<lambda>n. Pair True), in_rb_alive = (\<lambda>w. True),
      in_rb_free = (\<lambda>(i, x). 12 - length i), in_rb_reset = (\<lambda>(i, x). ([], x)),
      in_rb_write = (\<lambda>d (i, x). (take 12 (i @ d), x)), out_rb_create = (\<lambda>n. Pair True),
      out_rb_available = (\<lambda>(i, q, x). length q), out_rb_read = (\<lambda>n (i, q, x). (take n q, (i, drop n q, x))),
      resampler_create = (\<lambda>n k. id), resampler_start = (\<lambda>i j t f. Pair ESP_OK), resampler_add_source = id,
      resampler_add_sink = id, resampler_resample = (\<lambda>(i, q, g, e). (RESAMPLING, ([], q @ i, g, e @ i))),
      resampler_reset = id, rmic_has_data_callbacks = (\<lambda>w. True), rmic_data_callback = (\<lambda>d (i, q, g, e). (i, q, g @ [d], e))\<rparr>"

definition ex_ring_view :: "ex_ring_world \<Rightarrow> capture_view" where
  "ex_ring_view = (\<lambda>(i, q, g, e). \<lparr>vin = i, vout = q, vgot = g, veaten = e, vmade = e, vlive = True,
     vsource = \<lparr>si_bits = 32, si_channels = 2, si_rate = 48000\<rparr>\<rparr>)"

definition ex_capture_env :: "(rmic \<times> ex_ring_world) mic_env" where
  "ex_capture_env =
     \<lparr>eg_create = Pair True, eg_get = (\<lambda>w. 0), eg_set = (\<lambda>b. id), eg_clear = (\<lambda>b. id),
      sem_create = (\<lambda>n k. Pair True), sem_count = (\<lambda>w. 15), sem_take = id, sem_give = id,
      rtos_task_create = Pair True, rtos_task_delete = id, rtos_delay = (\<lambda>n. id), set_clear_timeout = (\<lambda>n. id),
      philips_slot_cfg = ex_slot, pcm_slot_cfg = ex_slot, msb_slot_cfg = ex_slot, has_apll = False, plain_esp32 = False,
      port_lock = id, port_unlock = id, i2s_new_channel = (\<lambda>c a b. Pair None), i2s_channel_init_std_mode = (\<lambda>h c. Pair True),
      i2s_channel_get_info = (\<lambda>h. Pair None), i2s_channel_register_event_callback = (\<lambda>h b. Pair True),
      i2s_channel_enable = (\<lambda>h. Pair True), i2s_channel_disable = (\<lambda>h. Pair True), i2s_del_channel = (\<lambda>h. Pair True),
      i2s_channel_read = (\<lambda>h n t. Pair (READ_OK, take n (map (\<lambda>k. of_nat k) [0..<24]))), ticks_ms = id, ms_ticks = unat,
      ms_to_bytes = (\<lambda>i n. 64 * unat n), samples_to_bytes = (\<lambda>i n. 4 * n), bytes_to_samples = (\<lambda>i n. n div 4),
      unpack_audio_sample_to_q31 = (\<lambda>bs. hd (le32_list_of bs)), pack_q31_as_audio_sample = (\<lambda>x n. le32_bytes x),
      has_data_callbacks = (\<lambda>w. True), mic_data_callback = (\<lambda>d w. snd (run_state (rmic_on_data ex_ring_env d) w))\<rparr>"

lemma length_every_third: "length (every_third d) \<le> 4 * (length d div 12)"
  unfolding every_third_def length_concat map_map
  using sum_list_mono [of "[0..<length d div 12]" "\<lambda>k. length (take 4 (drop (12 * k) d))" "\<lambda>_. 4"]
  by (simp add: comp_def sum_list_triv mult.commute)

lemma ex_capture_laws: "resampling_law ex_ring_env ex_ring_view 12 id" "captures ex_capture_env ex_ring_env id id 24 12"
proof -
  show "resampling_law ex_ring_env ex_ring_view 12 id"
    by (auto simp: resampling_law_def ex_ring_env_def ex_ring_view_def)
  have "length (every_third d) \<le> 12" if "length d \<le> 24" for d
    using length_every_third [of d] that by linarith
  then show "captures ex_capture_env ex_ring_env id id 24 12" by (simp add: captures_def ex_capture_env_def)
qed


end
