(* ===== verification/Spec2Isabelle.thy ===== *)
theory Spec2Isabelle
  imports Fusb302b_Link Xmos_Full_Erase Xmos_Flash_Remote Flash_Bus_Sharing I2s_Microphone_Life I2s_Speaker_Life
    Resampler_Microphone_Life Audio_Pipeline Playback_Stream Capture_Pipeline
begin

text \<open>
  A verification development for the C++ code of the Satellite1 firmware (ESPHome components for a voice device: a USB
  power-delivery controller, an XMOS audio processor on SPI and its flash memory, and the I2S audio path).

  \<^bold>\<open>The program and its parts.\<close>
  \<^item> \<open>components/fusb302b\<close>: a driver for the FUSB302B port controller and, on top of it, a USB power-delivery sink. An interrupt
    wakes a reader task, which drains received messages into a queue; a second task handles them; the main loop follows
    the attach state, retries the negotiation and publishes the contract.
  \<^item> \<open>esphome/components/satellite1\<close>: the hub, which exchanges commands and status registers with the XMOS over SPI, its GPIO pins, and
    \<open>memory_flasher/xmos_flashing\<close>, which writes a firmware image to the XMOS flash while the hub is held in direct access;
    \<open>esphome/components/memory_flasher\<close> is the flasher's base class with the image readers.
  \<^item> \<open>components/i2s_audio\<close>: one I2S port shared by a microphone and a speaker, each with a FreeRTOS task.
  \<^item> \<open>components/resampler\<close>: a microphone and a speaker that convert sample rates between a client and another
    microphone or speaker.

  \<^bold>\<open>How the code is modelled.\<close> A class is a record of its members; an operation is a program of the state monad on
  pairs of the object and the world. The world is a type variable: hardware, RTOS, ESPHome and libraries are fields
  of an environment record (\<open>fusb_env\<close>, \<open>sat_env\<close>, \<open>flash_env\<close>, \<open>i2s_env\<close>, \<open>mic_env\<close>, \<open>spk_env\<close>, \<open>rmic_env\<close>, \<open>rspk_env\<close>), functions that read or change
  the world, and what the code relies on of them are named hypotheses (below). Integers have their C++ width and wrap; buffers are
  lists of bytes. A loop that may not end is a partial function into \<open>option\<close>, and a theorem that it returns shows that the
  value is not \<open>None\<close>; \<open>None\<close> also stands for a trap (division by zero, null pointer). A task is split into the part before its loop, one turn of
  the loop, and the part after it. Main loop, task turns, callbacks and interrupt handlers are atomic steps of a step relation
  where interleaving matters (\<open>fusb_step\<close> with its abstraction \<open>link_step\<close>, \<open>sat_step\<close>, \<open>rspk_step\<close>, \<open>life_step\<close>, \<open>board_step\<close>, \<open>capture_run\<close>, \<open>playback_run\<close>), and the world may change between two steps.
  Setters, getters and the actions of the automations are functions on the object or programs like the others.

  \<^bold>\<open>Theories.\<close>
  \<^item> \<open>Sat1_Prelude\<close>: integer types, bytes, the state-monad primitives and a small Hoare calculus.
  \<^item> \<open>Pd_Msg\<close> and \<open>Power_Delivery\<close> (\<open>pd.h\<close>, \<open>pd.cpp\<close>): message headers, power data objects, request words, the message handlers and the
    negotiation state. Shown: headers survive coding; a request answers the offered capabilities and names an offered supply; the
    selection loop is the documented choice. The locale \<open>pd_transport\<close> is what the negotiation needs of a transport.
  \<^item> \<open>Fusb302_Defines\<close>, \<open>Fusb302b\<close> (\<open>fusb302_defines.h\<close>, \<open>fusb302b.h\<close>, \<open>fusb302b.cpp\<close>, \<open>automation.h\<close>), \<open>Fusb302b_Correct\<close> and \<open>Fusb302b_Protocol\<close>: registers,
    FIFO frames, locking, tasks, CC measurement and the retry ladder; \<open>Fusb302_Defines\<close> is the whole header, with distinct
    addresses and disjoint fields. Shown: every message the handlers build is one the transport can code, and a frame is read back as
    sent; the bus mutex is always returned; draining ends; a negotiation reaches a contract or gives up after a bounded number
    of turns; the retry counter stays in range in every reachable state; detaching; two defects of the retry ladder.
  \<^item> \<open>Fusb302b_Link\<close>: what the driver promises its users, as a small machine \<open>link_step\<close> with steps to attach, detach, offer, accept, get ready, time out and reset. Shown: every
    step of the driver, with both tasks, the interrupt, the automation and the shutdown in any order, is a sequence of steps of the machine, and the contract shown
    is one the source has offered. Two weaknesses are lemmas: a message that waits in the queue is handled after a detach, and a new source
    is published with the old contract.
  \<^item> \<open>Satellite1_Core\<close> and \<open>Satellite1_Correct\<close> (\<open>satellite1.h\<close>, \<open>satellite1.cpp\<close>, \<open>sat_gpio.h\<close>, \<open>sat_gpio.cpp\<close>, \<open>automation.h\<close>): transfers with their retries,
    the connection state machine, direct flash access, pins. Shown: an invariant of all reachable states, what a transfer
    delivers, that a silent device is given up, the pins' values.
  \<^item> \<open>Memory_Flasher\<close>, \<open>Memory_Flasher_Correct\<close> (\<open>memory_flasher.h\<close>, \<open>memory_flasher.cpp\<close>, \<open>automation.h\<close>): image readers, checksum retrieval and actions. The
    locale \<open>image_source\<close> is the contract of a reader, interpreted by the embedded one.
  \<^item> \<open>Xmos_Flasher\<close>, \<open>Xmos_Flasher_Correct\<close> and \<open>Xmos_Flash_Image\<close> (\<open>xmos_flashing.h\<close>, \<open>xmos_flashing.cpp\<close>): flash commands, erasing, programming, verification and the flasher's
    state machine. Shown: success is reported only when the checksum agrees and the flash holds the image; a flashing job
    ends after a bounded number of turns; two defects.
  \<^item> \<open>Xmos_Flash_Remote\<close>: a job with an image from the network, from the request through any number of turns. Shown: success means that an image of
    the announced length with the expected checksum came in and is what the flash holds.
  \<^item> \<open>Xmos_Full_Erase\<close>: \<open>erase_memory\<close> through any number of turns. Shown: success means that each of the 8388608 bytes of the chip is erased.
  \<^item> \<open>Flash_Bus_Sharing\<close>: hub and flasher on one bus, with the main loops, requests, transfers and pins in any order. Shown: during a job nothing but
    the flasher uses the bus, and after a success the hub finds the chip again. \<open>flash_accessible\<close> is a step of \<open>board_step\<close> only between jobs: during
    a job it breaks this, which is a lemma of its own.
  \<^item> \<open>Audio_Base\<close>: streams, FreeRTOS objects and their laws, shared by the audio components; \<open>Microphone_Interface\<close>: the locale
    \<open>listened_microphone\<close>, the contract of \<open>start\<close> and \<open>stop\<close>, interpreted by both microphones. \<open>Task_Lifecycle\<close>: an owner with a main loop and the task it creates, as a
    step relation \<open>life_step\<close>, and the locale that gives the life-cycle invariant from the laws of the owner's and the task's parts.
  \<^item> \<open>I2s_Audio\<close>, \<open>I2s_Audio_Correct\<close> (\<open>i2s_audio.h\<close>, \<open>i2s_audio.cpp\<close>): the port and its two channels. Shown: the handles are exactly the allocated
    channels, except after one failure, which leaves a dangling handle.
  \<^item> \<open>I2s_Microphone\<close>, \<open>I2s_Microphone_Correct\<close> (\<open>i2s_audio_microphone.h\<close>, \<open>.cpp\<close>): subsampling delivers every third sample, bounds of the DC correction,
    stopping when the listeners leave. \<open>I2s_Microphone_Life\<close>: in every reachable state the handle is kept exactly while a task exists, and the
    stop bit is set exactly when it has ended.
  \<^item> \<open>I2s_Speaker\<close>, \<open>I2s_Speaker_Correct\<close> (\<open>i2s_audio_speaker.h\<close>, \<open>.cpp\<close>, \<open>i2s_audio_speaker_standard.h\<close>, \<open>.cpp\<close>): every written frame is reported once, a finish
    plays everything out, an overflow of the event queue stops the task, sample expansion. \<open>I2s_Speaker_Life\<close>: the life cycle, with the interrupt callback and the commands in between.
  \<^item> \<open>Resampler_Microphone\<close>, \<open>Resampler_Microphone_Correct\<close> (\<open>resampler_microphone.h\<close>, \<open>.cpp\<close>): everything resampled is delivered, the ring buffer takes the newest
    data, a silent restart. \<open>Resampler_Microphone_Life\<close>: the life cycle, in which the same task is suspended, deleted and created again.
  \<^item> \<open>Resampler_Speaker\<close>, \<open>Resampler_Speaker_Correct\<close> (\<open>resampler_speaker.h\<close>, \<open>.cpp\<close>): the frame counts refine an exact clock, the waiting invariant over all
    reachable states, stop completes, a dropped start.
  \<^item> \<open>Audio_Pipeline\<close>: the resampling speaker on top of the I2S speaker; frame counts stay exact through both.
  \<^item> \<open>Playback_Stream\<close>: the bytes on their way from \<open>play\<close> through the ring buffer, the task's processing and expansion, to the driver. Shown: in any order of
    calls, turns and other events, what the driver has taken and what the buffers hold is what was accepted, in order and complete.
  \<^item> \<open>Capture_Pipeline\<close>: the resampling microphone on top of the I2S microphone, with the turns of their tasks in any order; what the listeners get is the
    resampling of the captured stream, in order, complete as long as each block finds room in the ring buffer.

  \<^bold>\<open>Named hypotheses.\<close> Each states documented behaviour of code outside the repository, and each is met by a concrete environment in the
  witnesses: \<open>bus_mutex\<close> (FreeRTOS mutex of the I2C bus), \<open>fifo_law\<close> (the controller's receive FIFO), \<open>callback_count\<close>, \<open>clock_law\<close> (time), \<open>spi_law\<close>,
  \<open>spi_trace\<close>, \<open>xfer_count\<close> and \<open>silent_device\<close> (the SPI bus), \<open>malloc_law\<close>, \<open>nor_flash\<close> and \<open>erasable\<close> (the flash chip, which ignores what comes while it is busy or write-protected), \<open>rtos_law\<close> (event groups and counting semaphores), \<open>i2s_law\<close> and
  \<open>bus_quiet\<close> (the I2S driver), \<open>event_queue\<close>, \<open>out_ring\<close> and \<open>in_ring\<close> (queues and ring buffers), \<open>source_law\<close> (\<open>MicrophoneSource\<close>), \<open>output_law\<close> and \<open>callback_log\<close> (the output
  speaker and its callback), \<open>http_law\<close> (the HTTP client), \<open>driver_quiet\<close>, \<open>mic_law\<close>, \<open>spk_law\<close> and \<open>rmic_law\<close> (which calls leave the event group and the port alone); \<open>feeds\<close> composes
  the two speakers, \<open>captures\<close> and \<open>resampling_law\<close> the two microphones; \<open>playback_law\<close> is the ring buffer, the transfer buffer and the driver's
  writing as the speaker's task uses them.

  \<^bold>\<open>Bounds.\<close> No definition takes fuel. Retries are bounded as in the code (three repetitions of a transfer, two attempts at a page); the
  frame counts of the resampling speaker are exact while a batch times the sample rate fits 32 bits, which a DMA buffer of 240 frames does
  for every sample rate the device supports.

  \<^bold>\<open>Not modelled.\<close> Logging and \<open>dump_config\<close>; \<open>on_task_stopped\<close> and \<open>i2s_overflow_cb\<close>, which do nothing; setters of pointers to other components, which the
  environment records stand for; stack sizes and priorities of the tasks; the Python code generators and YAML configuration, which run outside the device; races inside
  an operation (members shared by a task and the main loop are read and written without synchronisation in the code; the
  model runs each step as a whole).
\<close>

end
